theory Spec2Isabelle
  imports Complex_Main "HOL-Library.AList"
begin

section \<open>The resource-aware strategy of flwr/server/strategy/resource\_aware\_fedavg.py\<close>

text \<open>
  The embedding follows the Python source. Python exceptions are values of \<open>error\<close>;
  a function that can raise returns \<open>error + 'a\<close> with \<open>Inl\<close> the exception.
  Python dictionaries keep insertion order, and the order of the model map decides the
  scheduler's tie-break, so every dictionary is an association list:
  \<open>d[k] = v\<close> is \<open>AList.update k v d\<close> (an existing key keeps its place, a new key
  goes to the end) and \<open>d[k]\<close> is \<open>py_getitem d k\<close>.
  Python's \<open>float\<close> values are real numbers and the operations on them are exact,
  except in \<open>max_num_clients_this_gpu_binary64\<close>, the capacity estimate with every
  operation rounded as the IEEE 754 double format rounds it. NaN is outside the model.
\<close>

subsection \<open>Python primitives\<close>

datatype error = ValueError | ZeroDivisionError | KeyError | IndexError | OverflowError

definition py_getitem :: "('k \<times> 'v) list \<Rightarrow> 'k \<Rightarrow> error + 'v" where
  "py_getitem d k = (case map_of d k of None \<Rightarrow> Inl KeyError | Some v \<Rightarrow> Inr v)"

text \<open>\<open>int(x)\<close> on a float truncates toward zero.\<close>

definition py_int :: "real \<Rightarrow> int" where
  "py_int x = (if 0 \<le> x then \<lfloor>x\<rfloor> else \<lceil>x\<rceil>)"

text \<open>
  Python's float is the IEEE 754 double. A finite float is a number \<open>m * 2^e\<close> with an
  integer \<open>m\<close> of magnitude below \<open>2^53\<close> and \<open>-1074 \<le> e \<le> 971\<close>; it is modelled by its
  value. The operations \<open>+\<close>, \<open>-\<close> and \<open>/\<close> on floats return the float nearest to the exact
  result, and of two equally near floats the one with the even \<open>m\<close>.
\<close>

definition round_half_even :: "real \<Rightarrow> int" where
  "round_half_even x =
     (let f = \<lfloor>x\<rfloor>; d = x - of_int f
      in if d < 1 / 2 then f else if 1 / 2 < d then f + 1 else if even f then f else f + 1)"

text \<open>
  The exponent of the last binary place of the float format at \<open>x \<ge> 0\<close>: the \<open>e\<close> with
  \<open>2^52 \<le> x / 2^e < 2^53\<close>, and \<open>-1074\<close>, the exponent of the subnormal numbers, where that
  would be smaller. It is found by halving a large \<open>x\<close> and doubling a small one.
\<close>

function exponent_down :: "real \<Rightarrow> int \<Rightarrow> int" where
  "exponent_down x e = (if 2 ^ 53 \<le> x then exponent_down (x / 2) (e + 1) else e)"
  by pat_completeness auto
termination
proof (relation "measure (\<lambda>(x, e). nat \<lceil>x\<rceil>)")
  show "wf (measure (\<lambda>(x, e). nat \<lceil>x\<rceil>))" by simp
next
  fix x :: real and e :: int
  assume large: "2 ^ 53 \<le> x"
  then have "x / 2 \<le> x - 1" by simp
  then have "\<lceil>x / 2\<rceil> \<le> \<lceil>x - 1\<rceil>" by (rule ceiling_mono)
  moreover have "0 < \<lceil>x\<rceil>" using large by simp
  ultimately show "((x / 2, e + 1), (x, e)) \<in> measure (\<lambda>(x, e). nat \<lceil>x\<rceil>)" by simp
qed

function exponent_up :: "real \<Rightarrow> int \<Rightarrow> int" where
  "exponent_up x e = (if x < 2 ^ 52 \<and> - 1074 < e then exponent_up (2 * x) (e - 1) else e)"
  by pat_completeness auto
termination
  by (relation "measure (\<lambda>(x, e). nat (e + 1074))") auto

declare exponent_down.simps [simp del] exponent_up.simps [simp del]

definition exponent :: "real \<Rightarrow> int" where
  "exponent x = (if 2 ^ 53 \<le> x then exponent_down x 0 else exponent_up x 0)"

text \<open>
  The float that an operation with the exact result \<open>x\<close> returns. A rounded result of
  magnitude \<open>2^1024\<close> or more is an infinity, which is \<open>None\<close> here.
\<close>

definition binary64 :: "real \<Rightarrow> real option" where
  "binary64 x =
     (if x = 0 then Some 0
      else (let e = exponent \<bar>x\<bar>;
                r = sgn x * of_int (round_half_even (\<bar>x\<bar> / 2 powi e)) * 2 powi e
            in if \<bar>r\<bar> < 2 ^ 1024 then Some r else None))"

text \<open>\<open>xs[:k]\<close> and \<open>del xs[:k]\<close>: a negative \<open>k\<close> counts from the end.\<close>

definition py_take :: "int \<Rightarrow> 'a list \<Rightarrow> 'a list" where
  "py_take k xs = (if 0 \<le> k then take (nat k) xs else take (nat (int (length xs) + k)) xs)"

definition py_drop :: "int \<Rightarrow> 'a list \<Rightarrow> 'a list" where
  "py_drop k xs = (if 0 \<le> k then drop (nat k) xs else drop (nat (int (length xs) + k)) xs)"

text \<open>\<open>min(xs)\<close> and \<open>max(xs)\<close> raise ValueError on an empty sequence.\<close>

fun py_min :: "real list \<Rightarrow> error + real" where
  "py_min [] = Inl ValueError"
| "py_min (x # xs) = Inr (fold min xs x)"

fun py_max :: "real list \<Rightarrow> error + real" where
  "py_max [] = Inl ValueError"
| "py_max (x # xs) = Inr (fold max xs x)"

text \<open>\<open>xs.index(v)\<close>: the first position holding \<open>v\<close>, ValueError when there is none.\<close>

fun py_index :: "real list \<Rightarrow> real \<Rightarrow> error + nat" where
  "py_index [] v = Inl ValueError"
| "py_index (x # xs) v =
     (if x = v then Inr 0
      else (case py_index xs v of Inl e \<Rightarrow> Inl e | Inr i \<Rightarrow> Inr (Suc i)))"

text \<open>
  \<open>numpy.random.choice(pool, size=n, replace=False)\<close>. The generator's outcome is the
  argument \<open>perm\<close>, a permutation of the positions of the pool, of which the first
  \<open>n\<close> are used. numpy raises ValueError for a negative size and for a sample larger
  than the population.
\<close>

definition choice :: "int list \<Rightarrow> int \<Rightarrow> nat list \<Rightarrow> error + int list" where
  "choice pool n perm =
     (if n < 0 then Inl ValueError
      else if int (length pool) < n then Inl ValueError
      else Inr (map (\<lambda>i. pool ! i) (take (nat n) perm)))"

text \<open>\<open>list(range(5, 31, 5))\<close>\<close>

definition warm_up_pool :: "int list" where
  "warm_up_pool = map (\<lambda>i. 5 + 5 * int i) [0..<6]"

subsection \<open>Data\<close>

text \<open>
  \<open>numpy.polynomial.Polynomial\<close>: coefficients in increasing degree, with the domain and
  the window of the series; a call maps the argument from the domain to the window
  and evaluates the power series there.
\<close>

record Polynomial =
  coef :: "real list"
  pdomain :: "real \<times> real"
  pwindow :: "real \<times> real"

definition Polynomial_new :: "real list \<Rightarrow> Polynomial" where
  "Polynomial_new cs = \<lparr>coef = cs, pdomain = (-1, 1), pwindow = (-1, 1)\<rparr>"

definition mapparms :: "real \<times> real \<Rightarrow> real \<times> real \<Rightarrow> real \<times> real" where
  "mapparms old new =
     (let oldlen = snd old - fst old; newlen = snd new - fst new
      in ((snd old * fst new - fst old * snd new) / oldlen, newlen / oldlen))"

definition polyval :: "real \<Rightarrow> real list \<Rightarrow> real" where
  "polyval x cs = foldr (\<lambda>c acc. c + x * acc) cs 0"

definition Polynomial_call :: "Polynomial \<Rightarrow> real \<Rightarrow> real" where
  "Polynomial_call p x =
     (let (off, scl) = mapparms (pdomain p) (pwindow p)
      in polyval (off + scl * x) (coef p))"

record SimpleGPU =
  uuid :: string
  gpu_id :: int
  total_mem_mb :: real

datatype Scalar = SBool bool | SInt int | SFloat real | SStr string

datatype resource = SchedulingStrategy string bool | NumGpu real

record ClientProxy =
  cid :: string
  resources :: "(string \<times> resource) list"

record 'p FitIns =
  parameters :: 'p
  config :: "(string \<times> Scalar) list"

text \<open>The fields of the strategy object that the scheduler reads and writes.\<close>

record ResourceAwareFedAvg =
  current_round :: int
  warm_up_steps :: "int list"
  client_configs_map :: "(string \<times> (string \<times> string \<times> int)) list"
  resource_poly_degree :: int
  gpu_resources :: "(string \<times> (string \<times> SimpleGPU) list) list"
  resources_model :: "((string \<times> string) \<times> (Polynomial \<times> int)) list"

definition MAX_POLY_DEG :: int where
  "MAX_POLY_DEG = 15"

subsection \<open>The constructor\<close>

definition init :: "int \<Rightarrow> nat list \<Rightarrow> error + ResourceAwareFedAvg" where
  "init poly_degree perm =
     (case choice warm_up_pool (poly_degree + 1) perm of
        Inl e \<Rightarrow> Inl e
      | Inr steps \<Rightarrow>
          Inr \<lparr>current_round = 0, warm_up_steps = steps, client_configs_map = [],
               resource_poly_degree = poly_degree, gpu_resources = [],
               resources_model = []\<rparr>)"

subsection \<open>The capacity estimate of round 1\<close>

text \<open>
  Lines 391 to 398 of \<open>aggregate_fit\<close>:
  \<open>int((total_mem_this_gpu - max_all_proc_mem + max_mem_used_this_gpu) / max_mem_used_this_gpu)\<close>.
  Python's float division raises ZeroDivisionError on a zero divisor. The first
  definition carries out the three operations exactly; it is the one that \<open>aggregate_fit\<close>
  below calls.
\<close>

definition max_num_clients_this_gpu :: "real \<Rightarrow> real \<Rightarrow> real \<Rightarrow> error + int" where
  "max_num_clients_this_gpu total_mem_this_gpu max_all_proc_mem max_mem_used_this_gpu =
     (if max_mem_used_this_gpu = 0 then Inl ZeroDivisionError
      else Inr (py_int ((total_mem_this_gpu - max_all_proc_mem + max_mem_used_this_gpu)
                         / max_mem_used_this_gpu)))"

text \<open>
  The same lines with the three operations as the machine carries them out, each
  rounded to a float. The memory figures are finite floats (the annotation of lines 377 to 379).
  The numerator is evaluated first and raises nothing, an overflow giving an infinity;
  the division raises ZeroDivisionError on a zero divisor; an infinite numerator or an
  overflow of the division gives an infinite quotient, on which \<open>int\<close> raises
  OverflowError.
\<close>

definition max_num_clients_this_gpu_binary64 :: "real \<Rightarrow> real \<Rightarrow> real \<Rightarrow> error + int" where
  "max_num_clients_this_gpu_binary64 total_mem_this_gpu max_all_proc_mem max_mem_used_this_gpu =
     (if max_mem_used_this_gpu = 0 then Inl ZeroDivisionError
      else (case binary64 (total_mem_this_gpu - max_all_proc_mem) of
              None \<Rightarrow> Inl OverflowError
            | Some difference \<Rightarrow>
           (case binary64 (difference + max_mem_used_this_gpu) of
              None \<Rightarrow> Inl OverflowError
            | Some numerator \<Rightarrow>
           (case binary64 (numerator / max_mem_used_this_gpu) of
              None \<Rightarrow> Inl OverflowError
            | Some ratio \<Rightarrow> Inr (py_int ratio)))))"

subsection \<open>Creating a model\<close>

text \<open>
  \<open>create_model\<close>: \<open>(self.resource_poly_degree + 1) * [0.0]\<close> is the empty list when the
  factor is not positive, and the assignment to \<open>coefficients[0]\<close> then raises IndexError.
\<close>

definition create_model :: "string \<Rightarrow> string \<Rightarrow> ResourceAwareFedAvg \<Rightarrow> error + ResourceAwareFedAvg" where
  "create_model node_id gpu_uuid s =
     (let coefficients = replicate (nat (resource_poly_degree s + 1)) (0::real)
      in if coefficients = [] then Inl IndexError
         else Inr (s\<lparr>resources_model :=
                       AList.update (node_id, gpu_uuid)
                         (Polynomial_new (coefficients[0 := 1]), 1) (resources_model s)\<rparr>))"

subsection \<open>The scheduler: \<open>associate_resources\<close>\<close>

definition py_nth :: "'a list \<Rightarrow> nat \<Rightarrow> error + 'a" where
  "py_nth xs i = (if i < length xs then Inr (xs ! i) else Inl IndexError)"

text \<open>
  The inner \<open>for client, num_steps in these_clients\<close> loop (lines 227 to 231): it writes
  the two resource claims into the client, records the client's configuration and
  appends to the output list.
\<close>

fun associate_batch ::
  "string \<Rightarrow> string \<Rightarrow> int \<Rightarrow> 'p FitIns \<Rightarrow> (ClientProxy \<times> int) list \<Rightarrow>
   (string \<times> (string \<times> string \<times> int)) list \<times> (ClientProxy \<times> 'p FitIns) list \<Rightarrow>
   (string \<times> (string \<times> string \<times> int)) list \<times> (ClientProxy \<times> 'p FitIns) list" where
  "associate_batch node_id gpu_uuid actual_num_clients ins [] (ccm, client_fit_list) =
     (ccm, client_fit_list)"
| "associate_batch node_id gpu_uuid actual_num_clients ins ((client, num_steps) # rest)
     (ccm, client_fit_list) =
     (let client' = client\<lparr>resources :=
            AList.update ''num_gpu'' (NumGpu (1 / real_of_int actual_num_clients))
              (AList.update ''scheduling_strategy'' (SchedulingStrategy node_id False)
                 (resources client))\<rparr>
      in associate_batch node_id gpu_uuid actual_num_clients ins rest
           (AList.update (cid client) (node_id, gpu_uuid, num_steps) ccm,
            client_fit_list @ [(client', ins)]))"

text \<open>
  One pass through the body of the \<open>while clients_with_weights\<close> loop (lines 197 to
  233). The result is the strategy, the expected training times, the output list and
  the remaining clients after the pass.
\<close>

definition associate_step ::
  "'p \<Rightarrow> (string \<times> Scalar) list \<Rightarrow> (string \<times> string) list \<Rightarrow>
   ResourceAwareFedAvg \<Rightarrow> real list \<Rightarrow> (ClientProxy \<times> 'p FitIns) list \<Rightarrow>
   (ClientProxy \<times> int) list \<Rightarrow>
   error + (ResourceAwareFedAvg \<times> real list \<times> (ClientProxy \<times> 'p FitIns) list \<times>
            (ClientProxy \<times> int) list)" where
  "associate_step params cfg node_gpu_mapping s expected_training_times client_fit_list
     clients_with_weights =
     (case py_min expected_training_times of Inl e \<Rightarrow> Inl e | Inr m \<Rightarrow>
     (case py_index expected_training_times m of Inl e \<Rightarrow> Inl e | Inr idx \<Rightarrow>
     (case py_nth node_gpu_mapping idx of Inl e \<Rightarrow> Inl e | Inr (node_id, gpu_uuid) \<Rightarrow>
     (case py_getitem (gpu_resources s) node_id of Inl e \<Rightarrow> Inl e | Inr gpus \<Rightarrow>
     (case py_getitem gpus gpu_uuid of Inl e \<Rightarrow> Inl e | Inr gpu \<Rightarrow>
     (case py_getitem (resources_model s) (node_id, gpu_uuid) of Inl e \<Rightarrow> Inl e
      | Inr (model_poly, max_num_clients) \<Rightarrow>
      (let this_config = AList.update ''gpu_id'' (SInt (gpu_id gpu)) cfg;
           actual_num_clients = min max_num_clients (int (length clients_with_weights));
           these_clients = py_take actual_num_clients clients_with_weights
       in (case these_clients of [] \<Rightarrow> Inl IndexError
           | (client0, num_steps0) # rest0 \<Rightarrow>
             (let multi_client_per_gpu_expected_time =
                    Polynomial_call model_poly (real_of_int num_steps0);
                  expected_training_times' = expected_training_times
                    [idx := expected_training_times ! idx + multi_client_per_gpu_expected_time];
                  (ccm', client_fit_list') =
                    associate_batch node_id gpu_uuid actual_num_clients
                      \<lparr>parameters = params, config = this_config\<rparr> these_clients
                      (client_configs_map s, client_fit_list)
              in Inr (s\<lparr>client_configs_map := ccm'\<rparr>, expected_training_times',
                      client_fit_list', py_drop actual_num_clients clients_with_weights))))))))))"

lemma py_drop_shorter:
  "py_take k xs \<noteq> [] \<Longrightarrow> length (py_drop k xs) < length xs"
  by (auto simp: py_take_def py_drop_def split: if_splits)

lemma associate_step_shorter:
  assumes "associate_step params cfg mapping s ett cfl cww = Inr (s', ett', cfl', cww')"
  shows "length cww' < length cww"
  using assms
  by (auto simp: associate_step_def Let_def
           split: sum.splits prod.splits list.splits intro!: py_drop_shorter)

function associate_loop ::
  "'p \<Rightarrow> (string \<times> Scalar) list \<Rightarrow> (string \<times> string) list \<Rightarrow>
   ResourceAwareFedAvg \<Rightarrow> real list \<Rightarrow> (ClientProxy \<times> 'p FitIns) list \<Rightarrow>
   (ClientProxy \<times> int) list \<Rightarrow>
   error + (ResourceAwareFedAvg \<times> real list \<times> (ClientProxy \<times> 'p FitIns) list \<times>
            (ClientProxy \<times> int) list)" where
  "associate_loop params cfg node_gpu_mapping s expected_training_times client_fit_list
     clients_with_weights =
     (if clients_with_weights = []
      then Inr (s, expected_training_times, client_fit_list, clients_with_weights)
      else (case associate_step params cfg node_gpu_mapping s expected_training_times
                   client_fit_list clients_with_weights of
              Inl e \<Rightarrow> Inl e
            | Inr (s', expected_training_times', client_fit_list', clients_with_weights') \<Rightarrow>
                associate_loop params cfg node_gpu_mapping s' expected_training_times'
                  client_fit_list' clients_with_weights'))"
  by pat_completeness auto
termination
  by (relation "measure (\<lambda>(params, cfg, mapping, s, ett, cfl, cww). length cww)")
     (auto dest: associate_step_shorter)

declare associate_loop.simps [simp del]

text \<open>
  \<open>associate_resources\<close>: the sort is Python's stable sort with \<open>reverse=True\<close>, which keeps
  the original order of equal weights; the value printed at the end,
  \<open>max(expected_training_times)\<close>, is returned next to the output list. The source sorts
  and deletes in the list object it is given, so the caller sees the effect: the last
  component of the result is that list as the call leaves it, which is what a later
  call on the same list object receives. Clients are values here; the clients that
  \<open>client_manager.sample\<close> returns are distinct objects.
\<close>

definition sort_reverse :: "(ClientProxy \<times> int) list \<Rightarrow> (ClientProxy \<times> int) list" where
  "sort_reverse clients_with_weights = sort_key (\<lambda>x. - snd x) clients_with_weights"

definition associate_resources ::
  "'p \<Rightarrow> (string \<times> Scalar) list \<Rightarrow> (ClientProxy \<times> int) list \<Rightarrow> ResourceAwareFedAvg \<Rightarrow>
   error + ((ClientProxy \<times> 'p FitIns) list \<times> real \<times> ResourceAwareFedAvg \<times>
            (ClientProxy \<times> int) list)" where
  "associate_resources params cfg clients_with_weights s =
     (let sorted_clients = sort_reverse clients_with_weights;
          expected_training_times = replicate (length (resources_model s)) (0::real);
          node_gpu_mapping = map fst (resources_model s)
      in (case associate_loop params cfg node_gpu_mapping s expected_training_times []
                 sorted_clients of
            Inl e \<Rightarrow> Inl e
          | Inr (s', expected_training_times', client_fit_list, clients_with_weights') \<Rightarrow>
              (case py_max expected_training_times' of
                 Inl e \<Rightarrow> Inl e
               | Inr makespan \<Rightarrow>
                   Inr (client_fit_list, makespan, s', clients_with_weights'))))"

subsection \<open>The calibration round of \<open>configure_fit\<close>\<close>

text \<open>
  The branch \<open>server_round == 2\<close> of \<open>configure_fit\<close> (lines 292 to 325). The clients
  returned by \<open>client_manager.sample\<close> are the argument \<open>clients\<close>; \<open>clients.pop()\<close>
  takes the last one and raises IndexError on an empty list.
\<close>

definition pop :: "'a list \<Rightarrow> error + ('a \<times> 'a list)" where
  "pop xs = (if xs = [] then Inl IndexError else Inr (last xs, butlast xs))"

fun warm_up_loop ::
  "'p \<Rightarrow> (string \<times> Scalar) list \<Rightarrow> string \<Rightarrow> string \<Rightarrow> int \<Rightarrow> int list \<Rightarrow>
   ClientProxy list \<times> (string \<times> (string \<times> string \<times> int)) list \<times>
     (ClientProxy \<times> 'p FitIns) list \<Rightarrow>
   error + (ClientProxy list \<times> (string \<times> (string \<times> string \<times> int)) list \<times>
            (ClientProxy \<times> 'p FitIns) list)" where
  "warm_up_loop params cfg node_id gpu_uuid gid [] st = Inr st"
| "warm_up_loop params cfg node_id gpu_uuid gid (num_local_steps # steps)
     (clients, ccm, client_fit_list) =
     (case pop clients of Inl e \<Rightarrow> Inl e
      | Inr (client, clients') \<Rightarrow>
        (let client' = client\<lparr>resources :=
               AList.update ''scheduling_strategy'' (SchedulingStrategy node_id False)
                 (resources client)\<rparr>;
             this_config =
               AList.update ''local_steps'' (SInt num_local_steps)
                 (AList.update ''gpu_id'' (SInt gid)
                    (AList.update ''epochs'' (SInt 1) cfg))
         in warm_up_loop params cfg node_id gpu_uuid gid steps
              (clients', AList.update (cid client) (node_id, gpu_uuid, num_local_steps) ccm,
               client_fit_list @ [(client', \<lparr>parameters = params, config = this_config\<rparr>)])))"

fun calibrate_loop ::
  "'p \<Rightarrow> (string \<times> Scalar) list \<Rightarrow> ResourceAwareFedAvg \<Rightarrow> (string \<times> string) list \<Rightarrow>
   ClientProxy list \<times> (string \<times> (string \<times> string \<times> int)) list \<times>
     (ClientProxy \<times> 'p FitIns) list \<Rightarrow>
   error + (ClientProxy list \<times> (string \<times> (string \<times> string \<times> int)) list \<times>
            (ClientProxy \<times> 'p FitIns) list)" where
  "calibrate_loop params cfg s [] st = Inr st"
| "calibrate_loop params cfg s ((node_id, gpu_uuid) # keys) st =
     (case py_getitem (gpu_resources s) node_id of Inl e \<Rightarrow> Inl e | Inr gpus \<Rightarrow>
     (case py_getitem gpus gpu_uuid of Inl e \<Rightarrow> Inl e | Inr gpu \<Rightarrow>
     (case warm_up_loop params cfg node_id gpu_uuid (gpu_id gpu) (warm_up_steps s) st of
        Inl e \<Rightarrow> Inl e
      | Inr st' \<Rightarrow> calibrate_loop params cfg s keys st')))"

definition configure_fit_2 ::
  "'p \<Rightarrow> (string \<times> Scalar) list \<Rightarrow> ClientProxy list \<Rightarrow> ResourceAwareFedAvg \<Rightarrow>
   error + ((ClientProxy \<times> 'p FitIns) list \<times> ResourceAwareFedAvg)" where
  "configure_fit_2 params cfg clients s =
     (case calibrate_loop params cfg s (map fst (resources_model s))
             (clients, client_configs_map s, []) of
        Inl e \<Rightarrow> Inl e
      | Inr (clients', ccm, client_fit_list) \<Rightarrow>
          Inr (client_fit_list, s\<lparr>client_configs_map := ccm\<rparr>))"

subsection \<open>Updating the models: \<open>aggregate_fit\<close>\<close>

text \<open>
  What a node's monitor returns from \<open>aggregate_statistics\<close>: the three dictionaries the
  strategy reads. The monitors alive in a round, with their statistics, are the argument
  \<open>monitors\<close> of \<open>aggregate_fit\<close>; \<open>results\<close> gives each returning client with the
  metrics of its result.
\<close>

record monitor_metrics =
  max_this_proc_mem_used_mb :: "(Scalar \<times> (string \<times> real) list) list"
  max_all_proc_mem_used_mb :: "(string \<times> real) list"
  training_times_ns :: "(Scalar \<times> real) list"

fun tasks_to_cid ::
  "(ClientProxy \<times> (string \<times> Scalar) list) list \<Rightarrow> (Scalar \<times> string) list \<Rightarrow>
   error + (Scalar \<times> string) list" where
  "tasks_to_cid [] m = Inr m"
| "tasks_to_cid ((client, metrics) # results) m =
     (case py_getitem metrics ''_flwr.monitoring.task_id'' of Inl e \<Rightarrow> Inl e
      | Inr this_task_id \<Rightarrow> tasks_to_cid results (AList.update this_task_id (cid client) m))"

text \<open>Round 1, lines 385 to 404: the loop over the GPUs of one task.\<close>

fun capacity_gpu_loop ::
  "string \<Rightarrow> (string \<times> real) list \<Rightarrow> (string \<times> real) list \<Rightarrow> ResourceAwareFedAvg \<Rightarrow>
   error + ResourceAwareFedAvg" where
  "capacity_gpu_loop node_id max_all [] s = Inr s"
| "capacity_gpu_loop node_id max_all ((gpu_uuid, max_mem_used_this_gpu) # rest) s =
     (case py_getitem (gpu_resources s) node_id of Inl e \<Rightarrow> Inl e | Inr gpus \<Rightarrow>
     (case py_getitem gpus gpu_uuid of Inl e \<Rightarrow> Inl e | Inr gpu \<Rightarrow>
     (case py_getitem max_all gpu_uuid of Inl e \<Rightarrow> Inl e | Inr max_all_proc_mem \<Rightarrow>
     (case max_num_clients_this_gpu (total_mem_mb gpu) max_all_proc_mem max_mem_used_this_gpu of
        Inl e \<Rightarrow> Inl e
      | Inr n \<Rightarrow>
     (case py_getitem (resources_model s) (node_id, gpu_uuid) of Inl e \<Rightarrow> Inl e
      | Inr (poly_model, t) \<Rightarrow>
          capacity_gpu_loop node_id max_all rest
            (s\<lparr>resources_model :=
                 AList.update (node_id, gpu_uuid) (poly_model, n) (resources_model s)\<rparr>))))))"

fun capacity_task_loop ::
  "string \<Rightarrow> (string \<times> real) list \<Rightarrow> (Scalar \<times> (string \<times> real) list) list \<Rightarrow>
   ResourceAwareFedAvg \<Rightarrow> error + ResourceAwareFedAvg" where
  "capacity_task_loop node_id max_all [] s = Inr s"
| "capacity_task_loop node_id max_all ((this_task, gpu_mem_dict) # rest) s =
     (case capacity_gpu_loop node_id max_all gpu_mem_dict s of Inl e \<Rightarrow> Inl e
      | Inr s' \<Rightarrow> capacity_task_loop node_id max_all rest s')"

fun capacity_actor_loop ::
  "(string \<times> monitor_metrics) list \<Rightarrow> ResourceAwareFedAvg \<Rightarrow> error + ResourceAwareFedAvg" where
  "capacity_actor_loop [] s = Inr s"
| "capacity_actor_loop ((node_id, this_monitor_metrics) # actors) s =
     (case capacity_task_loop node_id (max_all_proc_mem_used_mb this_monitor_metrics)
             (max_this_proc_mem_used_mb this_monitor_metrics) s of
        Inl e \<Rightarrow> Inl e
      | Inr s' \<Rightarrow> capacity_actor_loop actors s')"

text \<open>
  Round 2, lines 426 to 444. \<open>resource_model_x\<close> and \<open>resource_model_y\<close> are
  \<open>defaultdict(list)\<close>: a missing key reads as the empty list. \<open>Polynomial.fit\<close> is
  numpy's least-squares fit; it is the argument \<open>fit\<close>, which may fail.
\<close>

definition defaultdict_get :: "('k \<times> 'v list) list \<Rightarrow> 'k \<Rightarrow> 'v list" where
  "defaultdict_get d k = (case map_of d k of None \<Rightarrow> [] | Some v \<Rightarrow> v)"

definition defaultdict_append :: "'k \<Rightarrow> 'v \<Rightarrow> ('k \<times> 'v list) list \<Rightarrow> ('k \<times> 'v list) list" where
  "defaultdict_append k v d = AList.update k (defaultdict_get d k @ [v]) d"

fun samples_loop ::
  "(Scalar \<times> string) list \<Rightarrow> (string \<times> (string \<times> string \<times> int)) list \<Rightarrow>
   (Scalar \<times> real) list \<Rightarrow>
   ((string \<times> string) \<times> int list) list \<times> ((string \<times> string) \<times> real list) list \<Rightarrow>
   error + (((string \<times> string) \<times> int list) list \<times> ((string \<times> string) \<times> real list) list)" where
  "samples_loop task_to_cid ccm [] xy = Inr xy"
| "samples_loop task_to_cid ccm ((task_id, training_time_ns) # rest) (x, y) =
     (case py_getitem task_to_cid task_id of Inl e \<Rightarrow> Inl e | Inr c \<Rightarrow>
     (case py_getitem ccm c of Inl e \<Rightarrow> Inl e
      | Inr (node_id, gpu_uuid, num_steps) \<Rightarrow>
          samples_loop task_to_cid ccm rest
            (defaultdict_append (node_id, gpu_uuid) num_steps x,
             defaultdict_append (node_id, gpu_uuid) (training_time_ns / 1000000000) y)))"

fun fit_loop ::
  "(int list \<Rightarrow> real list \<Rightarrow> int \<Rightarrow> error + Polynomial) \<Rightarrow>
   ((string \<times> string) \<times> int list) list \<Rightarrow> ((string \<times> string) \<times> real list) list \<Rightarrow>
   ((string \<times> string) \<times> (Polynomial \<times> int)) list \<Rightarrow> ResourceAwareFedAvg \<Rightarrow>
   error + ResourceAwareFedAvg" where
  "fit_loop fit x y [] s = Inr s"
| "fit_loop fit x y ((k, (m, max_num_clients)) # items) s =
     (case fit (defaultdict_get x k) (defaultdict_get y k) (resource_poly_degree s) of
        Inl e \<Rightarrow> Inl e
      | Inr m' \<Rightarrow>
          fit_loop fit x y items
            (s\<lparr>resources_model := AList.update k (m', max_num_clients) (resources_model s)\<rparr>))"

fun fit_actor_loop ::
  "(int list \<Rightarrow> real list \<Rightarrow> int \<Rightarrow> error + Polynomial) \<Rightarrow> (Scalar \<times> string) list \<Rightarrow>
   (string \<times> monitor_metrics) list \<Rightarrow> ResourceAwareFedAvg \<Rightarrow> error + ResourceAwareFedAvg" where
  "fit_actor_loop fit task_to_cid [] s = Inr s"
| "fit_actor_loop fit task_to_cid ((node_id, this_monitor_metrics) # actors) s =
     (case samples_loop task_to_cid (client_configs_map s)
             (training_times_ns this_monitor_metrics) ([], []) of
        Inl e \<Rightarrow> Inl e
      | Inr (x, y) \<Rightarrow>
     (case fit_loop fit x y (resources_model s) s of Inl e \<Rightarrow> Inl e
      | Inr s' \<Rightarrow> fit_actor_loop fit task_to_cid actors s'))"

text \<open>
  \<open>aggregate_fit\<close>, up to the call of the parent class's aggregation, which does not
  touch the fields modelled here.
\<close>

definition aggregate_fit ::
  "(int list \<Rightarrow> real list \<Rightarrow> int \<Rightarrow> error + Polynomial) \<Rightarrow> int \<Rightarrow>
   (ClientProxy \<times> (string \<times> Scalar) list) list \<Rightarrow> (string \<times> monitor_metrics) list \<Rightarrow>
   ResourceAwareFedAvg \<Rightarrow> error + ResourceAwareFedAvg" where
  "aggregate_fit fit server_round results monitors s =
     (case tasks_to_cid results [] of Inl e \<Rightarrow> Inl e
      | Inr round_tasks_to_cid \<Rightarrow>
          if server_round = 1 then capacity_actor_loop monitors s
          else if server_round = 2 then
            (case tasks_to_cid results [] of Inl e \<Rightarrow> Inl e
             | Inr task_to_cid \<Rightarrow> fit_actor_loop fit task_to_cid monitors s)
          else Inr s)"

section \<open>The scheduler as the specification words it\<close>

text \<open>
  Section 4.4 of the specification, written down from its words and compared with
  \<open>associate_resources\<close> below. The model map is the ordered list of devices with their
  polynomial and capacity; the expected loads are listed in the same order.

  Step 3a: the device with the minimum expected load, the first one in the order of
  the devices on a tie.
\<close>

fun spec_min_device :: "real list \<Rightarrow> nat" where
  "spec_min_device [] = 0"
| "spec_min_device (x # xs) = (if list_all (\<lambda>y. x \<le> y) xs then 0 else Suc (spec_min_device xs))"


text \<open>
  Steps 3b to 3f and 4: the batch is up to \<open>cap\<close> units from the front of the remaining
  list; the model of the chosen device is evaluated once, at the largest weight in the
  batch; every unit of the batch is assigned to the device with
  share \<open>1 / len(batch)\<close>; the batch is removed. The result is the assignment, in the
  order in which it is made, with the final expected loads. An empty batch (a capacity
  below 1, which the specification excludes) ends the pass.
\<close>

function spec_assign_loop ::
  "((string \<times> string) \<times> (Polynomial \<times> int)) list \<Rightarrow> real list \<Rightarrow> (ClientProxy \<times> int) list \<Rightarrow>
   ((ClientProxy \<times> int) \<times> (string \<times> string) \<times> real) list \<times> real list" where
  "spec_assign_loop models expectedLoad units =
     (if units = [] then ([], expectedLoad)
      else
        (let d = spec_min_device expectedLoad;
             device = fst (models ! d);
             cap = snd (snd (models ! d));
             batch = take (nat cap) units
         in if batch = [] then ([], expectedLoad)
            else
              (let largestWeightInBatch = Max (set (map snd batch));
                   batchDuration =
                     Polynomial_call (fst (snd (models ! d))) (real_of_int largestWeightInBatch);
                   rest = spec_assign_loop models
                            (expectedLoad[d := expectedLoad ! d + batchDuration])
                            (drop (nat cap) units)
               in (map (\<lambda>u. (u, device, 1 / real (length batch))) batch @ fst rest,
                   snd rest))))"
  by pat_completeness auto
termination
  by (relation "measure (\<lambda>(models, loads, units). length units)") auto

declare spec_assign_loop.simps [simp del]


text \<open>
  How an entry of the assignment shows in the data of the source: the two resource claims
  written into the client and the GPU index in the configuration of the instruction
  (\<open>spec_dispatch\<close>), and the entry of \<open>client_configs_map\<close> (\<open>spec_record\<close>).
\<close>

definition gpu_lookup :: "ResourceAwareFedAvg \<Rightarrow> string \<Rightarrow> string \<Rightarrow> SimpleGPU option" where
  "gpu_lookup s node_id gpu_uuid =
     (case map_of (gpu_resources s) node_id of None \<Rightarrow> None
      | Some gpus \<Rightarrow> map_of gpus gpu_uuid)"

definition spec_dispatch ::
  "'p \<Rightarrow> (string \<times> Scalar) list \<Rightarrow> ResourceAwareFedAvg \<Rightarrow>
   (ClientProxy \<times> int) \<times> (string \<times> string) \<times> real \<Rightarrow> ClientProxy \<times> 'p FitIns" where
  "spec_dispatch params cfg s a =
     (case a of ((client, weight), (node_id, gpu_uuid), share) \<Rightarrow>
        (client\<lparr>resources :=
           AList.update ''num_gpu'' (NumGpu share)
             (AList.update ''scheduling_strategy'' (SchedulingStrategy node_id False)
                (resources client))\<rparr>,
         \<lparr>parameters = params,
          config = AList.update ''gpu_id''
            (SInt (case gpu_lookup s node_id gpu_uuid of None \<Rightarrow> 0 | Some gpu \<Rightarrow> gpu_id gpu))
            cfg\<rparr>))"

definition spec_record ::
  "(ClientProxy \<times> int) \<times> (string \<times> string) \<times> real \<Rightarrow>
   (string \<times> (string \<times> string \<times> int)) list \<Rightarrow> (string \<times> (string \<times> string \<times> int)) list" where
  "spec_record a ccm =
     (case a of ((client, weight), (node_id, gpu_uuid), share) \<Rightarrow>
        AList.update (cid client) (node_id, gpu_uuid, weight) ccm)"


text \<open>
  The calibration round (section 4.5): every device, in the order of the model map,
  receives one probe for each calibration size, in the order in which the sizes were
  drawn. A probe shows in the data of the source as the node the client is pinned to,
  the GPU index and the number of local steps in the configuration (\<open>probe_of\<close>).
\<close>

definition probe_of ::
  "ClientProxy \<times> 'p FitIns \<Rightarrow> resource option \<times> Scalar option \<times> Scalar option" where
  "probe_of e =
     (map_of (resources (fst e)) ''scheduling_strategy'',
      map_of (config (snd e)) ''gpu_id'',
      map_of (config (snd e)) ''local_steps'')"

definition spec_probes ::
  "ResourceAwareFedAvg \<Rightarrow> (resource option \<times> Scalar option \<times> Scalar option) list" where
  "spec_probes s =
     concat (map (\<lambda>k. map (\<lambda>size.
                 (Some (SchedulingStrategy (fst k) False),
                  Some (SInt (case gpu_lookup s (fst k) (snd k) of None \<Rightarrow> 0
                              | Some gpu \<Rightarrow> gpu_id gpu)),
                  Some (SInt size)))
               (warm_up_steps s))
          (map fst (resources_model s)))"

section \<open>Well-formed strategies\<close>

text \<open>
  \<open>devices_known\<close>: every key of the model map has its entry in \<open>gpu_resources\<close>, as
  \<open>request_available_resources\<close> leaves them. \<open>capacity_ok\<close>: every capacity is at least 1.
  The keys of a Python dictionary are distinct, which the theorems state as
  \<open>distinct (map fst (resources_model s))\<close>.
\<close>

definition capacity_ok :: "ResourceAwareFedAvg \<Rightarrow> bool" where
  "capacity_ok s = list_all (\<lambda>e. 1 \<le> snd (snd e)) (resources_model s)"

definition devices_known :: "ResourceAwareFedAvg \<Rightarrow> bool" where
  "devices_known s =
     list_all (\<lambda>k. gpu_lookup s (fst k) (snd k) \<noteq> None) (map fst (resources_model s))"

text \<open>
  \<open>telemetry_ok\<close>: every memory sample of round 1 has a positive peak for the task, and
  the peak of all processes on its GPU does not exceed the total memory of the GPU.
\<close>

definition telemetry_ok :: "ResourceAwareFedAvg \<Rightarrow> (string \<times> monitor_metrics) list \<Rightarrow> bool" where
  "telemetry_ok s monitors =
     list_all (\<lambda>a.
       list_all (\<lambda>t.
         list_all (\<lambda>g.
           0 < snd g \<and>
           (case gpu_lookup s (fst a) (fst g) of None \<Rightarrow> True
            | Some gpu \<Rightarrow>
               (case map_of (max_all_proc_mem_used_mb (snd a)) (fst g) of None \<Rightarrow> True
                | Some max_all \<Rightarrow> max_all \<le> total_mem_mb gpu)))
           (snd t))
         (max_this_proc_mem_used_mb (snd a)))
       monitors"

section \<open>Views of the model map\<close>

text \<open>
  The capacity and the polynomial of every device, in the order of the model map, and
  the frame condition of an update that writes nothing but the model map.
\<close>

definition capacities :: "ResourceAwareFedAvg \<Rightarrow> ((string \<times> string) \<times> int) list" where
  "capacities s = map (\<lambda>e. (fst e, snd (snd e))) (resources_model s)"

definition polynomials :: "ResourceAwareFedAvg \<Rightarrow> ((string \<times> string) \<times> Polynomial) list" where
  "polynomials s = map (\<lambda>e. (fst e, fst (snd e))) (resources_model s)"

definition only_models_changed :: "ResourceAwareFedAvg \<Rightarrow> ResourceAwareFedAvg \<Rightarrow> bool" where
  "only_models_changed s s' =
     (current_round s' = current_round s \<and> warm_up_steps s' = warm_up_steps s \<and>
      client_configs_map s' = client_configs_map s \<and>
      resource_poly_degree s' = resource_poly_degree s \<and>
      gpu_resources s' = gpu_resources s)"

section \<open>Units that differ in the claims of a pass\<close>

text \<open>
  The scheduler writes two resource claims into every client it places. Two units are
  the same up to these claims when they have the same weight and the same client
  identifier, and their resources agree once both claims are written again.
\<close>

definition same_unit :: "ClientProxy \<times> int \<Rightarrow> ClientProxy \<times> int \<Rightarrow> bool" where
  "same_unit u u' =
     (snd u' = snd u \<and> cid (fst u') = cid (fst u) \<and>
      (\<forall>v w. AList.update ''num_gpu'' v
               (AList.update ''scheduling_strategy'' w (resources (fst u'))) =
             AList.update ''num_gpu'' v
               (AList.update ''scheduling_strategy'' w (resources (fst u)))))"

section \<open>Example inputs\<close>

text \<open>
  Concrete strategies, clients and telemetry at which the theorems below are evaluated:
  one node with two GPUs, whose models are the ones \<open>create_model\<close> makes for degree 1
  (the constant polynomial 1), with capacities set by hand.
\<close>

definition new_client :: "string \<Rightarrow> ClientProxy" where
  "new_client name = \<lparr>cid = name, resources = []\<rparr>"

definition example_gpu :: "string \<Rightarrow> int \<Rightarrow> SimpleGPU" where
  "example_gpu u i = \<lparr>uuid = u, gpu_id = i, total_mem_mb = 1000\<rparr>"

definition example_strategy ::
  "((string \<times> string) \<times> (Polynomial \<times> int)) list \<Rightarrow> ResourceAwareFedAvg" where
  "example_strategy models =
     \<lparr>current_round = 0, warm_up_steps = [20, 10], client_configs_map = [],
      resource_poly_degree = 1,
      gpu_resources = [(''node1'', [(''GPU-a'', example_gpu ''GPU-a'' 0),
                                    (''GPU-b'', example_gpu ''GPU-b'' 1)])],
      resources_model = models\<rparr>"

definition ex_models :: "((string \<times> string) \<times> (Polynomial \<times> int)) list" where
  "ex_models = [((''node1'', ''GPU-a''), (Polynomial_new [1, 0], 2)),
                ((''node1'', ''GPU-b''), (Polynomial_new [1, 0], 1))]"

definition ex_units :: "(ClientProxy \<times> int) list" where
  "ex_units = [(new_client ''c10'', 10), (new_client ''c30'', 30), (new_client ''c20'', 20)]"

definition ex_output :: "(ClientProxy \<times> unit FitIns) list" where
  "ex_output =
     [(\<lparr>cid = ''c30'',
         resources = [(''scheduling_strategy'', SchedulingStrategy ''node1'' False),
                      (''num_gpu'', NumGpu (1 / 2))]\<rparr>,
       \<lparr>parameters = (), config = [(''gpu_id'', SInt 0)]\<rparr>),
      (\<lparr>cid = ''c20'',
         resources = [(''scheduling_strategy'', SchedulingStrategy ''node1'' False),
                      (''num_gpu'', NumGpu (1 / 2))]\<rparr>,
       \<lparr>parameters = (), config = [(''gpu_id'', SInt 0)]\<rparr>),
      (\<lparr>cid = ''c10'',
         resources = [(''scheduling_strategy'', SchedulingStrategy ''node1'' False),
                      (''num_gpu'', NumGpu 1)]\<rparr>,
       \<lparr>parameters = (), config = [(''gpu_id'', SInt 1)]\<rparr>)]"

definition ex_after :: ResourceAwareFedAvg where
  "ex_after =
     (example_strategy ex_models)\<lparr>client_configs_map :=
        [(''c30'', ''node1'', ''GPU-a'', 30), (''c20'', ''node1'', ''GPU-a'', 20),
         (''c10'', ''node1'', ''GPU-b'', 10)]\<rparr>"

definition one_device :: "((string \<times> string) \<times> (Polynomial \<times> int)) list" where
  "one_device = [((''node1'', ''GPU-a''), (Polynomial_new [1, 0], 2))]"

definition three_units :: "(ClientProxy \<times> int) list" where
  "three_units = [(new_client ''c30'', 30), (new_client ''c20'', 20), (new_client ''c10'', 10)]"

text \<open>
  Telemetry of round 1 for one task on the first GPU, and of round 2 for two probes of
  20 and 10 steps that took 2 and 1 seconds. \<open>two_point_fit\<close> is the instance of the
  argument \<open>fit\<close> used in the examples: the line through two samples, in the
  representation of \<open>Polynomial.fit\<close> (domain from the least to the greatest sample,
  window from \<open>-1\<close> to 1).
\<close>

definition two_point_fit :: "int list \<Rightarrow> real list \<Rightarrow> int \<Rightarrow> error + Polynomial" where
  "two_point_fit x y deg =
     (case (x, y) of
        ([x1, x2], [y1, y2]) \<Rightarrow>
          if deg = 1 \<and> x1 \<noteq> x2 then
            (let lo = (if x1 < x2 then y1 else y2); hi = (if x1 < x2 then y2 else y1)
             in Inr \<lparr>coef = [(lo + hi) / 2, (hi - lo) / 2],
                     pdomain = (real_of_int (min x1 x2), real_of_int (max x1 x2)),
                     pwindow = (-1, 1)\<rparr>)
          else Inl ValueError
      | _ \<Rightarrow> Inl ValueError)"

definition round1_metrics :: "real \<Rightarrow> real \<Rightarrow> monitor_metrics" where
  "round1_metrics peak_this_task peak_all =
     \<lparr>max_this_proc_mem_used_mb = [(SInt 1, [(''GPU-a'', peak_this_task)])],
      max_all_proc_mem_used_mb = [(''GPU-a'', peak_all)],
      training_times_ns = []\<rparr>"

definition round2_metrics :: monitor_metrics where
  "round2_metrics =
     \<lparr>max_this_proc_mem_used_mb = [], max_all_proc_mem_used_mb = [],
      training_times_ns = [(SInt 1, 2000000000), (SInt 2, 1000000000)]\<rparr>"

definition round2_results :: "(ClientProxy \<times> (string \<times> Scalar) list) list" where
  "round2_results =
     [(new_client ''c1'', [(''_flwr.monitoring.task_id'', SInt 1)]),
      (new_client ''c2'', [(''_flwr.monitoring.task_id'', SInt 2)])]"

definition calibrated_strategy :: ResourceAwareFedAvg where
  "calibrated_strategy =
     (example_strategy one_device)\<lparr>client_configs_map :=
        [(''c1'', (''node1'', ''GPU-a'', 20)), (''c2'', (''node1'', ''GPU-a'', 10))]\<rparr>"

definition four_clients :: "ClientProxy list" where
  "four_clients = [new_client ''c1'', new_client ''c2'', new_client ''c3'', new_client ''c4'']"

text \<open>
  The floats that Python reads from the literals \<open>11810.1\<close>, \<open>1142.7\<close> and \<open>231.9\<close>: a total
  memory, a peak of all processes and a peak of one task, in megabytes.
\<close>

definition example_total_mem :: real where
  "example_total_mem = 6492671137598669 / 2 ^ 39"

definition example_all_proc_mem :: real where
  "example_all_proc_mem = 5025647748238541 / 2 ^ 42"

definition example_task_mem :: real where
  "example_task_mem = 8159255887400141 / 2 ^ 45"

section \<open>Properties\<close>

subsection \<open>The capacity estimate in double precision\<close>

lemma exponent_up_spec:
  "x < 2 ^ 53 \<Longrightarrow> - 1074 \<le> e \<Longrightarrow>
   - 1074 \<le> exponent_up x e \<and> exponent_up x e \<le> e \<and>
   x * 2 powi (e - exponent_up x e) < 2 ^ 53 \<and>
   (exponent_up x e = - 1074 \<or> 2 ^ 52 \<le> x * 2 powi (e - exponent_up x e))"
proof (induction x e rule: exponent_up.induct)
  case (1 x e)
  show ?case
  proof (cases "x < 2 ^ 52 \<and> - 1074 < e")
    case True
    then have eq: "exponent_up x e = exponent_up (2 * x) (e - 1)"
      by (subst exponent_up.simps) simp
    from True have "2 * x < 2 ^ 53" "- 1074 \<le> e - 1" by simp_all
    from "1.IH" [OF True this] have ih: "- 1074 \<le> exponent_up (2 * x) (e - 1)"
      "exponent_up (2 * x) (e - 1) \<le> e - 1"
      "2 * x * 2 powi (e - 1 - exponent_up (2 * x) (e - 1)) < 2 ^ 53"
      "exponent_up (2 * x) (e - 1) = - 1074 \<or>
         2 ^ 52 \<le> 2 * x * 2 powi (e - 1 - exponent_up (2 * x) (e - 1))"
      by blast+
    have "(2::real) powi (e - exponent_up (2 * x) (e - 1)) =
          2 * 2 powi (e - 1 - exponent_up (2 * x) (e - 1))"
      using power_int_add [of "2::real" 1 "e - 1 - exponent_up (2 * x) (e - 1)"] by simp
    then have key: "x * 2 powi (e - exponent_up (2 * x) (e - 1)) =
          2 * x * 2 powi (e - 1 - exponent_up (2 * x) (e - 1))" by (simp only: ac_simps)
    show ?thesis unfolding eq key using ih by auto
  next
    case False
    then have eq: "exponent_up x e = e" by (subst exponent_up.simps) auto
    from False "1.prems" show ?thesis unfolding eq by auto
  qed
qed

lemma exponent_down_spec:
  "2 ^ 52 \<le> x \<Longrightarrow>
   e \<le> exponent_down x e \<and>
   2 ^ 52 \<le> x * 2 powi (e - exponent_down x e) \<and>
   x * 2 powi (e - exponent_down x e) < 2 ^ 53"
proof (induction x e rule: exponent_down.induct)
  case (1 x e)
  show ?case
  proof (cases "2 ^ 53 \<le> x")
    case True
    then have eq: "exponent_down x e = exponent_down (x / 2) (e + 1)"
      by (subst exponent_down.simps) simp
    from True have "2 ^ 52 \<le> x / 2" by simp
    from "1.IH" [OF True this] have ih: "e + 1 \<le> exponent_down (x / 2) (e + 1)"
      "2 ^ 52 \<le> x / 2 * 2 powi (e + 1 - exponent_down (x / 2) (e + 1))"
      "x / 2 * 2 powi (e + 1 - exponent_down (x / 2) (e + 1)) < 2 ^ 53"
      by blast+
    have "(2::real) powi (e + 1 - exponent_down (x / 2) (e + 1)) =
          2 * 2 powi (e - exponent_down (x / 2) (e + 1))"
      using power_int_add [of "2::real" 1 "e - exponent_down (x / 2) (e + 1)"]
      by (simp add: algebra_simps)
    then have key: "x / 2 * 2 powi (e + 1 - exponent_down (x / 2) (e + 1)) =
          x * 2 powi (e - exponent_down (x / 2) (e + 1))" by (simp only: ac_simps)
    show ?thesis unfolding eq key [symmetric] using ih by auto
  next
    case False
    then have eq: "exponent_down x e = e" by (subst exponent_down.simps) auto
    from False "1.prems" show ?thesis unfolding eq by simp
  qed
qed

lemma exponent_spec:
  "- 1074 \<le> exponent x \<and> x * 2 powi (- exponent x) < 2 ^ 53 \<and>
   (exponent x = - 1074 \<or> 2 ^ 52 \<le> x * 2 powi (- exponent x))"
proof (cases "2 ^ 53 \<le> x")
  case True
  then have "2 ^ 52 \<le> x" by simp
  from exponent_down_spec [OF this, of 0] True show ?thesis
    by (simp add: exponent_def)
next
  case False
  then have "x < 2 ^ 53" by simp
  from exponent_up_spec [OF this, of 0] False show ?thesis
    by (simp add: exponent_def)
qed

lemma round_half_even_of_int: "round_half_even (of_int n) = n"
  by (simp add: round_half_even_def)

lemma round_half_even_ge: "of_int K \<le> x \<Longrightarrow> K \<le> round_half_even x"
proof -
  assume "of_int K \<le> x"
  then have "K \<le> \<lfloor>x\<rfloor>" by (simp add: le_floor_iff)
  then show ?thesis by (simp add: round_half_even_def Let_def)
qed

lemma round_half_even_less: "x + 1 / 2 < of_int K \<Longrightarrow> round_half_even x < K"
proof -
  assume a: "x + 1 / 2 < of_int K"
  show ?thesis
  proof (cases "x - of_int \<lfloor>x\<rfloor> < 1 / 2")
    case True
    then have "round_half_even x = \<lfloor>x\<rfloor>" by (simp add: round_half_even_def Let_def)
    moreover from a have "x < of_int K" by simp
    then have "\<lfloor>x\<rfloor> < K" by (simp add: floor_less_iff)
    ultimately show ?thesis by simp
  next
    case False
    then have "of_int \<lfloor>x\<rfloor> + 1 \<le> x + 1 / 2" by simp
    with a have "of_int (\<lfloor>x\<rfloor> + 1) < (of_int K :: real)" by simp
    then have "\<lfloor>x\<rfloor> + 1 < K" by (simp only: of_int_less_iff)
    moreover have "round_half_even x \<le> \<lfloor>x\<rfloor> + 1" by (simp add: round_half_even_def Let_def)
    ultimately show ?thesis by simp
  qed
qed

lemma binary64_exact:
  assumes n: "\<bar>n\<bar> < 2 ^ 53" and k: "- 1074 \<le> k" "k \<le> 971"
  shows "binary64 (of_int n * 2 powi k) = Some (of_int n * 2 powi k)"
proof (cases "n = 0")
  case True
  then show ?thesis by (simp add: binary64_def)
next
  case False
  define x :: real where "x = of_int n * 2 powi k"
  define e where "e = exponent \<bar>x\<bar>"
  have pos: "(0::real) < 2 powi j" for j by (simp add: zero_less_power_int)
  have x0: "x \<noteq> 0" using False pos [of k] by (simp add: x_def)
  have ax: "\<bar>x\<bar> = of_int \<bar>n\<bar> * 2 powi k"
    using pos [of k] by (simp add: x_def abs_mult)
  from exponent_spec [of "\<bar>x\<bar>"] have e1: "- 1074 \<le> e"
    and e3: "e = - 1074 \<or> 2 ^ 52 \<le> \<bar>x\<bar> * 2 powi (- e)"
    unfolding e_def by blast+
  have sc: "\<bar>x\<bar> * 2 powi (- e) = of_int \<bar>n\<bar> * 2 powi (k - e)"
    unfolding ax using power_int_add [of "2::real" k "- e"] by simp
  have le: "e \<le> k"
  proof (rule ccontr)
    assume "\<not> e \<le> k"
    then have lt: "k - e \<le> - 1" by simp
    with k e3 have "2 ^ 52 \<le> \<bar>x\<bar> * 2 powi (- e)" by auto
    moreover have "(2::real) powi (k - e) \<le> 2 powi (- 1)"
      using lt by (intro power_int_increasing) simp_all
    then have "of_int \<bar>n\<bar> * (2::real) powi (k - e) \<le> of_int \<bar>n\<bar> * 2 powi (- 1)"
      by (intro mult_left_mono) simp_all
    moreover from n have "(of_int \<bar>n\<bar> :: real) < 2 ^ 53"
      by (metis of_int_less_numeral_power_cancel_iff)
    ultimately show False unfolding sc by simp
  qed
  then have "(2::real) powi (k - e) = 2 ^ nat (k - e)" by (simp add: power_int_def)
  then have m: "\<bar>x\<bar> / 2 powi e = of_int (\<bar>n\<bar> * 2 ^ nat (k - e))"
    using sc by (simp add: power_int_minus field_simps)
  have r: "sgn x * of_int (round_half_even (\<bar>x\<bar> / 2 powi e)) * 2 powi e = x"
  proof -
    have "of_int (round_half_even (\<bar>x\<bar> / 2 powi e)) = \<bar>x\<bar> / 2 powi e"
      unfolding m round_half_even_of_int ..
    then have "sgn x * of_int (round_half_even (\<bar>x\<bar> / 2 powi e)) * 2 powi e = sgn x * \<bar>x\<bar>"
      using pos [of e] by simp
    then show ?thesis by (simp add: sgn_mult_abs)
  qed
  have "(2::real) powi k \<le> 2 powi 971"
    using k by (intro power_int_increasing) simp_all
  then have "of_int \<bar>n\<bar> * (2::real) powi k \<le> of_int \<bar>n\<bar> * 2 powi 971"
    by (intro mult_left_mono) simp_all
  moreover from n have "(of_int \<bar>n\<bar> :: real) < 2 ^ 53"
    by (metis of_int_less_numeral_power_cancel_iff)
  then have "of_int \<bar>n\<bar> * (2::real) powi 971 < 2 ^ 53 * 2 powi 971"
    by (intro mult_strict_right_mono) simp_all
  ultimately have "\<bar>x\<bar> < 2 ^ 1024" unfolding ax by simp
  with x0 r show ?thesis
    unfolding x_def [symmetric] by (simp add: binary64_def Let_def e_def)
qed

lemma int_div_bounds:
  fixes N D :: int
  assumes "0 < D"
  shows "N div D * D \<le> N" and "N < (N div D + 1) * D"
proof -
  have a: "N = N div D * D + N mod D" by simp
  from assms have b: "0 \<le> N mod D" and c: "N mod D < D" by simp_all
  from a b show "N div D * D \<le> N" by linarith
  have "(N div D + 1) * D = N div D * D + D" by (simp add: algebra_simps)
  with a c show "N < (N div D + 1) * D" by linarith
qed

lemma binary64_quotient:
  assumes N: "0 \<le> N" "N < 2 ^ 53" and D: "0 < D" "D < 2 ^ 53"
  shows "\<exists>q. binary64 (of_int N / of_int D) = Some q \<and> 0 \<le> q \<and> \<lfloor>q\<rfloor> = N div D"
proof (cases "N = 0")
  case True
  then show ?thesis by (simp add: binary64_def)
next
  case False
  define x :: real where "x = of_int N / of_int D"
  define e where "e = exponent \<bar>x\<bar>"
  define s :: int where "s = 2 ^ nat (- e)"
  define k where "k = N div D"
  define m :: real where "m = \<bar>x\<bar> / 2 powi e"
  have pos: "(0::real) < 2 powi j" for j by (simp add: zero_less_power_int)
  from False N D have x0: "0 < x" by (simp add: x_def)
  then have ax: "\<bar>x\<bar> = x" by simp
  have rN: "(of_int N :: real) < 2 ^ 53" and rD: "(of_int D :: real) < 2 ^ 53"
    using N D by (metis of_int_less_numeral_power_cancel_iff)+
  have rD0: "(0::real) < of_int D" using D by simp
  have rN1: "(1::real) \<le> of_int N" using False N by simp
  have xN: "x \<le> of_int N"
  proof -
    have "(1::real) \<le> of_int D" using D by simp
    then have "of_int N / of_int D \<le> (of_int N :: real) / 1"
      using N by (intro divide_left_mono) simp_all
    then show ?thesis by (simp add: x_def)
  qed
  have xD: "1 / of_int D \<le> x"
    unfolding x_def using rN1 rD0 by (simp add: divide_right_mono)
  from exponent_spec [of "\<bar>x\<bar>"] have e1: "- 1074 \<le> e"
    and e2: "x * 2 powi (- e) < 2 ^ 53"
    and e3: "e = - 1074 \<or> 2 ^ 52 \<le> x * 2 powi (- e)"
    unfolding e_def ax by blast+
  have le: "e \<le> 0"
  proof (rule ccontr)
    assume "\<not> e \<le> 0"
    then have lt: "- e \<le> - 1" by simp
    with e3 have "2 ^ 52 \<le> x * 2 powi (- e)" by auto
    moreover have "(2::real) powi (- e) \<le> 2 powi (- 1)"
      using lt by (intro power_int_increasing) simp_all
    then have "x * (2::real) powi (- e) \<le> x * 2 powi (- 1)"
      using x0 by (intro mult_left_mono) simp_all
    ultimately show False using xN rN by simp
  qed
  then have ps: "(2::real) powi (- e) = of_int s" by (simp add: power_int_def s_def)
  have s1: "1 \<le> s" by (simp add: s_def)
  have "(2::real) powi e = inverse (2 powi (- e))" by (simp add: power_int_minus)
  then have pe: "(2::real) powi e = 1 / of_int s"
    unfolding ps by (simp add: inverse_eq_divide)
  have mx: "m = x * of_int s" by (simp add: m_def ax pe)
  have normal: "2 ^ 52 \<le> m"
  proof (cases "e = - 1074")
    case True
    then have "s = 2 ^ 1074" by (simp add: s_def)
    then have "m = x * 2 ^ 1074" by (simp add: mx)
    moreover have "1 / 2 ^ 53 \<le> 1 / (of_int D :: real)"
      using rD rD0 by (intro divide_left_mono) simp_all
    with xD have "1 / 2 ^ 53 \<le> x" by simp
    then have "1 / 2 ^ 53 * 2 ^ 1074 \<le> x * 2 ^ 1074" by (intro mult_right_mono) simp_all
    ultimately show ?thesis by simp
  next
    case False
    with e3 show ?thesis by (simp add: mx ps)
  qed
  have mlt: "m < 2 ^ 53" using e2 by (simp add: mx ps)
  have mN: "m * of_int D = of_int (N * s)"
    using rD0 by (simp add: mx x_def)
  have Ds: "D < 2 * s"
  proof -
    have "2 ^ 52 * of_int D \<le> m * of_int D"
      using normal rD0 by (intro mult_right_mono) simp_all
    also have "\<dots> = of_int N * of_int s" by (simp add: mN)
    also have "\<dots> < 2 ^ 53 * of_int s"
      using rN s1 by (intro mult_strict_right_mono) simp_all
    finally have "(of_int D :: real) < 2 * of_int s" by simp
    then have "(of_int D :: real) < of_int (2 * s)" by simp
    then show ?thesis by (simp only: of_int_less_iff)
  qed
  have kD: "k * D \<le> N" and kD1: "N < (k + 1) * D"
    unfolding k_def using D(1) by (rule int_div_bounds)+
  have lo: "of_int (k * s) \<le> m"
  proof -
    from kD s1 have "k * D * s \<le> N * s" by (intro mult_right_mono) simp_all
    then have "(of_int (k * D * s) :: real) \<le> of_int (N * s)" by (simp only: of_int_le_iff)
    then have "of_int (k * s) * of_int D \<le> m * of_int D"
      unfolding mN by (simp add: ac_simps)
    then show ?thesis using rD0 by (simp only: mult_le_cancel_right_pos)
  qed
  have hi: "m + 1 / 2 < of_int ((k + 1) * s)"
  proof -
    from kD1 have "N + 1 \<le> (k + 1) * D" by simp
    with s1 have "(N + 1) * s \<le> (k + 1) * D * s" by (intro mult_right_mono) simp_all
    then have "N * s + s \<le> (k + 1) * s * D" by (simp add: algebra_simps)
    then have "(of_int (N * s + s) :: real) \<le> of_int ((k + 1) * s * D)"
      by (simp only: of_int_le_iff)
    then have "m * of_int D + of_int s \<le> of_int ((k + 1) * s) * of_int D"
      unfolding mN by simp
    moreover from Ds have "(of_int D :: real) < of_int (2 * s)" by (simp only: of_int_less_iff)
    then have "(1 / 2) * of_int D < (of_int s :: real)" by simp
    ultimately have "(m + 1 / 2) * of_int D < of_int ((k + 1) * s) * of_int D"
      by (simp add: algebra_simps)
    then show ?thesis using rD0 by (simp only: mult_less_cancel_right_pos)
  qed
  define R where "R = round_half_even m"
  from lo have Rlo: "k * s \<le> R" unfolding R_def by (rule round_half_even_ge)
  from hi have Rhi: "R < (k + 1) * s" unfolding R_def by (rule round_half_even_less)
  define r :: real where "r = of_int R / of_int s"
  have rs: "(0::real) < of_int s" using s1 by simp
  have k0: "0 \<le> k" using N D by (simp add: k_def pos_imp_zdiv_nonneg_iff)
  have rlo: "of_int k \<le> r"
  proof -
    from Rlo have "(of_int (k * s) :: real) \<le> of_int R" by (simp only: of_int_le_iff)
    then show ?thesis using rs by (simp add: r_def pos_le_divide_eq)
  qed
  have rhi: "r < of_int k + 1"
  proof -
    from Rhi have "(of_int R :: real) < of_int ((k + 1) * s)" by (simp only: of_int_less_iff)
    then show ?thesis using rs by (simp add: r_def pos_divide_less_eq)
  qed
  have fl: "\<lfloor>r\<rfloor> = k" using rlo rhi by (simp add: floor_unique)
  have r0: "0 \<le> r" using rlo k0 by simp
  have "0 < N" using False N by simp
  then have "k \<le> N" unfolding k_def by (rule int_div_le_self)
  then have "(of_int k :: real) < 2 ^ 53" using rN by (simp add: order.strict_trans1)
  with rhi have "r < 2 ^ 53 + 1" by simp
  then have big: "\<bar>r\<bar> < 2 ^ 1024" using r0 by simp
  have "round_half_even (\<bar>x\<bar> / 2 powi e) = R" by (simp only: R_def m_def)
  then have "sgn x * of_int (round_half_even (\<bar>x\<bar> / 2 powi e)) * 2 powi e =
      sgn x * of_int R * (1 / of_int s)" by (simp only: pe)
  also have "\<dots> = r" using x0 by (simp add: r_def)
  finally have "sgn x * of_int (round_half_even (\<bar>x\<bar> / 2 powi e)) * 2 powi e = r" .
  moreover have "exponent x = e" by (simp add: e_def ax)
  ultimately have "binary64 x = Some r"
    using big x0 by (simp add: binary64_def Let_def)
  with r0 fl show ?thesis unfolding x_def k_def by blast
qed

lemma exponent_unique:
  assumes e: "- 1074 \<le> e" "x * 2 powi (- e) < 2 ^ 53"
             "e = - 1074 \<or> 2 ^ 52 \<le> x * 2 powi (- e)"
    and x: "0 \<le> x"
  shows "exponent x = e"
proof -
  define e' where "e' = exponent x"
  from exponent_spec [of x] have e': "- 1074 \<le> e'" "x * 2 powi (- e') < 2 ^ 53"
    "e' = - 1074 \<or> 2 ^ 52 \<le> x * 2 powi (- e')"
    unfolding e'_def by blast+
  have step: False
    if a: "- 1074 \<le> a" "x * 2 powi (- a) < 2 ^ 53"
      and b: "b = - 1074 \<or> 2 ^ 52 \<le> x * 2 powi (- b)" and ab: "a < b" for a b
  proof -
    from a(1) ab b have n: "2 ^ 52 \<le> x * 2 powi (- b)" by auto
    have split: "(2::real) powi (- a) = 2 powi (- b) * 2 powi (b - a)"
      using power_int_add [of "2::real" "- b" "b - a"] by simp
    have "(2::real) powi 1 \<le> 2 powi (b - a)"
      using ab by (intro power_int_increasing) simp_all
    then have two: "(2::real) \<le> 2 powi (b - a)" by simp
    have "0 \<le> x * 2 powi (- b)" using x by (simp add: zero_le_power_int)
    with two have "x * 2 powi (- b) * 2 \<le> x * 2 powi (- b) * 2 powi (b - a)"
      by (rule mult_left_mono)
    also have "\<dots> = x * 2 powi (- a)" by (simp only: split mult.assoc)
    finally show False using n a(2) by simp
  qed
  have "\<not> e' < e" using step [of e' e] e' e by blast
  moreover have "\<not> e < e'" using step [of e e'] e' e by blast
  ultimately show ?thesis unfolding e'_def by simp
qed

lemma binary64_normal:
  assumes "0 < x" "- 1074 \<le> e" "x * 2 powi (- e) < 2 ^ 53" "2 ^ 52 \<le> x * 2 powi (- e)"
    and "round_half_even (x / 2 powi e) = m" "of_int m * 2 powi e = r" "r < 2 ^ 1024"
  shows "binary64 x = Some r"
proof -
  from assms have "exponent x = e" by (intro exponent_unique) simp_all
  moreover have "0 \<le> m"
    using assms by (metis round_half_even_ge of_int_0 divide_nonneg_pos less_imp_le
        zero_less_power_int zero_less_numeral)
  then have "0 \<le> r" using assms by (auto simp: zero_le_power_int)
  ultimately show ?thesis using assms by (simp add: binary64_def Let_def)
qed

text \<open>
  C3, as amended. Let the three memory figures be whole multiples of one power of two
  \<open>2^k\<close> with \<open>-1074 \<le> k \<le> 971\<close> (whole megabytes for \<open>k = 0\<close>, byte counts divided by
  \<open>2^20\<close> for \<open>k = -20\<close>), the total and the peak of all processes not negative, the peak
  of the task positive, the peak of all processes at most the total plus the peak of
  the task, and the total plus the peak of the task below \<open>2^53\<close> of these units. Then the
  estimate that lines 391 to 398 compute in double precision is
  \<open>floor((totalMemory - peakAllOther + peakThisTask) / peakThisTask)\<close>, and it is the
  estimate in exact arithmetic. The figures 1000, 400 and 200 give 4.
\<close>

theorem capacity_estimate_floor:
  assumes unit: "- 1074 \<le> k" "k \<le> 971"
    and total: "total_memory = of_int T * 2 powi k" "0 \<le> T"
    and other: "peak_all_other = of_int A * 2 powi k" "0 \<le> A" "A \<le> T + P"
    and task: "peak_this_task = of_int P * 2 powi k" "0 < P"
    and bound: "T + P < 2 ^ 53"
  shows "max_num_clients_this_gpu_binary64 total_memory peak_all_other peak_this_task =
           Inr \<lfloor>(total_memory - peak_all_other + peak_this_task) / peak_this_task\<rfloor> \<and>
         max_num_clients_this_gpu_binary64 total_memory peak_all_other peak_this_task =
           max_num_clients_this_gpu total_memory peak_all_other peak_this_task"
proof -
  have pos: "(0::real) < 2 powi k" by (simp add: zero_less_power_int)
  have p0: "peak_this_task \<noteq> 0" using task pos by simp
  have "total_memory - peak_all_other = of_int (T - A) * 2 powi k"
    by (simp add: total other algebra_simps)
  moreover have "\<bar>T - A\<bar> < 2 ^ 53" using total other task bound by simp
  ultimately have d: "binary64 (total_memory - peak_all_other) =
      Some (total_memory - peak_all_other)"
    using unit by (simp only: binary64_exact)
  have "total_memory - peak_all_other + peak_this_task = of_int (T - A + P) * 2 powi k"
    by (simp add: total other task algebra_simps)
  moreover have "\<bar>T - A + P\<bar> < 2 ^ 53" using total other task bound by simp
  ultimately have n: "binary64 (total_memory - peak_all_other + peak_this_task) =
      Some (total_memory - peak_all_other + peak_this_task)"
    using unit by (simp only: binary64_exact)
  define Q :: real where "Q = of_int (T - A + P) / of_int P"
  have q: "(total_memory - peak_all_other + peak_this_task) / peak_this_task = Q"
    unfolding Q_def using pos
    by (simp add: total other task algebra_simps add_divide_distrib diff_divide_distrib)
  have "0 \<le> T - A + P" "T - A + P < 2 ^ 53" "0 < P" "P < 2 ^ 53"
    using total other task bound by simp_all
  from binary64_quotient [OF this] obtain r where
    r: "binary64 Q = Some r" "0 \<le> r" "\<lfloor>r\<rfloor> = (T - A + P) div P"
    unfolding Q_def by blast
  have fl: "\<lfloor>Q\<rfloor> = (T - A + P) div P"
    unfolding Q_def by (rule floor_divide_of_int_eq)
  have "0 \<le> Q" unfolding Q_def using other task by simp
  then have exact: "max_num_clients_this_gpu total_memory peak_all_other peak_this_task =
      Inr ((T - A + P) div P)"
    using p0 by (simp add: max_num_clients_this_gpu_def py_int_def q fl)
  have "max_num_clients_this_gpu_binary64 total_memory peak_all_other peak_this_task =
      Inr ((T - A + P) div P)"
    using p0 r by (simp add: max_num_clients_this_gpu_binary64_def d n q py_int_def)
  with exact show ?thesis by (simp add: q fl)
qed

theorem capacity_estimate_floor_witness:
  "(1000::real) = of_int 1000 * 2 powi 0 \<and> (400::real) = of_int 400 * 2 powi 0 \<and>
   (200::real) = of_int 200 * 2 powi 0 \<and> (400::int) \<le> 1000 + 200 \<and>
   (1000::int) + 200 < 2 ^ 53 \<and>
   max_num_clients_this_gpu_binary64 1000 400 200 = Inr 4 \<and>
   max_num_clients_this_gpu 1000 400 200 = Inr 4 \<and>
   (16160 + 1 / 2 :: real) = of_int 64642 * 2 powi (- 2) \<and>
   (1234 + 3 / 4 :: real) = of_int 4939 * 2 powi (- 2) \<and>
   (789 :: real) = of_int 3156 * 2 powi (- 2) \<and> (4939::int) \<le> 64642 + 3156 \<and>
   (64642::int) + 3156 < 2 ^ 53 \<and>
   max_num_clients_this_gpu_binary64 (16160 + 1 / 2) (1234 + 3 / 4) 789 = Inr 19"
proof -
  have h1: "(1000::real) = of_int 1000 * 2 powi 0" "(400::real) = of_int 400 * 2 powi 0"
    "(200::real) = of_int 200 * 2 powi 0" "(400::int) \<le> 1000 + 200"
    "(1000::int) + 200 < 2 ^ 53"
    by simp_all
  have h2: "(16160 + 1 / 2 :: real) = of_int 64642 * 2 powi (- 2)"
    "(1234 + 3 / 4 :: real) = of_int 4939 * 2 powi (- 2)"
    "(789 :: real) = of_int 3156 * 2 powi (- 2)" "(4939::int) \<le> 64642 + 3156"
    "(64642::int) + 3156 < 2 ^ 53"
    by (simp_all add: power_int_minus)
  have first: "max_num_clients_this_gpu_binary64 1000 400 200 =
          Inr \<lfloor>(1000 - 400 + 200) / (200::real)\<rfloor> \<and>
        max_num_clients_this_gpu_binary64 1000 400 200 =
          max_num_clients_this_gpu 1000 400 200"
    using h1 by (intro capacity_estimate_floor [of 0 1000 1000 400 400 200 200]) simp_all
  from first [THEN conjunct1]
  have a: "max_num_clients_this_gpu_binary64 1000 400 200 = Inr 4" by simp
  from a have a': "max_num_clients_this_gpu 1000 400 200 = Inr 4"
    unfolding first [THEN conjunct2] .
  have "max_num_clients_this_gpu_binary64 (16160 + 1 / 2) (1234 + 3 / 4) 789 =
          Inr \<lfloor>(16160 + 1 / 2 - (1234 + 3 / 4) + 789) / (789::real)\<rfloor> \<and>
        max_num_clients_this_gpu_binary64 (16160 + 1 / 2) (1234 + 3 / 4) 789 =
          max_num_clients_this_gpu (16160 + 1 / 2) (1234 + 3 / 4) 789"
    by (rule capacity_estimate_floor [of "- 2" "16160 + 1 / 2" 64642 "1234 + 3 / 4" 4939 3156 789,
          OF _ _ h2(1) _ h2(2) _ h2(4) h2(3) _ h2(5)]) simp_all
  then have b: "max_num_clients_this_gpu_binary64 (16160 + 1 / 2) (1234 + 3 / 4) 789 = Inr 19"
    by simp
  from h1 h2 a a' b show ?thesis by blast
qed

text \<open>
  The claim C3 as stated, for every device with positive memory figures, fails: for a
  total memory of 11810.1, a peak of 1142.7 for all processes and a peak of 231.9 for
  the task, as floats, the floor of the exact quotient is 47, and the three rounded
  operations of the source give a quotient just below 47, so the stored estimate is 46.
\<close>

theorem capacity_estimate_rounding_counterexample:
  "binary64 (118101 / 10) = Some example_total_mem \<and>
   binary64 (11427 / 10) = Some example_all_proc_mem \<and>
   binary64 (2319 / 10) = Some example_task_mem \<and>
   0 < example_task_mem \<and> 0 < example_all_proc_mem \<and>
   example_all_proc_mem \<le> example_total_mem \<and>
   max_num_clients_this_gpu_binary64 example_total_mem example_all_proc_mem example_task_mem =
     Inr 46 \<and>
   \<lfloor>(example_total_mem - example_all_proc_mem + example_task_mem) / example_task_mem\<rfloor> = 47"
proof -
  have t: "binary64 (118101 / 10) = Some example_total_mem"
    unfolding example_total_mem_def
    by (rule binary64_normal [where e = "- 39" and m = 6492671137598669])
       (simp_all add: round_half_even_def)
  have a: "binary64 (11427 / 10) = Some example_all_proc_mem"
    unfolding example_all_proc_mem_def
    by (rule binary64_normal [where e = "- 42" and m = 5025647748238541])
       (simp_all add: round_half_even_def)
  have p: "binary64 (2319 / 10) = Some example_task_mem"
    unfolding example_task_mem_def
    by (rule binary64_normal [where e = "- 45" and m = 8159255887400141])
       (simp_all add: round_half_even_def)
  have d: "binary64 (example_total_mem - example_all_proc_mem) =
      Some (5864465169068851 / 2 ^ 39)"
    unfolding example_total_mem_def example_all_proc_mem_def
    by (rule binary64_normal [where e = "- 39" and m = 5864465169068851])
       (simp_all add: round_half_even_def)
  have n: "binary64 (5864465169068851 / 2 ^ 39 + example_task_mem) =
      Some (5991953542309478 / 2 ^ 39)"
    unfolding example_task_mem_def
    by (rule binary64_normal [where e = "- 39" and m = 5991953542309478])
       (simp_all add: round_half_even_def)
  have q: "binary64 (5991953542309478 / 2 ^ 39 / example_task_mem) =
      Some (6614661952700415 / 2 ^ 47)"
    unfolding example_task_mem_def
    by (rule binary64_normal [where e = "- 47" and m = 6614661952700415])
       (simp_all add: round_half_even_def)
  have p0: "example_task_mem \<noteq> 0" by (simp add: example_task_mem_def)
  have i: "py_int (6614661952700415 / 2 ^ 47) = 46" by (simp add: py_int_def)
  have est: "max_num_clients_this_gpu_binary64 example_total_mem example_all_proc_mem
      example_task_mem = Inr 46"
    unfolding max_num_clients_this_gpu_binary64_def
    by (simp only: p0 d n q i if_False option.case)
  have ord: "0 < example_task_mem \<and> 0 < example_all_proc_mem \<and>
      example_all_proc_mem \<le> example_total_mem"
    by (simp add: example_task_mem_def example_all_proc_mem_def example_total_mem_def)
  have fl: "\<lfloor>(example_total_mem - example_all_proc_mem + example_task_mem) /
      example_task_mem\<rfloor> = 47"
    by (simp add: example_task_mem_def example_all_proc_mem_def example_total_mem_def)
  from t a p ord est fl show ?thesis by simp
qed

subsection \<open>What the rounding leaves in place\<close>

text \<open>
  The invariant of the capacity and the fatal sample below are stated for the estimate
  in exact arithmetic. They rest on two facts that hold for the rounded operations as
  well: rounding never passes a float, so for a positive peak of the task and a peak of
  all processes within the total memory the rounded estimate is at least 1, unless an
  operation overflows; and a zero divisor raises ZeroDivisionError.
\<close>

lemma binary64_nonneg:
  assumes "0 \<le> x" "binary64 x = Some r"
  shows "0 \<le> r"
proof (cases "x = 0")
  case True
  with assms show ?thesis by (simp add: binary64_def)
next
  case False
  with assms have x: "0 < x" by simp
  then have "0 \<le> x / 2 powi exponent x" by (simp add: zero_le_power_int)
  then have "0 \<le> round_half_even (x / 2 powi exponent x)"
    using round_half_even_ge [of 0 "x / 2 powi exponent x"] by simp
  then have "0 \<le> of_int (round_half_even (x / 2 powi exponent x)) * (2::real) powi exponent x"
    by (simp add: zero_le_power_int)
  with assms x show ?thesis by (simp add: binary64_def Let_def split: if_splits)
qed

lemma binary64_above_float:
  assumes y: "binary64 y = Some y" "0 < y" and x: "y \<le> x" "binary64 x = Some r"
  shows "y \<le> r"
proof -
  define ex where "ex = exponent x"
  define ey where "ey = exponent y"
  have pos: "(0::real) < 2 powi j" for j by (simp add: zero_less_power_int)
  from y x have x0: "0 < x" by simp
  from exponent_spec [of x] have ex: "- 1074 \<le> ex" "x * 2 powi (- ex) < 2 ^ 53"
    "ex = - 1074 \<or> 2 ^ 52 \<le> x * 2 powi (- ex)"
    unfolding ex_def by blast+
  from exponent_spec [of y] have ey: "- 1074 \<le> ey" "y * 2 powi (- ey) < 2 ^ 53"
    "ey = - 1074 \<or> 2 ^ 52 \<le> y * 2 powi (- ey)"
    unfolding ey_def by blast+
  have div: "z / 2 powi j = z * 2 powi (- j)" for z :: real and j
    by (simp add: power_int_minus field_simps)
  from x x0 have r: "r = of_int (round_half_even (x * 2 powi (- ex))) * 2 powi ex"
    by (simp add: binary64_def Let_def ex_def div split: if_splits)
  from y have yy: "y = of_int (round_half_even (y * 2 powi (- ey))) * 2 powi ey"
    by (simp add: binary64_def Let_def ey_def div split: if_splits)
  define M where "M = round_half_even (y * 2 powi (- ey))"
  have yM: "y = of_int M * 2 powi ey" using yy by (simp add: M_def)
  have inv: "(2::real) powi j * 2 powi (- j) = 1" for j
    using power_int_add [of "2::real" j "- j"] by simp
  show ?thesis
  proof (cases "ey < ex")
    case True
    with ey ex have n: "2 ^ 52 \<le> x * 2 powi (- ex)" by auto
    then have "2 ^ 52 \<le> round_half_even (x * 2 powi (- ex))"
      using round_half_even_ge [of "2 ^ 52" "x * 2 powi (- ex)"] by simp
    then have "(2 ^ 52 :: real) \<le> of_int (round_half_even (x * 2 powi (- ex)))"
      by (metis of_int_le_iff of_int_numeral of_int_power)
    then have "2 ^ 52 * 2 powi ex \<le> r"
      unfolding r using pos [of ex] by (intro mult_right_mono) simp_all
    moreover have "y < 2 ^ 53 * 2 powi ey"
    proof -
      from ey(2) have "y * 2 powi (- ey) * 2 powi ey < 2 ^ 53 * 2 powi ey"
        using pos [of ey] by (intro mult_strict_right_mono) simp_all
      moreover have "y * 2 powi (- ey) * 2 powi ey = y"
        using inv [of ey] by (simp add: mult.assoc mult.commute)
      ultimately show ?thesis by simp
    qed
    moreover have "(2::real) ^ 53 * 2 powi ey \<le> 2 ^ 52 * 2 powi ex"
    proof -
      from True have "ey + 1 \<le> ex" by simp
      then have "(2::real) powi (ey + 1) \<le> 2 powi ex"
        by (intro power_int_increasing) simp_all
      moreover have "(2::real) powi (ey + 1) = 2 * 2 powi ey"
        using power_int_add [of "2::real" 1 ey] by (simp add: add.commute)
      ultimately have "2 * (2::real) powi ey \<le> 2 powi ex" by simp
      then have "2 ^ 52 * (2 * (2::real) powi ey) \<le> 2 ^ 52 * 2 powi ex"
        by (intro mult_left_mono) simp_all
      then show ?thesis by simp
    qed
    ultimately show ?thesis by simp
  next
    case False
    have "ey \<le> ex"
    proof (rule ccontr)
      assume "\<not> ey \<le> ex"
      then have lt: "ex < ey" by simp
      with ex ey have n: "2 ^ 52 \<le> y * 2 powi (- ey)" by auto
      have "2 ^ 52 * 2 powi ey \<le> y * 2 powi (- ey) * 2 powi ey"
        using n pos [of ey] by (intro mult_right_mono) simp_all
      moreover have "y * 2 powi (- ey) * 2 powi ey = y"
        using inv [of ey] by (simp add: mult.assoc mult.commute)
      ultimately have a: "2 ^ 52 * 2 powi ey \<le> x" using x by simp
      from ex(2) have "x * 2 powi (- ex) * 2 powi ex < 2 ^ 53 * 2 powi ex"
        using pos [of ex] by (intro mult_strict_right_mono) simp_all
      moreover have "x * 2 powi (- ex) * 2 powi ex = x"
        using inv [of ex] by (simp add: mult.assoc mult.commute)
      ultimately have b: "x < 2 ^ 53 * 2 powi ex" by simp
      from lt have "ex + 1 \<le> ey" by simp
      then have "(2::real) powi (ex + 1) \<le> 2 powi ey"
        by (intro power_int_increasing) simp_all
      moreover have "(2::real) powi (ex + 1) = 2 * 2 powi ex"
        using power_int_add [of "2::real" 1 ex] by (simp add: add.commute)
      ultimately have "2 * (2::real) powi ex \<le> 2 powi ey" by simp
      then have "2 ^ 52 * (2 * (2::real) powi ex) \<le> 2 ^ 52 * 2 powi ey"
        by (intro mult_left_mono) simp_all
      with a b show False by simp
    qed
    with False have same: "ey = ex" by simp
    have "y * 2 powi (- ex) = of_int M"
      unfolding yM same using inv [of ex] by (simp add: mult.assoc)
    moreover from x have "y * 2 powi (- ex) \<le> x * 2 powi (- ex)"
      using pos [of "- ex"] by (intro mult_right_mono) simp_all
    ultimately have "M \<le> round_half_even (x * 2 powi (- ex))"
      by (intro round_half_even_ge) simp
    then have "(of_int M :: real) \<le> of_int (round_half_even (x * 2 powi (- ex)))"
      by (simp only: of_int_le_iff)
    then have "of_int M * 2 powi ex \<le> r"
      unfolding r using pos [of ex] by (intro mult_right_mono) simp_all
    then show ?thesis unfolding yM same .
  qed
qed

lemma capacity_estimate_rounded_zero:
  "max_num_clients_this_gpu_binary64 t a 0 = Inl ZeroDivisionError"
  by (simp add: max_num_clients_this_gpu_binary64_def)

lemma capacity_estimate_rounded_bound:
  assumes p: "binary64 p = Some p" "0 < p" and a: "a \<le> t"
  shows "max_num_clients_this_gpu_binary64 t a p = Inl OverflowError \<or>
         (\<exists>n. 1 \<le> n \<and> max_num_clients_this_gpu_binary64 t a p = Inr n)"
proof (cases "binary64 (t - a)")
  case None
  with p show ?thesis by (simp add: max_num_clients_this_gpu_binary64_def)
next
  case (Some d)
  from a have "0 \<le> t - a" by simp
  from binary64_nonneg [OF this Some] have d: "0 \<le> d" .
  show ?thesis
  proof (cases "binary64 (d + p)")
    case None
    with p Some show ?thesis by (simp add: max_num_clients_this_gpu_binary64_def)
  next
    case n: (Some n)
    from d have "p \<le> d + p" by simp
    from binary64_above_float [OF p this n] have pn: "p \<le> n" .
    show ?thesis
    proof (cases "binary64 (n / p)")
      case None
      with p Some n show ?thesis by (simp add: max_num_clients_this_gpu_binary64_def)
    next
      case q: (Some q)
      have one: "binary64 1 = Some 1"
        using binary64_exact [of 1 0] by simp
      from pn p have "1 \<le> n / p" by simp
      from binary64_above_float [OF one _ this q] have "1 \<le> q" by simp
      then have "1 \<le> py_int q" by (simp add: py_int_def le_floor_iff)
      with p Some n q show ?thesis by (simp add: max_num_clients_this_gpu_binary64_def)
    qed
  qed
qed

subsection \<open>The constructor and the polynomial degree\<close>

lemma length_warm_up_pool: "length warm_up_pool = 6"
  by (simp add: warm_up_pool_def)

text \<open>
  C10. The constructor returns a strategy only for a polynomial degree of at most 5, and
  fails (numpy's ValueError for a sample larger than the population) for every degree
  from 6 on, whatever the random generator draws; this includes the degrees up to the
  declared constant \<open>MAX_POLY_DEG = 15\<close>.
\<close>

theorem init_poly_degree_bound:
  "(\<forall>s. init poly_degree perm = Inr s \<longrightarrow> poly_degree \<le> 5) \<and>
   (6 \<le> poly_degree \<longrightarrow> init poly_degree perm = Inl ValueError) \<and>
   init MAX_POLY_DEG perm = Inl ValueError"
  by (auto simp: init_def choice_def length_warm_up_pool MAX_POLY_DEG_def
           split: sum.splits if_splits)

theorem init_poly_degree_bound_witness:
  "init 5 [3, 1, 0, 5, 4, 2] =
     Inr \<lparr>current_round = 0, warm_up_steps = [20, 10, 5, 30, 25, 15],
          client_configs_map = [], resource_poly_degree = 5, gpu_resources = [],
          resources_model = []\<rparr> \<and>
   (5::int) \<le> 5 \<and> (6::int) \<le> 6 \<and> init 6 [3, 1, 0, 5, 4, 2] = Inl ValueError"
proof -
  have a: "init 5 [3, 1, 0, 5, 4, 2] =
     Inr \<lparr>current_round = 0, warm_up_steps = [20, 10, 5, 30, 25, 15],
          client_configs_map = [], resource_poly_degree = 5, gpu_resources = [],
          resources_model = []\<rparr>"
    by (simp add: init_def choice_def warm_up_pool_def)
  from init_poly_degree_bound [of 5 "[3, 1, 0, 5, 4, 2]"] a have b: "(5::int) \<le> 5"
    by blast
  from init_poly_degree_bound [of 6 "[3, 1, 0, 5, 4, 2]"]
  have c: "init 6 [3, 1, 0, 5, 4, 2] = Inl ValueError"
    by simp
  from a b c show ?thesis by simp
qed

subsection \<open>The scheduler refines the specification's algorithm\<close>

lemma py_index_least:
  "v \<in> set xs \<Longrightarrow> \<forall>y\<in>set xs. v \<le> y \<Longrightarrow> py_index xs v = Inr (spec_min_device xs)"
proof (induction xs)
  case Nil
  then show ?case by simp
next
  case (Cons x xs)
  show ?case
  proof (cases "x = v")
    case True
    with Cons.prems show ?thesis by (simp add: list_all_iff)
  next
    case False
    with Cons.prems have "v \<in> set xs" "v < x" by auto
    then have "\<not> list_all (\<lambda>y. x \<le> y) xs" by (force simp: list_all_iff not_le)
    with Cons False \<open>v \<in> set xs\<close> show ?thesis by simp
  qed
qed

lemma fold_min_Min: "fold min xs (x::real) = Min (set (x # xs))"
  by (rule Min.set_eq_fold [symmetric])

lemma py_min_index:
  assumes "xs \<noteq> []"
  shows "\<exists>m. py_min xs = Inr m \<and> py_index xs m = Inr (spec_min_device xs)"
proof -
  from assms obtain x ys where xs: "xs = x # ys" by (cases xs) auto
  let ?m = "Min (set xs)"
  have "?m \<in> set xs" using assms by (intro Min_in) auto
  moreover have "\<forall>y\<in>set xs. ?m \<le> y" by auto
  ultimately have "py_index xs ?m = Inr (spec_min_device xs)" by (rule py_index_least)
  moreover have "py_min xs = Inr ?m" unfolding xs by (simp only: py_min.simps fold_min_Min)
  ultimately show ?thesis by blast
qed

lemma spec_min_device_less: "xs \<noteq> [] \<Longrightarrow> spec_min_device xs < length xs"
  by (induction xs) (fastforce simp: list_all_iff)+

lemma associate_batch_eq:
  "associate_batch node_id gpu_uuid k ins batch (ccm, cfl) =
     (fold (\<lambda>u. AList.update (cid (fst u)) (node_id, gpu_uuid, snd u)) batch ccm,
      cfl @ map (\<lambda>u. ((fst u)\<lparr>resources :=
            AList.update ''num_gpu'' (NumGpu (1 / real_of_int k))
              (AList.update ''scheduling_strategy'' (SchedulingStrategy node_id False)
                 (resources (fst u)))\<rparr>, ins)) batch)"
  by (induction batch arbitrary: ccm cfl) auto

lemma py_getitem_nth:
  "distinct (map fst d) \<Longrightarrow> i < length d \<Longrightarrow> py_getitem d (fst (d ! i)) = Inr (snd (d ! i))"
proof -
  assume d: "distinct (map fst d)" and i: "i < length d"
  from i have "(fst (d ! i), snd (d ! i)) \<in> set d" by simp
  with d have "map_of d (fst (d ! i)) = Some (snd (d ! i))" by simp
  then show ?thesis by (simp add: py_getitem_def)
qed

lemma largest_first:
  assumes "sorted_wrt (\<lambda>a b. snd b \<le> snd a) xs" and "take n xs \<noteq> []"
  shows "Max (set (map snd (take n xs))) = snd (hd (take n xs))"
proof -
  from assms(2) obtain x ys where t: "take n xs = x # ys" by (cases "take n xs") auto
  from assms(1) have "sorted_wrt (\<lambda>a b. snd b \<le> snd a) (take n xs)"
    by (rule sorted_wrt_take)
  with t have le: "\<forall>y\<in>set ys. snd y \<le> snd x" by simp
  have "Max (set (map snd (x # ys))) = snd x"
    by (rule Max_eqI) (use le in auto)
  with t show ?thesis by simp
qed

lemma associate_step_spec:
  assumes ne: "cww \<noteq> []"
    and sorted: "sorted_wrt (\<lambda>a b. snd b \<le> snd a) cww"
    and len: "length ett = length (resources_model s)"
    and models: "resources_model s \<noteq> []"
    and dist: "distinct (map fst (resources_model s))"
    and cap: "capacity_ok s"
    and known: "devices_known s"
  shows "associate_step params cfg (map fst (resources_model s)) s ett cfl cww =
     (let d = spec_min_device ett;
          device = fst (resources_model s ! d);
          cap = snd (snd (resources_model s ! d));
          batch = take (nat cap) cww;
          dur = Polynomial_call (fst (snd (resources_model s ! d)))
                  (real_of_int (Max (set (map snd batch))));
          asg = map (\<lambda>u. (u, device, 1 / real (length batch))) batch
      in Inr (s\<lparr>client_configs_map := fold spec_record asg (client_configs_map s)\<rparr>,
              ett[d := ett ! d + dur],
              cfl @ map (spec_dispatch params cfg s) asg,
              drop (nat cap) cww))"
proof -
  let ?d = "spec_min_device ett"
  let ?e = "resources_model s ! ?d"
  obtain node_id gpu_uuid poly c where e: "?e = ((node_id, gpu_uuid), (poly, c))"
    by (metis surj_pair)
  from models len have ett_ne: "ett \<noteq> []" by auto
  then obtain m where m: "py_min ett = Inr m" "py_index ett m = Inr ?d"
    using py_min_index by blast
  from ett_ne len have d: "?d < length (resources_model s)"
    using spec_min_device_less [of ett] by simp
  then have in_set: "?e \<in> set (resources_model s)" by simp
  have nth: "py_nth (map fst (resources_model s)) ?d = Inr (node_id, gpu_uuid)"
    using d e by (simp add: py_nth_def)
  from known in_set e obtain gpu where gpu: "gpu_lookup s node_id gpu_uuid = Some gpu"
    by (force simp: devices_known_def list_all_iff)
  then obtain gpus where gpus: "py_getitem (gpu_resources s) node_id = Inr gpus"
    "py_getitem gpus gpu_uuid = Inr gpu"
    by (auto simp: gpu_lookup_def py_getitem_def split: option.splits)
  have model: "py_getitem (resources_model s) (node_id, gpu_uuid) = Inr (poly, c)"
    using py_getitem_nth [OF dist d] e by simp
  from cap in_set e have c1: "1 \<le> c" by (force simp: capacity_ok_def list_all_iff)
  let ?k = "min c (int (length cww))"
  from c1 ne have k1: "1 \<le> ?k" by (cases cww) auto
  have take_eq: "py_take ?k cww = take (nat c) cww"
    using k1 by (simp add: py_take_def min_def)
  have drop_eq: "py_drop ?k cww = drop (nat c) cww"
    using k1 by (simp add: py_drop_def min_def)
  from c1 ne obtain c0 w0 rest where batch: "take (nat c) cww = (c0, w0) # rest"
    by (cases cww; cases "nat c") auto
  have "?k = int (min (nat c) (length cww))"
    using c1 by (auto simp: min_def)
  then have share: "real_of_int ?k = real (length (take (nat c) cww))"
    by simp
  have rec_eq: "fold spec_record (map (\<lambda>u. (u, (node_id, gpu_uuid), sh)) batch) ccm =
      fold (\<lambda>u. AList.update (cid (fst u)) (node_id, gpu_uuid, snd u)) batch ccm"
    for batch :: "(ClientProxy \<times> int) list" and ccm sh
    by (induction batch arbitrary: ccm) (auto simp: spec_record_def split: prod.splits)
  have disp_eq: "map (spec_dispatch params cfg s) (map (\<lambda>u. (u, (node_id, gpu_uuid), sh)) batch) =
      map (\<lambda>u. ((fst u)\<lparr>resources :=
            AList.update ''num_gpu'' (NumGpu sh)
              (AList.update ''scheduling_strategy'' (SchedulingStrategy node_id False)
                 (resources (fst u)))\<rparr>,
            \<lparr>parameters = params, config = AList.update ''gpu_id'' (SInt (gpu_id gpu)) cfg\<rparr>)) batch"
    for batch :: "(ClientProxy \<times> int) list" and sh
    by (auto simp: spec_dispatch_def gpu split: prod.splits)
  have step: "associate_step params cfg (map fst (resources_model s)) s ett cfl cww =
      Inr (s\<lparr>client_configs_map :=
               fold (\<lambda>u. AList.update (cid (fst u)) (node_id, gpu_uuid, snd u))
                 (take (nat c) cww) (client_configs_map s)\<rparr>,
           ett[?d := ett ! ?d + Polynomial_call poly (real_of_int (snd (hd (take (nat c) cww))))],
           cfl @ map (\<lambda>u. ((fst u)\<lparr>resources :=
              AList.update ''num_gpu'' (NumGpu (1 / real_of_int ?k))
                (AList.update ''scheduling_strategy'' (SchedulingStrategy node_id False)
                   (resources (fst u)))\<rparr>,
              \<lparr>parameters = params,
               config = AList.update ''gpu_id'' (SInt (gpu_id gpu)) cfg\<rparr>)) (take (nat c) cww),
           drop (nat c) cww)"
    using m nth gpus model batch
    by (simp add: associate_step_def Let_def take_eq drop_eq associate_batch_eq
             del: associate_batch.simps)
  from batch have largest:
    "Max (set (map snd (take (nat c) cww))) = snd (hd (take (nat c) cww))"
    by (intro largest_first [OF sorted]) simp
  show ?thesis
    unfolding step Let_def e
    by (simp only: fst_conv snd_conv rec_eq disp_eq share largest)
qed

lemma frame_ccm [simp]:
  "capacity_ok (s\<lparr>client_configs_map := x\<rparr>) = capacity_ok s"
  "devices_known (s\<lparr>client_configs_map := x\<rparr>) = devices_known s"
  "spec_dispatch params cfg (s\<lparr>client_configs_map := x\<rparr>) = spec_dispatch params cfg s"
  by (auto simp: capacity_ok_def devices_known_def spec_dispatch_def gpu_lookup_def fun_eq_iff)

lemma associate_loop_spec:
  assumes "models = resources_model s"
    and "length ett = length models"
    and "models \<noteq> []"
    and "distinct (map fst models)"
    and "capacity_ok s"
    and "devices_known s"
    and "sorted_wrt (\<lambda>a b. snd b \<le> snd a) cww"
  shows "associate_loop params cfg (map fst models) s ett cfl cww =
     Inr (s\<lparr>client_configs_map :=
              fold spec_record (fst (spec_assign_loop models ett cww)) (client_configs_map s)\<rparr>,
          snd (spec_assign_loop models ett cww),
          cfl @ map (spec_dispatch params cfg s) (fst (spec_assign_loop models ett cww)),
          [])"
  using assms
proof (induction models ett cww arbitrary: s cfl rule: spec_assign_loop.induct)
  case (1 models ett cww)
  show ?case
  proof (cases "cww = []")
    case True
    then show ?thesis
      by (simp add: associate_loop.simps spec_assign_loop.simps)
  next
    case False
    let ?d = "spec_min_device ett"
    let ?cap = "snd (snd (models ! ?d))"
    let ?batch = "take (nat ?cap) cww"
    let ?dur = "Polynomial_call (fst (snd (models ! ?d)))
                  (real_of_int (Max (set (map snd ?batch))))"
    let ?asg = "map (\<lambda>u. (u, fst (models ! ?d), 1 / real (length ?batch))) ?batch"
    let ?s' = "s\<lparr>client_configs_map := fold spec_record ?asg (client_configs_map s)\<rparr>"
    from "1.prems" have "ett \<noteq> []" by auto
    with "1.prems" have d: "?d < length models"
      using spec_min_device_less [of ett] by simp
    with "1.prems" have "1 \<le> ?cap"
      by (auto simp: capacity_ok_def list_all_length)
    with False have batch_ne: "?batch \<noteq> []" by (cases cww; cases "nat ?cap") auto
    have step: "associate_step params cfg (map fst models) s ett cfl cww =
        Inr (?s', ett[?d := ett ! ?d + ?dur], cfl @ map (spec_dispatch params cfg s) ?asg,
             drop (nat ?cap) cww)"
      using associate_step_spec [OF False, of ett s params cfg cfl] "1.prems"
      by (simp add: Let_def)
    have IH: "associate_loop params cfg (map fst models) ?s' (ett[?d := ett ! ?d + ?dur])
                (cfl @ map (spec_dispatch params cfg s) ?asg) (drop (nat ?cap) cww) =
        Inr (?s'\<lparr>client_configs_map :=
               fold spec_record
                 (fst (spec_assign_loop models (ett[?d := ett ! ?d + ?dur]) (drop (nat ?cap) cww)))
                 (client_configs_map ?s')\<rparr>,
             snd (spec_assign_loop models (ett[?d := ett ! ?d + ?dur]) (drop (nat ?cap) cww)),
             (cfl @ map (spec_dispatch params cfg s) ?asg) @
               map (spec_dispatch params cfg ?s')
                 (fst (spec_assign_loop models (ett[?d := ett ! ?d + ?dur]) (drop (nat ?cap) cww))),
             [])"
      using "1.prems"
      by (intro "1.IH" [OF False refl refl refl refl batch_ne refl refl])
         (simp_all add: sorted_wrt_drop)
    have spec: "spec_assign_loop models ett cww =
        (?asg @ fst (spec_assign_loop models (ett[?d := ett ! ?d + ?dur]) (drop (nat ?cap) cww)),
         snd (spec_assign_loop models (ett[?d := ett ! ?d + ?dur]) (drop (nat ?cap) cww)))"
      using False batch_ne
      by (subst spec_assign_loop.simps) (simp add: Let_def)
    have "associate_loop params cfg (map fst models) s ett cfl cww =
        associate_loop params cfg (map fst models) ?s' (ett[?d := ett ! ?d + ?dur])
          (cfl @ map (spec_dispatch params cfg s) ?asg) (drop (nat ?cap) cww)"
      by (subst associate_loop.simps) (simp only: False step if_False sum.case prod.case)
    also note IH
    finally show ?thesis
      by (simp add: spec)
  qed
qed

lemma length_spec_assign_loop:
  "length (snd (spec_assign_loop models ett cww)) = length ett"
proof (induction models ett cww rule: spec_assign_loop.induct)
  case (1 models ett cww)
  show ?case
    by (subst spec_assign_loop.simps) (simp add: Let_def "1.IH")
qed

lemma py_max_Max:
  assumes "xs \<noteq> []" shows "py_max xs = Inr (Max (set xs))"
proof (cases xs)
  case Nil
  with assms show ?thesis by simp
next
  case (Cons x ys)
  have "fold max ys x = Max (set (x # ys))" by (rule Max.set_eq_fold [symmetric])
  with Cons show ?thesis by (simp only: py_max.simps)
qed

lemma sort_reverse_sorted: "sorted_wrt (\<lambda>a b. snd b \<le> snd a) (sort_reverse units)"
proof -
  have "sorted (map (\<lambda>x. - snd x) (sort_reverse units))"
    unfolding sort_reverse_def by (rule sorted_sort_key)
  then show ?thesis by (simp add: sorted_map)
qed

lemma sort_reverse_stable:
  "filter (\<lambda>u. snd u = w) (sort_reverse units) = filter (\<lambda>u. snd u = w) units"
  using sort_key_stable [of "\<lambda>x. - snd x" "- w" units]
  by (simp add: sort_reverse_def)

text \<open>
  C1. For every list of work units and every non-empty model map whose capacities are
  all at least 1 (with distinct keys, each known to the device inventory),
  \<open>associate_resources\<close> sorts the units by weight descending, units of equal weight
  keeping their original order, and then returns what the specification's greedy loop
  computes on the sorted list from zero loads: repeatedly the first device of minimum
  expected load takes a batch of up to its capacity of the largest remaining units, its
  load grows by the prediction at the largest weight of the batch, every unit of the
  batch is assigned to the device with share \<open>1 / len(batch)\<close>, and the batch is removed,
  until no unit remains. The printed value is the maximum of the final loads.
\<close>

theorem associate_resources_greedy:
  assumes "resources_model s \<noteq> []"
    and "distinct (map fst (resources_model s))"
    and "capacity_ok s"
    and "devices_known s"
  shows "sorted_wrt (\<lambda>a b. snd b \<le> snd a) (sort_reverse units) \<and>
     (\<forall>w. filter (\<lambda>u. snd u = w) (sort_reverse units) = filter (\<lambda>u. snd u = w) units) \<and>
     associate_resources params cfg units s =
       (let r = spec_assign_loop (resources_model s)
                  (replicate (length (resources_model s)) 0) (sort_reverse units)
        in Inr (map (spec_dispatch params cfg s) (fst r), Max (set (snd r)),
                s\<lparr>client_configs_map := fold spec_record (fst r) (client_configs_map s)\<rparr>,
                []))"
proof -
  let ?r = "spec_assign_loop (resources_model s)
              (replicate (length (resources_model s)) 0) (sort_reverse units)"
  have loop: "associate_loop params cfg (map fst (resources_model s)) s
       (replicate (length (resources_model s)) 0) [] (sort_reverse units) =
     Inr (s\<lparr>client_configs_map := fold spec_record (fst ?r) (client_configs_map s)\<rparr>,
          snd ?r, [] @ map (spec_dispatch params cfg s) (fst ?r), [])"
    using assms by (intro associate_loop_spec) (simp_all add: sort_reverse_sorted)
  from assms(1) have "snd ?r \<noteq> []"
    using length_spec_assign_loop [of "resources_model s"
        "replicate (length (resources_model s)) 0" "sort_reverse units"]
    by auto
  then have "py_max (snd ?r) = Inr (Max (set (snd ?r)))" by (rule py_max_Max)
  with loop have "associate_resources params cfg units s =
      Inr (map (spec_dispatch params cfg s) (fst ?r), Max (set (snd ?r)),
           s\<lparr>client_configs_map := fold spec_record (fst ?r) (client_configs_map s)\<rparr>,
           [])"
    by (simp add: associate_resources_def Let_def)
  then show ?thesis
    by (simp add: Let_def sort_reverse_sorted sort_reverse_stable)
qed

theorem associate_resources_greedy_witness:
  "resources_model (example_strategy ex_models) \<noteq> [] \<and>
   distinct (map fst (resources_model (example_strategy ex_models))) \<and>
   capacity_ok (example_strategy ex_models) \<and>
   devices_known (example_strategy ex_models) \<and>
   sort_reverse ex_units =
     [(new_client ''c30'', 30), (new_client ''c20'', 20), (new_client ''c10'', 10)] \<and>
   associate_resources () [] ex_units (example_strategy ex_models) =
     Inr ([(\<lparr>cid = ''c30'',
              resources = [(''scheduling_strategy'', SchedulingStrategy ''node1'' False),
                           (''num_gpu'', NumGpu (1 / 2))]\<rparr>,
            \<lparr>parameters = (), config = [(''gpu_id'', SInt 0)]\<rparr>),
           (\<lparr>cid = ''c20'',
              resources = [(''scheduling_strategy'', SchedulingStrategy ''node1'' False),
                           (''num_gpu'', NumGpu (1 / 2))]\<rparr>,
            \<lparr>parameters = (), config = [(''gpu_id'', SInt 0)]\<rparr>),
           (\<lparr>cid = ''c10'',
              resources = [(''scheduling_strategy'', SchedulingStrategy ''node1'' False),
                           (''num_gpu'', NumGpu 1)]\<rparr>,
            \<lparr>parameters = (), config = [(''gpu_id'', SInt 1)]\<rparr>)],
          1,
          (example_strategy ex_models)\<lparr>client_configs_map :=
            [(''c30'', ''node1'', ''GPU-a'', 30), (''c20'', ''node1'', ''GPU-a'', 20),
             (''c10'', ''node1'', ''GPU-b'', 10)]\<rparr>,
          [])"
proof -
  let ?s = "example_strategy ex_models"
  have h1: "resources_model ?s \<noteq> []" by code_simp
  have h2: "distinct (map fst (resources_model ?s))" by code_simp
  have h3: "capacity_ok ?s" by code_simp
  have h4: "devices_known ?s" by code_simp
  have sorted: "sort_reverse ex_units =
     [(new_client ''c30'', 30), (new_client ''c20'', 20), (new_client ''c10'', 10)]"
    by code_simp
  have spec: "spec_assign_loop (resources_model ?s) (replicate (length (resources_model ?s)) 0)
       (sort_reverse ex_units) =
     ([((new_client ''c30'', 30), (''node1'', ''GPU-a''), 1 / 2),
       ((new_client ''c20'', 20), (''node1'', ''GPU-a''), 1 / 2),
       ((new_client ''c10'', 10), (''node1'', ''GPU-b''), 1)], [1, 1])"
    by code_simp
  from associate_resources_greedy [OF h1 h2 h3 h4, of ex_units "()" "[]"]
  have "associate_resources () [] ex_units ?s =
     (let r = spec_assign_loop (resources_model ?s) (replicate (length (resources_model ?s)) 0)
                (sort_reverse ex_units)
      in Inr (map (spec_dispatch () [] ?s) (fst r), Max (set (snd r)),
              ?s\<lparr>client_configs_map := fold spec_record (fst r) (client_configs_map ?s)\<rparr>,
              []))"
    by blast
  then have "associate_resources () [] ex_units ?s =
     Inr (map (spec_dispatch () [] ?s)
            [((new_client ''c30'', 30), (''node1'', ''GPU-a''), 1 / 2),
             ((new_client ''c20'', 20), (''node1'', ''GPU-a''), 1 / 2),
             ((new_client ''c10'', 10), (''node1'', ''GPU-b''), 1)],
          1,
          ?s\<lparr>client_configs_map := fold spec_record
            [((new_client ''c30'', 30), (''node1'', ''GPU-a''), 1 / 2),
             ((new_client ''c20'', 20), (''node1'', ''GPU-a''), 1 / 2),
             ((new_client ''c10'', 10), (''node1'', ''GPU-b''), 1)] (client_configs_map ?s)\<rparr>,
          [])"
    by (simp add: spec)
  then have "associate_resources () [] ex_units ?s =
     Inr ([(\<lparr>cid = ''c30'',
              resources = [(''scheduling_strategy'', SchedulingStrategy ''node1'' False),
                           (''num_gpu'', NumGpu (1 / 2))]\<rparr>,
            \<lparr>parameters = (), config = [(''gpu_id'', SInt 0)]\<rparr>),
           (\<lparr>cid = ''c20'',
              resources = [(''scheduling_strategy'', SchedulingStrategy ''node1'' False),
                           (''num_gpu'', NumGpu (1 / 2))]\<rparr>,
            \<lparr>parameters = (), config = [(''gpu_id'', SInt 0)]\<rparr>),
           (\<lparr>cid = ''c10'',
              resources = [(''scheduling_strategy'', SchedulingStrategy ''node1'' False),
                           (''num_gpu'', NumGpu 1)]\<rparr>,
            \<lparr>parameters = (), config = [(''gpu_id'', SInt 1)]\<rparr>)],
          1,
          ?s\<lparr>client_configs_map :=
            [(''c30'', ''node1'', ''GPU-a'', 30), (''c20'', ''node1'', ''GPU-a'', 20),
             (''c10'', ''node1'', ''GPU-b'', 10)]\<rparr>,
          [])"
    by (simp add: spec_dispatch_def spec_record_def gpu_lookup_def example_strategy_def
          example_gpu_def new_client_def)
  with h1 h2 h3 h4 sorted show ?thesis by blast
qed

lemma max_replicate_zero: "0 < n \<Longrightarrow> py_max (replicate n 0) = Inr 0"
proof -
  assume "0 < n"
  then have "replicate n (0::real) \<noteq> []" by simp
  then have "py_max (replicate n 0) = Inr (Max (set (replicate n (0::real))))" by (rule py_max_Max)
  with \<open>0 < n\<close> show ?thesis by simp
qed

text \<open>
  C6, as amended. With no units and a non-empty model map, \<open>associate_resources\<close> returns
  the empty list, prints the makespan 0 and leaves the strategy as it is. With units and
  an empty model map it fails, and in one way only: with Python's ValueError, which
  \<open>min\<close> raises on the empty list of expected training times. The source has no error of
  its own for an empty device set: the same ValueError, raised by \<open>max\<close>, ends the call
  when the unit list and the model map are both empty.
\<close>

theorem associate_resources_degenerate:
  "(resources_model s \<noteq> [] \<longrightarrow> associate_resources params cfg [] s = Inr ([], 0, s, [])) \<and>
   (units \<noteq> [] \<and> resources_model s = [] \<longrightarrow>
      associate_resources params cfg units s = Inl ValueError) \<and>
   (resources_model s = [] \<longrightarrow> associate_resources params cfg [] s = Inl ValueError)"
proof (intro conjI impI)
  assume "resources_model s \<noteq> []"
  then show "associate_resources params cfg [] s = Inr ([], 0, s, [])"
    by (simp add: associate_resources_def sort_reverse_def associate_loop.simps
          max_replicate_zero)
next
  assume a: "units \<noteq> [] \<and> resources_model s = []"
  then have "sort_reverse units \<noteq> []"
    by (metis length_sort sort_reverse_def length_0_conv)
  with a show "associate_resources params cfg units s = Inl ValueError"
    by (simp add: associate_resources_def associate_loop.simps associate_step_def)
next
  assume "resources_model s = []"
  then show "associate_resources params cfg [] s = Inl ValueError"
    by (simp add: associate_resources_def sort_reverse_def associate_loop.simps)
qed

theorem associate_resources_degenerate_witness:
  "resources_model (example_strategy ex_models) \<noteq> [] \<and>
   associate_resources () [] [] (example_strategy ex_models) =
     Inr ([], 0, example_strategy ex_models, []) \<and>
   ex_units \<noteq> [] \<and> resources_model (example_strategy []) = [] \<and>
   associate_resources () [] ex_units (example_strategy []) = Inl ValueError \<and>
   associate_resources () [] [] (example_strategy []) = Inl ValueError"
proof -
  have h1: "resources_model (example_strategy ex_models) \<noteq> []" by code_simp
  have h2: "ex_units \<noteq> [] \<and> resources_model (example_strategy []) = []" by code_simp
  from associate_resources_degenerate [of "example_strategy ex_models" "()" "[]"] h1
  have a: "associate_resources () [] [] (example_strategy ex_models) =
     Inr ([], 0, example_strategy ex_models, [])"
    by blast
  from associate_resources_degenerate [of "example_strategy []" "()" "[]" ex_units] h2
  have b: "associate_resources () [] ex_units (example_strategy []) = Inl ValueError"
    and c: "associate_resources () [] [] (example_strategy []) = Inl ValueError"
    by blast+
  from h1 h2 a b c show ?thesis by blast
qed

text \<open>
  The claim C6 as stated, a failure with the NoCapacity error, fails: the error that
  ends the call with units and no device is ValueError, the exception of the built-in
  \<open>min\<close>, and it is no error of the empty device set alone, since a call with no units
  and no device ends in it as well.
\<close>

theorem no_capacity_error_counterexample:
  "associate_resources () [] ex_units (example_strategy []) = Inl ValueError \<and>
   associate_resources () [] [] (example_strategy []) = Inl ValueError"
  by code_simp

text \<open>
  C2, as amended. With one device of capacity 2 and the units of weights 30, 20 and 10,
  the units 30 and 20 go together in one batch, each with share \<open>1/2\<close> and with the
  duration predicted at 30, and the unit 10 goes alone in a second batch with share 1.
  The second batch runs on the same device after the first, so the reported makespan is
  the accumulated load \<open>predict(30) + predict(10)\<close> of the device.
\<close>

theorem single_device_batches:
  assumes "resources_model s = [((node_id, gpu_uuid), (poly, 2))]"
    and "gpu_lookup s node_id gpu_uuid = Some gpu"
  shows "associate_resources params cfg [(c1, 30), (c2, 20), (c3, 10)] s =
     Inr (map (spec_dispatch params cfg s)
            [((c1, 30), (node_id, gpu_uuid), 1 / 2),
             ((c2, 20), (node_id, gpu_uuid), 1 / 2),
             ((c3, 10), (node_id, gpu_uuid), 1)],
          Polynomial_call poly 30 + Polynomial_call poly 10,
          s\<lparr>client_configs_map :=
              AList.update (cid c3) (node_id, gpu_uuid, 10)
                (AList.update (cid c2) (node_id, gpu_uuid, 20)
                  (AList.update (cid c1) (node_id, gpu_uuid, 30) (client_configs_map s)))\<rparr>,
          [])"
proof -
  have sorted: "sort_reverse [(c1, 30), (c2, 20), (c3, 10)] = [(c1, 30), (c2, 20), (c3, 10)]"
    by (simp add: sort_reverse_def)
  have spec: "spec_assign_loop [((node_id, gpu_uuid), (poly, 2))] [0]
                [(c1, 30), (c2, 20), (c3, 10)] =
        ([((c1, 30), (node_id, gpu_uuid), 1 / 2),
          ((c2, 20), (node_id, gpu_uuid), 1 / 2),
          ((c3, 10), (node_id, gpu_uuid), 1)],
         [Polynomial_call poly 30 + Polynomial_call poly 10])"
    by (simp add: spec_assign_loop.simps Let_def numeral_2_eq_2)
  have "associate_loop params cfg (map fst (resources_model s)) s [0] []
          [(c1, 30), (c2, 20), (c3, 10)] =
        Inr (s\<lparr>client_configs_map := fold spec_record
                (fst (spec_assign_loop (resources_model s) [0] [(c1, 30), (c2, 20), (c3, 10)]))
                (client_configs_map s)\<rparr>,
             snd (spec_assign_loop (resources_model s) [0] [(c1, 30), (c2, 20), (c3, 10)]),
             [] @ map (spec_dispatch params cfg s)
                (fst (spec_assign_loop (resources_model s) [0] [(c1, 30), (c2, 20), (c3, 10)])),
             [])"
    using assms
    by (intro associate_loop_spec) (simp_all add: capacity_ok_def devices_known_def)
  then show ?thesis
    using assms(1)
    by (simp add: associate_resources_def sorted spec spec_record_def)
qed

theorem single_device_batches_witness:
  "resources_model (example_strategy one_device) =
     [((''node1'', ''GPU-a''), (Polynomial_new [1, 0], 2))] \<and>
   gpu_lookup (example_strategy one_device) ''node1'' ''GPU-a'' = Some (example_gpu ''GPU-a'' 0) \<and>
   associate_resources () [] three_units (example_strategy one_device) =
     Inr ([(\<lparr>cid = ''c30'',
              resources = [(''scheduling_strategy'', SchedulingStrategy ''node1'' False),
                           (''num_gpu'', NumGpu (1 / 2))]\<rparr>,
            \<lparr>parameters = (), config = [(''gpu_id'', SInt 0)]\<rparr>),
           (\<lparr>cid = ''c20'',
              resources = [(''scheduling_strategy'', SchedulingStrategy ''node1'' False),
                           (''num_gpu'', NumGpu (1 / 2))]\<rparr>,
            \<lparr>parameters = (), config = [(''gpu_id'', SInt 0)]\<rparr>),
           (\<lparr>cid = ''c10'',
              resources = [(''scheduling_strategy'', SchedulingStrategy ''node1'' False),
                           (''num_gpu'', NumGpu 1)]\<rparr>,
            \<lparr>parameters = (), config = [(''gpu_id'', SInt 0)]\<rparr>)],
          2,
          (example_strategy one_device)\<lparr>client_configs_map :=
            [(''c30'', ''node1'', ''GPU-a'', 30), (''c20'', ''node1'', ''GPU-a'', 20),
             (''c10'', ''node1'', ''GPU-a'', 10)]\<rparr>,
          [])"
proof -
  let ?s = "example_strategy one_device"
  have h1: "resources_model ?s = [((''node1'', ''GPU-a''), (Polynomial_new [1, 0], 2))]"
    by (simp add: example_strategy_def one_device_def)
  have h2: "gpu_lookup ?s ''node1'' ''GPU-a'' = Some (example_gpu ''GPU-a'' 0)"
    by (simp add: example_strategy_def gpu_lookup_def)
  have h3: "client_configs_map ?s = []"
    by (simp add: example_strategy_def)
  have p: "Polynomial_call (Polynomial_new [1, 0]) x = 1" for x
    by (simp add: Polynomial_call_def Polynomial_new_def mapparms_def polyval_def)
  from single_device_batches [OF h1 h2, of "()" "[]" "new_client ''c30''" "new_client ''c20''"
      "new_client ''c10''"]
  have "associate_resources () [] three_units ?s =
     Inr (map (spec_dispatch () [] ?s)
            [((new_client ''c30'', 30), (''node1'', ''GPU-a''), 1 / 2),
             ((new_client ''c20'', 20), (''node1'', ''GPU-a''), 1 / 2),
             ((new_client ''c10'', 10), (''node1'', ''GPU-a''), 1)],
          2,
          ?s\<lparr>client_configs_map :=
              AList.update ''c10'' (''node1'', ''GPU-a'', 10)
                (AList.update ''c20'' (''node1'', ''GPU-a'', 20)
                  (AList.update ''c30'' (''node1'', ''GPU-a'', 30) (client_configs_map ?s)))\<rparr>,
          [])"
    by (simp add: three_units_def p new_client_def)
  then have "associate_resources () [] three_units ?s =
     Inr ([(\<lparr>cid = ''c30'',
              resources = [(''scheduling_strategy'', SchedulingStrategy ''node1'' False),
                           (''num_gpu'', NumGpu (1 / 2))]\<rparr>,
            \<lparr>parameters = (), config = [(''gpu_id'', SInt 0)]\<rparr>),
           (\<lparr>cid = ''c20'',
              resources = [(''scheduling_strategy'', SchedulingStrategy ''node1'' False),
                           (''num_gpu'', NumGpu (1 / 2))]\<rparr>,
            \<lparr>parameters = (), config = [(''gpu_id'', SInt 0)]\<rparr>),
           (\<lparr>cid = ''c10'',
              resources = [(''scheduling_strategy'', SchedulingStrategy ''node1'' False),
                           (''num_gpu'', NumGpu 1)]\<rparr>,
            \<lparr>parameters = (), config = [(''gpu_id'', SInt 0)]\<rparr>)],
          2,
          ?s\<lparr>client_configs_map :=
            [(''c30'', ''node1'', ''GPU-a'', 30), (''c20'', ''node1'', ''GPU-a'', 20),
             (''c10'', ''node1'', ''GPU-a'', 10)]\<rparr>,
          [])"
    by (simp add: spec_dispatch_def h2 h3 example_gpu_def new_client_def)
  with h1 h2 show ?thesis by blast
qed

text \<open>
  The claim C2 as stated, a makespan of \<open>max(predict(30), predict(10))\<close>, fails for the
  model that \<open>create_model\<close> makes: both predictions are 1 and the reported makespan
  is 2.
\<close>

theorem single_device_makespan_counterexample:
  "associate_resources () [] three_units (example_strategy one_device) =
     Inr ([(\<lparr>cid = ''c30'',
              resources = [(''scheduling_strategy'', SchedulingStrategy ''node1'' False),
                           (''num_gpu'', NumGpu (1 / 2))]\<rparr>,
            \<lparr>parameters = (), config = [(''gpu_id'', SInt 0)]\<rparr>),
           (\<lparr>cid = ''c20'',
              resources = [(''scheduling_strategy'', SchedulingStrategy ''node1'' False),
                           (''num_gpu'', NumGpu (1 / 2))]\<rparr>,
            \<lparr>parameters = (), config = [(''gpu_id'', SInt 0)]\<rparr>),
           (\<lparr>cid = ''c10'',
              resources = [(''scheduling_strategy'', SchedulingStrategy ''node1'' False),
                           (''num_gpu'', NumGpu 1)]\<rparr>,
            \<lparr>parameters = (), config = [(''gpu_id'', SInt 0)]\<rparr>)],
          2,
          (example_strategy one_device)\<lparr>client_configs_map :=
            [(''c30'', ''node1'', ''GPU-a'', 30), (''c20'', ''node1'', ''GPU-a'', 20),
             (''c10'', ''node1'', ''GPU-a'', 10)]\<rparr>,
          []) \<and>
   max (Polynomial_call (Polynomial_new [1, 0]) 30) (Polynomial_call (Polynomial_new [1, 0]) 10) = 1"
  by code_simp

subsection \<open>What the scheduler changes in the strategy\<close>

lemma associate_step_indep:
  "map_sum id snd (associate_step params cfg mp (s\<lparr>client_configs_map := ccm\<rparr>) ett cfl cww) =
   map_sum id snd (associate_step params cfg mp s ett cfl cww)"
  by (simp add: associate_step_def Let_def associate_batch_eq del: associate_batch.simps
           split: sum.splits prod.splits list.splits)

lemma associate_step_state:
  assumes "associate_step params cfg mp s ett cfl cww = Inr (s', r)"
  shows "\<exists>ccm. s' = s\<lparr>client_configs_map := ccm\<rparr>"
  using assms
  by (auto simp: associate_step_def Let_def split: sum.splits prod.splits list.splits)

lemma associate_loop_state:
  "associate_loop params cfg mp s ett cfl cww = Inr (s', r) \<Longrightarrow>
     \<exists>ccm. s' = s\<lparr>client_configs_map := ccm\<rparr>"
proof (induction params cfg mp s ett cfl cww arbitrary: s' r rule: associate_loop.induct)
  case (1 params cfg mp s ett cfl cww)
  show ?case
  proof (cases "cww = []")
    case True
    with "1.prems" have "s' = s" by (simp add: associate_loop.simps)
    then have "s' = s\<lparr>client_configs_map := client_configs_map s\<rparr>" by simp
    then show ?thesis by blast
  next
    case False
    with "1.prems" obtain s1 ett1 cfl1 cww1 where
      step: "associate_step params cfg mp s ett cfl cww = Inr (s1, ett1, cfl1, cww1)"
      and loop: "associate_loop params cfg mp s1 ett1 cfl1 cww1 = Inr (s', r)"
      by (subst (asm) associate_loop.simps) (auto split: sum.splits)
    from associate_step_state [OF step]
    obtain ccm1 where s1: "s1 = s\<lparr>client_configs_map := ccm1\<rparr>" ..
    from "1.IH" [OF False step refl refl refl loop]
    obtain ccm where "s' = s1\<lparr>client_configs_map := ccm\<rparr>" ..
    with s1 have "s' = s\<lparr>client_configs_map := ccm\<rparr>" by simp
    then show ?thesis by blast
  qed
qed

lemma associate_loop_indep:
  "map_sum id snd (associate_loop params cfg mp (s\<lparr>client_configs_map := ccm\<rparr>) ett cfl cww) =
   map_sum id snd (associate_loop params cfg mp s ett cfl cww)"
proof (induction params cfg mp s ett cfl cww arbitrary: ccm rule: associate_loop.induct)
  case (1 params cfg mp s ett cfl cww)
  let ?s2 = "s\<lparr>client_configs_map := ccm\<rparr>"
  show ?case
  proof (cases "cww = []")
    case True
    then show ?thesis by (simp add: associate_loop.simps)
  next
    case False
    note indep = associate_step_indep [of params cfg mp ccm s ett cfl cww]
    show ?thesis
    proof (cases "associate_step params cfg mp s ett cfl cww")
      case (Inl e)
      with indep have "associate_step params cfg mp ?s2 ett cfl cww = Inl e"
        by (cases "associate_step params cfg mp ?s2 ett cfl cww") auto
      with Inl False show ?thesis
        by (subst (1 2) associate_loop.simps) simp
    next
      case (Inr r)
      then obtain s1 ett1 cfl1 cww1 where
        step: "associate_step params cfg mp s ett cfl cww = Inr (s1, ett1, cfl1, cww1)"
        by (cases r) auto
      with indep obtain s2 where
        step2: "associate_step params cfg mp ?s2 ett cfl cww = Inr (s2, ett1, cfl1, cww1)"
        by (cases "associate_step params cfg mp ?s2 ett cfl cww") auto
      from associate_step_state [OF step]
      obtain c1 where s1: "s1 = s\<lparr>client_configs_map := c1\<rparr>" ..
      from associate_step_state [OF step2]
      obtain c2 where "s2 = ?s2\<lparr>client_configs_map := c2\<rparr>" ..
      with s1 have s2: "s2 = s1\<lparr>client_configs_map := c2\<rparr>" by simp
      have "map_sum id snd (associate_loop params cfg mp s2 ett1 cfl1 cww1) =
            map_sum id snd (associate_loop params cfg mp s1 ett1 cfl1 cww1)"
        unfolding s2 by (rule "1.IH" [OF False step refl refl refl])
      with False step step2 show ?thesis
        by (subst (1 2) associate_loop.simps) simp
    qed
  qed
qed

lemma configure_fit_2_state:
  "configure_fit_2 params cfg clients s = Inr (fl, s') \<Longrightarrow>
     \<exists>ccm. s' = s\<lparr>client_configs_map := ccm\<rparr>"
  by (auto simp: configure_fit_2_def split: sum.splits)

lemma associate_resources_state:
  assumes "associate_resources params cfg units s = Inr (fit_list, makespan, s', rest)"
  shows "\<exists>ccm. s' = s\<lparr>client_configs_map := ccm\<rparr>"
proof -
  from assms obtain ett where "associate_loop params cfg (map fst (resources_model s)) s
      (replicate (length (resources_model s)) 0) [] (sort_reverse units) =
        Inr (s', ett, fit_list, rest)"
    by (auto simp: associate_resources_def Let_def split: sum.splits)
  then show ?thesis by (rule associate_loop_state)
qed

lemma update_commute_present:
  "k \<in> fst ` set al \<Longrightarrow> k \<noteq> k' \<Longrightarrow>
   AList.update k v (AList.update k' v' al) = AList.update k' v' (AList.update k v al)"
  by (induction al) auto

lemma claims_overwrite:
  "AList.update ''num_gpu'' v'
     (AList.update ''scheduling_strategy'' u'
        (AList.update ''num_gpu'' v (AList.update ''scheduling_strategy'' u r))) =
   AList.update ''num_gpu'' v' (AList.update ''scheduling_strategy'' u' r)"
proof -
  have "''scheduling_strategy'' \<in> fst ` set (AList.update ''scheduling_strategy'' u r)"
    by (simp add: dom_update)
  then have "AList.update ''scheduling_strategy'' u'
        (AList.update ''num_gpu'' v (AList.update ''scheduling_strategy'' u r)) =
      AList.update ''num_gpu'' v
        (AList.update ''scheduling_strategy'' u' (AList.update ''scheduling_strategy'' u r))"
    by (rule update_commute_present) simp
  then show ?thesis by simp
qed

lemma same_unit_claimed:
  "same_unit (c, w)
     (c\<lparr>resources := AList.update ''num_gpu'' v
          (AList.update ''scheduling_strategy'' u (resources c))\<rparr>, w)"
  by (simp add: same_unit_def claims_overwrite)

lemma batch_fold_same:
  "list_all2 same_unit b b' \<Longrightarrow>
   fold (\<lambda>u. AList.update (cid (fst u)) (n, g, snd u)) b' ccm =
   fold (\<lambda>u. AList.update (cid (fst u)) (n, g, snd u)) b ccm"
  by (induction b b' arbitrary: ccm rule: list_all2_induct) (auto simp: same_unit_def)

lemma batch_map_same:
  "list_all2 same_unit b b' \<Longrightarrow>
   map (\<lambda>u. ((fst u)\<lparr>resources := AList.update ''num_gpu'' v
                (AList.update ''scheduling_strategy'' w (resources (fst u)))\<rparr>, ins)) b' =
   map (\<lambda>u. ((fst u)\<lparr>resources := AList.update ''num_gpu'' v
                (AList.update ''scheduling_strategy'' w (resources (fst u)))\<rparr>, ins)) b"
  by (induction b b' rule: list_all2_induct) (auto simp: same_unit_def)

lemma py_take_drop_same:
  assumes "list_all2 same_unit xs ys"
  shows "list_all2 same_unit (py_take k xs) (py_take k ys)"
    and "list_all2 same_unit (py_drop k xs) (py_drop k ys)"
  using assms list_all2_lengthD [OF assms]
  by (auto simp: py_take_def py_drop_def intro: list_all2_takeI list_all2_dropI)

lemma associate_step_same:
  assumes "list_all2 same_unit cww cww'"
  shows "rel_sum (=) (\<lambda>r r'. fst r' = fst r \<and> fst (snd r') = fst (snd r) \<and>
              fst (snd (snd r')) = fst (snd (snd r)) \<and>
              list_all2 same_unit (snd (snd (snd r))) (snd (snd (snd r'))))
           (associate_step params cfg mp s ett cfl cww)
           (associate_step params cfg mp s ett cfl cww')"
proof -
  have len: "length cww' = length cww" using assms by (simp add: list_all2_lengthD)
  have core: "rel_sum (=) (\<lambda>r r'. fst r' = fst r \<and> fst (snd r') = fst (snd r) \<and>
              fst (snd (snd r')) = fst (snd (snd r)) \<and>
              list_all2 same_unit (snd (snd (snd r))) (snd (snd (snd r'))))
      (case py_take K cww of [] \<Rightarrow> Inl IndexError
       | (client0, num_steps0) # rest0 \<Rightarrow>
           (case associate_batch a b K ins (py_take K cww) (ccm, cfl) of
              (ccm', client_fit_list') \<Rightarrow>
                Inr (s\<lparr>client_configs_map := ccm'\<rparr>,
                     ett[idx := ett ! idx + Polynomial_call poly (real_of_int num_steps0)],
                     client_fit_list', py_drop K cww)))
      (case py_take K cww' of [] \<Rightarrow> Inl IndexError
       | (client0, num_steps0) # rest0 \<Rightarrow>
           (case associate_batch a b K ins (py_take K cww') (ccm, cfl) of
              (ccm', client_fit_list') \<Rightarrow>
                Inr (s\<lparr>client_configs_map := ccm'\<rparr>,
                     ett[idx := ett ! idx + Polynomial_call poly (real_of_int num_steps0)],
                     client_fit_list', py_drop K cww')))"
    for K a b ins poly idx ccm
  proof -
    note rel = py_take_drop_same [OF assms, of K]
    show ?thesis
    proof (cases "py_take K cww")
      case Nil
      with rel(1) have "py_take K cww' = []" by simp
      with Nil show ?thesis by simp
    next
      case (Cons u bt)
      with rel(1) obtain u' bt' where c': "py_take K cww' = u' # bt'"
        and su: "same_unit u u'" and sb: "list_all2 same_unit bt bt'"
        by (auto simp: list_all2_Cons1)
      from su sb have all: "list_all2 same_unit (u # bt) (u' # bt')" by simp
      from su have w: "snd u' = snd u" by (simp add: same_unit_def)
      note f = batch_fold_same [OF rel(1)] and m = batch_map_same [OF rel(1)]
      show ?thesis
        unfolding associate_batch_eq f m
        using rel(2) w
        by (auto simp: Cons c' split: prod.splits)
    qed
  qed
  show ?thesis
    unfolding associate_step_def Let_def len
    by (simp split: sum.splits prod.splits del: associate_batch.simps)
       (intro allI impI core)
qed

lemma associate_loop_same:
  "list_all2 same_unit cww cww' \<Longrightarrow>
   associate_loop params cfg mp s ett cfl cww' = associate_loop params cfg mp s ett cfl cww"
proof (induction params cfg mp s ett cfl cww arbitrary: cww' rule: associate_loop.induct)
  case (1 params cfg mp s ett cfl cww)
  show ?case
  proof (cases "cww = []")
    case True
    with "1.prems" have "cww' = []" by simp
    with True show ?thesis by simp
  next
    case False
    with "1.prems" have ne': "cww' \<noteq> []" by auto
    note rel = associate_step_same [OF "1.prems", of params cfg mp s ett cfl]
    show ?thesis
    proof (cases "associate_step params cfg mp s ett cfl cww")
      case (Inl e)
      with rel have "associate_step params cfg mp s ett cfl cww' = Inl e"
        by (cases "associate_step params cfg mp s ett cfl cww'") auto
      with Inl False ne' show ?thesis
        by (subst (1 2) associate_loop.simps) simp
    next
      case (Inr r)
      then obtain s1 ett1 cfl1 cww1 where
        step: "associate_step params cfg mp s ett cfl cww = Inr (s1, ett1, cfl1, cww1)"
        by (cases r) auto
      with rel obtain cww1' where
        step': "associate_step params cfg mp s ett cfl cww' = Inr (s1, ett1, cfl1, cww1')"
        and same: "list_all2 same_unit cww1 cww1'"
        by (cases "associate_step params cfg mp s ett cfl cww'") auto
      from "1.IH" [OF False step refl refl refl same]
      have "associate_loop params cfg mp s1 ett1 cfl1 cww1' =
            associate_loop params cfg mp s1 ett1 cfl1 cww1" .
      with False ne' step step' show ?thesis
        by (subst (1 2) associate_loop.simps) simp
    qed
  qed
qed

lemma associate_step_alt:
  "associate_step params cfg mp s ett cfl cww =
     (case py_min ett of Inl e \<Rightarrow> Inl e | Inr m \<Rightarrow>
     (case py_index ett m of Inl e \<Rightarrow> Inl e | Inr idx \<Rightarrow>
     (case py_nth mp idx of Inl e \<Rightarrow> Inl e | Inr (node_id, gpu_uuid) \<Rightarrow>
     (case py_getitem (gpu_resources s) node_id of Inl e \<Rightarrow> Inl e | Inr gpus \<Rightarrow>
     (case py_getitem gpus gpu_uuid of Inl e \<Rightarrow> Inl e | Inr gpu \<Rightarrow>
     (case py_getitem (resources_model s) (node_id, gpu_uuid) of Inl e \<Rightarrow> Inl e
      | Inr (poly, cap) \<Rightarrow>
        if py_take (min cap (int (length cww))) cww = [] then Inl IndexError
        else Inr (s\<lparr>client_configs_map :=
                    fold (\<lambda>u. AList.update (cid (fst u)) (node_id, gpu_uuid, snd u))
                      (py_take (min cap (int (length cww))) cww) (client_configs_map s)\<rparr>,
                  ett[idx := ett ! idx + Polynomial_call poly
                      (real_of_int (snd (hd (py_take (min cap (int (length cww))) cww))))],
                  cfl @ map (\<lambda>u. ((fst u)\<lparr>resources :=
                      AList.update ''num_gpu''
                        (NumGpu (1 / real_of_int (min cap (int (length cww)))))
                        (AList.update ''scheduling_strategy'' (SchedulingStrategy node_id False)
                           (resources (fst u)))\<rparr>,
                      \<lparr>parameters = params,
                       config = AList.update ''gpu_id'' (SInt (gpu_id gpu)) cfg\<rparr>))
                    (py_take (min cap (int (length cww))) cww),
                  py_drop (min cap (int (length cww))) cww)))))))"
  unfolding associate_step_def Let_def associate_batch_eq
  by (simp split: sum.splits prod.splits list.splits)

lemma associate_step_claimed:
  assumes "associate_step params cfg mp s ett cfl cww = Inr (s1, ett1, cfl1, cww1)"
  shows "\<exists>k new. cfl1 = cfl @ new \<and> cww1 = drop k cww \<and>
           list_all2 (\<lambda>u e. same_unit u (fst e, snd u)) (take k cww) new"
proof -
  have q: "list_all2 (\<lambda>u e. same_unit u (fst e, snd u)) b
      (map (\<lambda>u. ((fst u)\<lparr>resources :=
            AList.update ''num_gpu'' v
              (AList.update ''scheduling_strategy'' w (resources (fst u)))\<rparr>, ins)) b)"
    for b :: "(ClientProxy \<times> int) list" and v w and ins :: "'a FitIns"
    by (induction b) (auto simp: same_unit_def claims_overwrite)
  have td: "\<exists>k. py_take K cww = take k cww \<and> py_drop K cww = drop k cww" for K
    by (auto simp: py_take_def py_drop_def)
  from assms obtain K v w and ins :: "'a FitIns" where
    cfl1: "cfl1 = cfl @ map (\<lambda>u. ((fst u)\<lparr>resources :=
            AList.update ''num_gpu'' v
              (AList.update ''scheduling_strategy'' w (resources (fst u)))\<rparr>, ins))
            (py_take K cww)"
    and cww1: "cww1 = py_drop K cww"
    unfolding associate_step_alt
    by (simp split: sum.splits prod.splits if_splits) blast
  from td [of K] obtain k where t: "py_take K cww = take k cww"
    and d: "py_drop K cww = drop k cww" by blast
  from q [of "take k cww" v w ins] show ?thesis
    unfolding cfl1 cww1 t d by blast
qed

lemma associate_loop_claimed:
  "associate_loop params cfg mp s ett cfl cww = Inr (s', ett', out, rest) \<Longrightarrow>
   rest = [] \<and>
   (\<exists>new. out = cfl @ new \<and> list_all2 (\<lambda>u e. same_unit u (fst e, snd u)) cww new)"
proof (induction params cfg mp s ett cfl cww rule: associate_loop.induct)
  case (1 params cfg mp s ett cfl cww)
  show ?case
  proof (cases "cww = []")
    case True
    with "1.prems" show ?thesis by (simp add: associate_loop.simps)
  next
    case False
    with "1.prems" obtain s1 ett1 cfl1 cww1 where
      step: "associate_step params cfg mp s ett cfl cww = Inr (s1, ett1, cfl1, cww1)"
      and loop: "associate_loop params cfg mp s1 ett1 cfl1 cww1 = Inr (s', ett', out, rest)"
      by (subst (asm) associate_loop.simps) (auto split: sum.splits)
    from associate_step_claimed [OF step] obtain k new1 where
      cfl1: "cfl1 = cfl @ new1" and cww1: "cww1 = drop k cww"
      and q1: "list_all2 (\<lambda>u e. same_unit u (fst e, snd u)) (take k cww) new1"
      by blast
    from "1.IH" [OF False step refl refl refl loop] obtain new2 where
      rest: "rest = []" and out: "out = cfl1 @ new2"
      and q2: "list_all2 (\<lambda>u e. same_unit u (fst e, snd u)) cww1 new2"
      by blast
    from q1 q2 have "list_all2 (\<lambda>u e. same_unit u (fst e, snd u))
        (take k cww @ drop k cww) (new1 @ new2)"
      unfolding cww1 by (rule list_all2_appendI)
    with rest out cfl1 show ?thesis by simp
  qed
qed

lemma claimed_units:
  "list_all2 (\<lambda>u e. same_unit u (fst e, snd u)) xs ys \<Longrightarrow>
   list_all2 same_unit xs (zip (map fst ys) (map snd xs))"
  by (induction xs ys rule: list_all2_induct) auto

lemma sort_reverse_sorted_id:
  assumes "map snd ys = map snd (sort_reverse xs)"
  shows "sort_reverse ys = ys"
proof -
  have "sorted (map (\<lambda>x. - snd x) (sort_reverse xs))"
    unfolding sort_reverse_def by (rule sorted_sort_key)
  moreover have "map (\<lambda>x. - snd x) ys = map uminus (map snd ys)" by simp
  moreover have "map (\<lambda>x. - snd x) (sort_reverse xs) = map uminus (map snd (sort_reverse xs))"
    by simp
  ultimately have "sorted (map (\<lambda>x. - snd x) ys)" using assms by simp
  then show ?thesis unfolding sort_reverse_def by (rule sort_key_id_if_sorted)
qed

lemma associate_resources_no_units:
  "resources_model s \<noteq> [] \<Longrightarrow> associate_resources params cfg [] s = Inr ([], 0, s, [])"
  by (simp add: associate_resources_def sort_reverse_def associate_loop.simps
        max_replicate_zero)

lemma associate_resources_needs_models:
  assumes "associate_resources params cfg units s = Inr r"
  shows "resources_model s \<noteq> []"
proof
  assume none: "resources_model s = []"
  show False
  proof (cases "units = []")
    case True
    with none assms show False
      by (simp add: associate_resources_def sort_reverse_def associate_loop.simps)
  next
    case False
    then have "sort_reverse units \<noteq> []"
      by (metis length_sort sort_reverse_def length_0_conv)
    with none assms show False
      by (simp add: associate_resources_def associate_loop.simps associate_step_def)
  qed
qed

text \<open>
  C7, as amended. A pass of \<open>associate_resources\<close> sorts and empties the list it is given,
  so the list it leaves to its caller is empty, and a second call handed that same list
  returns the empty output and the makespan 0. A second call on an equal list that the
  caller has built again, as \<open>configure_fit\<close> does in every round, started from the
  strategy the first pass left, returns the same output list and the same makespan as
  the first: the pass writes \<open>client_configs_map\<close>, which it does not read, and the two
  resource claims of every client, which it overwrites. This holds for the same units
  as values, and for the clients of the first output, now carrying their claims, with
  their weights.
\<close>

theorem associate_resources_idempotent:
  assumes "associate_resources params cfg units s = Inr (fit_list, makespan, s', rest)"
  shows "rest = [] \<and>
         associate_resources params cfg rest s' = Inr ([], 0, s', []) \<and>
         (\<exists>s''. associate_resources params cfg units s' = Inr (fit_list, makespan, s'', [])) \<and>
         (\<exists>s''. associate_resources params cfg
                  (zip (map fst fit_list) (map snd (sort_reverse units))) s' =
                Inr (fit_list, makespan, s'', []))"
proof -
  let ?mp = "map fst (resources_model s)"
  let ?ett = "replicate (length (resources_model s)) (0::real)"
  let ?units2 = "zip (map fst fit_list) (map snd (sort_reverse units))"
  from assms obtain ett' where
    loop: "associate_loop params cfg ?mp s ?ett [] (sort_reverse units) =
             Inr (s', ett', fit_list, rest)"
    and mk: "py_max ett' = Inr makespan"
    by (auto simp: associate_resources_def Let_def split: sum.splits)
  from associate_loop_claimed [OF loop] have rest: "rest = []"
    and q: "list_all2 (\<lambda>u e. same_unit u (fst e, snd u)) (sort_reverse units) fit_list"
    by simp_all
  from associate_loop_state [OF loop]
  obtain ccm where s': "s' = s\<lparr>client_configs_map := ccm\<rparr>" ..
  from assms have "resources_model s \<noteq> []" by (rule associate_resources_needs_models)
  then have "resources_model s' \<noteq> []" by (simp add: s')
  then have emptied: "associate_resources params cfg rest s' = Inr ([], 0, s', [])"
    unfolding rest by (rule associate_resources_no_units)
  from associate_loop_indep [of params cfg ?mp ccm s ?ett "[]" "sort_reverse units"] loop
  obtain s'' where again: "associate_loop params cfg ?mp s' ?ett [] (sort_reverse units) =
      Inr (s'', ett', fit_list, [])"
    unfolding s' rest
    by (cases "associate_loop params cfg ?mp (s\<lparr>client_configs_map := ccm\<rparr>) ?ett []
                 (sort_reverse units)") auto
  with mk have first: "associate_resources params cfg units s' =
      Inr (fit_list, makespan, s'', [])"
    by (simp add: associate_resources_def s')
  from q have same: "list_all2 same_unit (sort_reverse units) ?units2" by (rule claimed_units)
  from q have "length fit_list = length (sort_reverse units)" by (simp add: list_all2_lengthD)
  then have "map snd ?units2 = map snd (sort_reverse units)" by simp
  then have sorted: "sort_reverse ?units2 = ?units2" by (rule sort_reverse_sorted_id)
  from associate_loop_same [OF same, of params cfg ?mp s' ?ett "[]"] again
  have "associate_loop params cfg ?mp s' ?ett [] ?units2 = Inr (s'', ett', fit_list, [])"
    by simp
  with mk have "associate_resources params cfg ?units2 s' = Inr (fit_list, makespan, s'', [])"
    by (simp add: associate_resources_def s' sorted)
  with rest emptied first show ?thesis by blast
qed

theorem associate_resources_idempotent_witness:
  "associate_resources () [] ex_units (example_strategy ex_models) =
     Inr (ex_output, 1, ex_after, []) \<and>
   associate_resources () [] [] ex_after = Inr ([], 0, ex_after, []) \<and>
   (\<exists>s''. associate_resources () [] ex_units ex_after = Inr (ex_output, 1, s'', [])) \<and>
   zip (map fst ex_output) (map snd (sort_reverse ex_units)) =
     [(fst (ex_output ! 0), 30), (fst (ex_output ! 1), 20), (fst (ex_output ! 2), 10)] \<and>
   (\<exists>s''. associate_resources () []
            (zip (map fst ex_output) (map snd (sort_reverse ex_units))) ex_after =
          Inr (ex_output, 1, s'', []))"
proof -
  have first: "associate_resources () [] ex_units (example_strategy ex_models) =
     Inr (ex_output, 1, ex_after, [])"
    by code_simp
  have units: "zip (map fst ex_output) (map snd (sort_reverse ex_units)) =
     [(fst (ex_output ! 0), 30), (fst (ex_output ! 1), 20), (fst (ex_output ! 2), 10)]"
    by code_simp
  from associate_resources_idempotent [OF first] first units show ?thesis by blast
qed

text \<open>
  The claim C7 as stated, that a second call with the same unit list yields an identical
  assignment, fails for the list the caller holds: the first call on the three example
  units returns three instructions with the makespan 1 and leaves the list empty, and
  the second call on the list as it was left returns no instruction and the makespan 0.
\<close>

theorem same_list_second_call_counterexample:
  "associate_resources () [] ex_units (example_strategy ex_models) =
     Inr (ex_output, 1, ex_after, []) \<and>
   length ex_output = 3 \<and>
   associate_resources () [] [] ex_after = Inr ([], 0, ex_after, [])"
  by code_simp

subsection \<open>What \<open>aggregate_fit\<close> changes in the model map\<close>

lemma update_value_views:
  assumes "map_of al k = Some (p, t)"
  shows "map (\<lambda>e. (fst e, fst (snd e))) (AList.update k (p, n) al) = map (\<lambda>e. (fst e, fst (snd e))) al"
    and "map (\<lambda>e. (fst e, snd (snd e))) (AList.update k (p', t) al) = map (\<lambda>e. (fst e, snd (snd e))) al"
  using assms by (induction al) (auto split: if_splits)

lemma capacity_gpu_loop_frame:
  assumes "capacity_gpu_loop node_id max_all gd s = Inr s'"
  shows "polynomials s' = polynomials s \<and> only_models_changed s s'"
  using assms
proof (induction gd arbitrary: s)
  case Nil
  then show ?case by (simp add: only_models_changed_def)
next
  case (Cons g gd)
  obtain gpu_uuid this where g: "g = (gpu_uuid, this)" by (cases g)
  from Cons.prems obtain poly_model t n where
    model: "py_getitem (resources_model s) (node_id, gpu_uuid) = Inr (poly_model, t)"
    and rest: "capacity_gpu_loop node_id max_all gd
        (s\<lparr>resources_model := AList.update (node_id, gpu_uuid) (poly_model, n) (resources_model s)\<rparr>) = Inr s'"
    unfolding g by (auto split: sum.splits)
  let ?s1 = "s\<lparr>resources_model := AList.update (node_id, gpu_uuid) (poly_model, n) (resources_model s)\<rparr>"
  from model have "map_of (resources_model s) (node_id, gpu_uuid) = Some (poly_model, t)"
    by (auto simp: py_getitem_def split: option.splits)
  then have p1: "polynomials ?s1 = polynomials s"
    by (simp add: polynomials_def update_value_views)
  from Cons.IH [OF rest] have
    "polynomials s' = polynomials ?s1" and "only_models_changed ?s1 s'"
    by blast+
  with p1 show ?case by (simp add: only_models_changed_def)
qed

lemma capacity_task_loop_frame:
  assumes "capacity_task_loop node_id max_all ts s = Inr s'"
  shows "polynomials s' = polynomials s \<and> only_models_changed s s'"
  using assms
proof (induction ts arbitrary: s)
  case Nil
  then show ?case by (simp add: only_models_changed_def)
next
  case (Cons t ts)
  obtain task gd where t: "t = (task, gd)" by (cases t)
  from Cons.prems obtain s1 where
    a: "capacity_gpu_loop node_id max_all gd s = Inr s1"
    and b: "capacity_task_loop node_id max_all ts s1 = Inr s'"
    unfolding t by (auto split: sum.splits)
  from capacity_gpu_loop_frame [OF a] have
    s1: "polynomials s1 = polynomials s" "only_models_changed s s1"
    by blast+
  from Cons.IH [OF b] have
    s2: "polynomials s' = polynomials s1" "only_models_changed s1 s'"
    by blast+
  from s1 s2 show ?case by (simp add: only_models_changed_def)
qed

lemma capacity_actor_loop_frame:
  assumes "capacity_actor_loop monitors s = Inr s'"
  shows "polynomials s' = polynomials s \<and> only_models_changed s s'"
  using assms
proof (induction monitors arbitrary: s)
  case Nil
  then show ?case by (simp add: only_models_changed_def)
next
  case (Cons a monitors)
  obtain node_id m where a: "a = (node_id, m)" by (cases a)
  from Cons.prems obtain s1 where
    a1: "capacity_task_loop node_id (max_all_proc_mem_used_mb m) (max_this_proc_mem_used_mb m) s = Inr s1"
    and b: "capacity_actor_loop monitors s1 = Inr s'"
    unfolding a by (auto split: sum.splits)
  from capacity_task_loop_frame [OF a1] have
    s1: "polynomials s1 = polynomials s" "only_models_changed s s1"
    by blast+
  from Cons.IH [OF b] have
    s2: "polynomials s' = polynomials s1" "only_models_changed s1 s'"
    by blast+
  from s1 s2 show ?case by (simp add: only_models_changed_def)
qed

lemma fit_loop_frame:
  assumes "fit_loop fit x y items s = Inr s'"
    and "set (map (\<lambda>e. (fst e, snd (snd e))) items) \<subseteq> set (capacities s)"
    and "distinct (map fst (resources_model s))"
  shows "capacities s' = capacities s \<and> only_models_changed s s'"
  using assms
proof (induction items arbitrary: s)
  case Nil
  then show ?case by (simp add: only_models_changed_def)
next
  case (Cons e items)
  obtain k m c where e: "e = (k, (m, c))" by (cases e) auto
  from Cons.prems(1) obtain m' where
    rest: "fit_loop fit x y items
        (s\<lparr>resources_model := AList.update k (m', c) (resources_model s)\<rparr>) = Inr s'"
    unfolding e by (auto split: sum.splits)
  let ?s1 = "s\<lparr>resources_model := AList.update k (m', c) (resources_model s)\<rparr>"
  from Cons.prems(2) have "(k, c) \<in> set (capacities s)" by (simp add: e)
  then obtain p where "(k, (p, c)) \<in> set (resources_model s)"
    by (auto simp: capacities_def)
  with Cons.prems(3) have "map_of (resources_model s) k = Some (p, c)" by simp
  then have c1: "capacities ?s1 = capacities s"
    by (simp add: capacities_def update_value_views)
  have d1: "distinct (map fst (resources_model ?s1))"
    using Cons.prems(3) by (simp add: distinct_update)
  from Cons.prems(2) c1 have sub: "set (map (\<lambda>e. (fst e, snd (snd e))) items) \<subseteq> set (capacities ?s1)"
    by simp
  from Cons.IH [OF rest sub d1] c1 show ?case
    by (simp add: only_models_changed_def)
qed

lemma fit_actor_loop_frame:
  assumes "fit_actor_loop fit task_to_cid monitors s = Inr s'"
    and "distinct (map fst (resources_model s))"
  shows "capacities s' = capacities s \<and> only_models_changed s s'"
  using assms
proof (induction monitors arbitrary: s)
  case Nil
  then show ?case by (simp add: only_models_changed_def)
next
  case (Cons a monitors)
  obtain node_id m where a: "a = (node_id, m)" by (cases a)
  from Cons.prems(1) obtain x y s1 where
    fl: "fit_loop fit x y (resources_model s) s = Inr s1"
    and rest: "fit_actor_loop fit task_to_cid monitors s1 = Inr s'"
    unfolding a by (auto split: sum.splits)
  have "set (map (\<lambda>e. (fst e, snd (snd e))) (resources_model s)) \<subseteq> set (capacities s)"
    by (simp add: capacities_def)
  from fit_loop_frame [OF fl this Cons.prems(2)]
  have s1: "capacities s1 = capacities s" "only_models_changed s s1" by blast+
  from s1(1) have "map fst (capacities s1) = map fst (capacities s)" by simp
  then have "map fst (resources_model s1) = map fst (resources_model s)"
    by (simp add: capacities_def comp_def)
  with Cons.prems(2) have "distinct (map fst (resources_model s1))" by simp
  from Cons.IH [OF rest this] s1 show ?case
    by (simp add: only_models_changed_def)
qed


lemma fit_loop_only:
  "fit_loop fit x y items s = Inr s' \<Longrightarrow> only_models_changed s s'"
proof (induction items arbitrary: s)
  case Nil
  then show ?case by (simp add: only_models_changed_def)
next
  case (Cons e items)
  obtain k m c where e: "e = (k, (m, c))" by (cases e) auto
  from Cons.prems obtain m' where
    rest: "fit_loop fit x y items
        (s\<lparr>resources_model := AList.update k (m', c) (resources_model s)\<rparr>) = Inr s'"
    unfolding e by (auto split: sum.splits)
  from Cons.IH [OF rest] show ?case by (simp add: only_models_changed_def)
qed

lemma fit_actor_loop_only:
  "fit_actor_loop fit task_to_cid monitors s = Inr s' \<Longrightarrow> only_models_changed s s'"
proof (induction monitors arbitrary: s)
  case Nil
  then show ?case by (simp add: only_models_changed_def)
next
  case (Cons a monitors)
  obtain node_id m where a: "a = (node_id, m)" by (cases a)
  from Cons.prems obtain x y s1 where
    fl: "fit_loop fit x y (resources_model s) s = Inr s1"
    and rest: "fit_actor_loop fit task_to_cid monitors s1 = Inr s'"
    unfolding a by (auto split: sum.splits)
  from fit_loop_only [OF fl] Cons.IH [OF rest] show ?case
    by (simp add: only_models_changed_def)
qed

lemma aggregate_fit_cases:
  assumes "aggregate_fit fit server_round results monitors s = Inr s'"
  shows "(server_round = 1 \<and> capacity_actor_loop monitors s = Inr s') \<or>
         (server_round = 2 \<and> (\<exists>t. fit_actor_loop fit t monitors s = Inr s')) \<or>
         (server_round \<noteq> 1 \<and> server_round \<noteq> 2 \<and> s' = s)"
  using assms by (auto simp: aggregate_fit_def split: sum.splits if_splits)

text \<open>
  C9. The update of round 1 leaves the polynomial of every device as it was and writes
  nothing but the model map; the update of round 2 leaves every capacity as it was and
  writes nothing but the model map; in every other round \<open>aggregate_fit\<close> leaves the
  strategy as it is; the scheduler of the steady state and the calibration round of
  \<open>configure_fit\<close> do not write the model map.
\<close>

theorem model_mutations:
  "(aggregate_fit fit 1 results monitors s = Inr s' \<longrightarrow>
      polynomials s' = polynomials s \<and> only_models_changed s s') \<and>
   (distinct (map fst (resources_model s)) \<and> aggregate_fit fit 2 results monitors s = Inr s' \<longrightarrow>
      capacities s' = capacities s \<and> only_models_changed s s') \<and>
   (server_round \<noteq> 1 \<and> server_round \<noteq> 2 \<and>
    aggregate_fit fit server_round results monitors s = Inr s' \<longrightarrow> s' = s) \<and>
   (associate_resources params cfg units s = Inr (fit_list, makespan, s', rest) \<longrightarrow>
      resources_model s' = resources_model s) \<and>
   (configure_fit_2 params cfg clients s = Inr (fit_list, s') \<longrightarrow>
      resources_model s' = resources_model s)"
proof -
  have r1: "polynomials s' = polynomials s \<and> only_models_changed s s'"
    if "aggregate_fit fit 1 results monitors s = Inr s'"
  proof -
    from that have "capacity_actor_loop monitors s = Inr s'"
      using aggregate_fit_cases by fastforce
    then show ?thesis by (rule capacity_actor_loop_frame)
  qed
  have r2: "capacities s' = capacities s \<and> only_models_changed s s'"
    if "distinct (map fst (resources_model s))" "aggregate_fit fit 2 results monitors s = Inr s'"
  proof -
    from that(2) obtain t where "fit_actor_loop fit t monitors s = Inr s'"
      using aggregate_fit_cases by fastforce
    then show ?thesis using that(1) by (rule fit_actor_loop_frame)
  qed
  have r3: "s' = s"
    if "server_round \<noteq> 1" "server_round \<noteq> 2"
      "aggregate_fit fit server_round results monitors s = Inr s'"
    using that aggregate_fit_cases by fastforce
  have r4: "resources_model s' = resources_model s"
    if "associate_resources params cfg units s = Inr (fit_list, makespan, s', rest)"
    using associate_resources_state [OF that] by auto
  have r5: "resources_model s' = resources_model s"
    if "configure_fit_2 params cfg clients s = Inr (fit_list, s')"
    using configure_fit_2_state [OF that] by auto
  from r1 r2 r3 r4 r5 show ?thesis by blast
qed

theorem model_mutations_witness:
  "aggregate_fit two_point_fit 1 [] [(''node1'', round1_metrics 200 400)]
       (example_strategy one_device) =
     Inr (example_strategy [((''node1'', ''GPU-a''), (Polynomial_new [1, 0], 4))]) \<and>
   polynomials (example_strategy [((''node1'', ''GPU-a''), (Polynomial_new [1, 0], 4))]) =
     polynomials (example_strategy one_device) \<and>
   distinct (map fst (resources_model calibrated_strategy)) \<and>
   aggregate_fit two_point_fit 2 round2_results [(''node1'', round2_metrics)]
       calibrated_strategy =
     Inr (calibrated_strategy\<lparr>resources_model :=
            [((''node1'', ''GPU-a''),
              (\<lparr>coef = [3 / 2, 1 / 2], pdomain = (10, 20), pwindow = (- 1, 1)\<rparr>, 2))]\<rparr>) \<and>
   capacities (calibrated_strategy\<lparr>resources_model :=
            [((''node1'', ''GPU-a''),
              (\<lparr>coef = [3 / 2, 1 / 2], pdomain = (10, 20), pwindow = (- 1, 1)\<rparr>, 2))]\<rparr>) =
     capacities calibrated_strategy \<and>
   (3::int) \<noteq> 1 \<and> (3::int) \<noteq> 2 \<and>
   aggregate_fit two_point_fit 3 round2_results [(''node1'', round2_metrics)]
       calibrated_strategy = Inr calibrated_strategy"
proof -
  let ?s = "example_strategy one_device"
  let ?s4 = "example_strategy [((''node1'', ''GPU-a''), (Polynomial_new [1, 0], 4))]"
  let ?sf = "calibrated_strategy\<lparr>resources_model :=
            [((''node1'', ''GPU-a''),
              (\<lparr>coef = [3 / 2, 1 / 2], pdomain = (10, 20), pwindow = (- 1, 1)\<rparr>, 2))]\<rparr>"
  have a1: "aggregate_fit two_point_fit 1 [] [(''node1'', round1_metrics 200 400)] ?s = Inr ?s4"
    by code_simp
  have d: "distinct (map fst (resources_model calibrated_strategy))" by code_simp
  have a2: "aggregate_fit two_point_fit 2 round2_results [(''node1'', round2_metrics)]
       calibrated_strategy = Inr ?sf"
    by code_simp
  have a3: "aggregate_fit two_point_fit 3 round2_results [(''node1'', round2_metrics)]
       calibrated_strategy = Inr calibrated_strategy"
    by code_simp
  from model_mutations [THEN conjunct1, THEN mp, OF a1]
  have r1: "polynomials ?s4 = polynomials ?s" by (rule conjunct1)
  from model_mutations [THEN conjunct2, THEN conjunct1, THEN mp, OF conjI [OF d a2]]
  have r2: "capacities ?sf = capacities calibrated_strategy" by (rule conjunct1)
  from a1 r1 d a2 r2 a3 show ?thesis by simp
qed

subsection \<open>The invariant \<open>capacity \<ge> 1\<close>\<close>

lemma capacity_ok_update:
  "capacity_ok s \<Longrightarrow> 1 \<le> n \<Longrightarrow>
   capacity_ok (s\<lparr>resources_model := AList.update k (p, n) (resources_model s)\<rparr>)"
proof -
  assume a: "capacity_ok s" "1 \<le> n"
  have "set (AList.update k (p, n) al) \<subseteq> insert (k, (p, n)) (set al)" for al
    by (induction al) auto
  then have "e \<in> set (AList.update k (p, n) (resources_model s)) \<Longrightarrow>
      e = (k, (p, n)) \<or> e \<in> set (resources_model s)" for e
    by blast
  with a show ?thesis
    by (fastforce simp: capacity_ok_def list_all_iff)
qed

lemma capacity_gpu_loop_ok:
  assumes "capacity_gpu_loop node_id max_all gd s = Inr s'"
    and "capacity_ok s"
    and "list_all (\<lambda>g. 0 < snd g \<and>
           (case gpu_lookup s node_id (fst g) of None \<Rightarrow> True
            | Some gpu \<Rightarrow>
               (case map_of max_all (fst g) of None \<Rightarrow> True
                | Some a \<Rightarrow> a \<le> total_mem_mb gpu))) gd"
  shows "capacity_ok s'"
  using assms
proof (induction gd arbitrary: s)
  case Nil
  then show ?case by simp
next
  case (Cons g gd)
  obtain gpu_uuid this where g: "g = (gpu_uuid, this)" by (cases g)
  from Cons.prems(1) obtain gpus gpu a poly_model t n where
    l1: "py_getitem (gpu_resources s) node_id = Inr gpus"
    and l2: "py_getitem gpus gpu_uuid = Inr gpu"
    and l3: "py_getitem max_all gpu_uuid = Inr a"
    and n: "max_num_clients_this_gpu (total_mem_mb gpu) a this = Inr n"
    and rest: "capacity_gpu_loop node_id max_all gd
        (s\<lparr>resources_model := AList.update (node_id, gpu_uuid) (poly_model, n) (resources_model s)\<rparr>) = Inr s'"
    unfolding g by (auto split: sum.splits)
  let ?s1 = "s\<lparr>resources_model := AList.update (node_id, gpu_uuid) (poly_model, n) (resources_model s)\<rparr>"
  from l1 l2 have "gpu_lookup s node_id gpu_uuid = Some gpu"
    by (auto simp: gpu_lookup_def py_getitem_def split: option.splits)
  moreover from l3 have "map_of max_all gpu_uuid = Some a"
    by (auto simp: py_getitem_def split: option.splits)
  ultimately have pos: "0 < this" and le: "a \<le> total_mem_mb gpu"
    using Cons.prems(3) by (simp_all add: g)
  from pos le have "1 \<le> (total_mem_mb gpu - a + this) / this" by simp
  then have "1 \<le> \<lfloor>(total_mem_mb gpu - a + this) / this\<rfloor>" by linarith
  with n pos le have "1 \<le> n"
    by (auto simp: max_num_clients_this_gpu_def py_int_def split: if_splits)
  with Cons.prems(2) have ok1: "capacity_ok ?s1" by (rule capacity_ok_update)
  have "gpu_lookup ?s1 = gpu_lookup s" by (simp add: gpu_lookup_def fun_eq_iff)
  with Cons.prems(3) have "list_all (\<lambda>g. 0 < snd g \<and>
           (case gpu_lookup ?s1 node_id (fst g) of None \<Rightarrow> True
            | Some gpu \<Rightarrow>
               (case map_of max_all (fst g) of None \<Rightarrow> True
                | Some a \<Rightarrow> a \<le> total_mem_mb gpu))) gd"
    by simp
  from Cons.IH [OF rest ok1 this] show ?case .
qed

lemma gpu_lookup_only:
  "only_models_changed s s' \<Longrightarrow> gpu_lookup s' = gpu_lookup s"
  by (simp add: only_models_changed_def gpu_lookup_def fun_eq_iff)

lemma capacity_task_loop_ok:
  assumes "capacity_task_loop node_id max_all ts s = Inr s'"
    and "capacity_ok s"
    and "list_all (\<lambda>t. list_all (\<lambda>g. 0 < snd g \<and>
           (case gpu_lookup s node_id (fst g) of None \<Rightarrow> True
            | Some gpu \<Rightarrow>
               (case map_of max_all (fst g) of None \<Rightarrow> True
                | Some a \<Rightarrow> a \<le> total_mem_mb gpu))) (snd t)) ts"
  shows "capacity_ok s'"
  using assms
proof (induction ts arbitrary: s)
  case Nil
  then show ?case by simp
next
  case (Cons t ts)
  obtain task gd where t: "t = (task, gd)" by (cases t)
  from Cons.prems(1) obtain s1 where
    a: "capacity_gpu_loop node_id max_all gd s = Inr s1"
    and b: "capacity_task_loop node_id max_all ts s1 = Inr s'"
    unfolding t by (auto split: sum.splits)
  from Cons.prems(3) have "list_all (\<lambda>g. 0 < snd g \<and>
           (case gpu_lookup s node_id (fst g) of None \<Rightarrow> True
            | Some gpu \<Rightarrow>
               (case map_of max_all (fst g) of None \<Rightarrow> True
                | Some a \<Rightarrow> a \<le> total_mem_mb gpu))) gd"
    by (simp add: t)
  from capacity_gpu_loop_ok [OF a Cons.prems(2) this] have ok1: "capacity_ok s1" .
  from capacity_gpu_loop_frame [OF a] have "gpu_lookup s1 = gpu_lookup s"
    by (simp add: gpu_lookup_only)
  with Cons.prems(3) have "list_all (\<lambda>t. list_all (\<lambda>g. 0 < snd g \<and>
           (case gpu_lookup s1 node_id (fst g) of None \<Rightarrow> True
            | Some gpu \<Rightarrow>
               (case map_of max_all (fst g) of None \<Rightarrow> True
                | Some a \<Rightarrow> a \<le> total_mem_mb gpu))) (snd t)) ts"
    by simp
  from Cons.IH [OF b ok1 this] show ?case .
qed

lemma capacity_actor_loop_ok:
  assumes "capacity_actor_loop monitors s = Inr s'"
    and "capacity_ok s"
    and "telemetry_ok s monitors"
  shows "capacity_ok s'"
  using assms
proof (induction monitors arbitrary: s)
  case Nil
  then show ?case by simp
next
  case (Cons a monitors)
  obtain node_id m where a: "a = (node_id, m)" by (cases a)
  from Cons.prems(1) obtain s1 where
    a1: "capacity_task_loop node_id (max_all_proc_mem_used_mb m) (max_this_proc_mem_used_mb m) s = Inr s1"
    and b: "capacity_actor_loop monitors s1 = Inr s'"
    unfolding a by (auto split: sum.splits)
  from Cons.prems(3) have here: "list_all (\<lambda>t. list_all (\<lambda>g. 0 < snd g \<and>
           (case gpu_lookup s node_id (fst g) of None \<Rightarrow> True
            | Some gpu \<Rightarrow>
               (case map_of (max_all_proc_mem_used_mb m) (fst g) of None \<Rightarrow> True
                | Some a \<Rightarrow> a \<le> total_mem_mb gpu))) (snd t)) (max_this_proc_mem_used_mb m)"
    and later: "telemetry_ok s monitors"
    by (simp_all add: telemetry_ok_def a cong: option.case_cong)
  from capacity_task_loop_ok [OF a1 Cons.prems(2) here] have ok1: "capacity_ok s1" .
  from capacity_task_loop_frame [OF a1] have "gpu_lookup s1 = gpu_lookup s"
    by (simp add: gpu_lookup_only)
  with later have "telemetry_ok s1 monitors" by (simp add: telemetry_ok_def)
  from Cons.IH [OF b ok1 this] show ?case .
qed

lemma fit_loop_ok:
  assumes "fit_loop fit x y items s = Inr s'"
    and "capacity_ok s"
    and "list_all (\<lambda>e. 1 \<le> snd (snd e)) items"
  shows "capacity_ok s'"
  using assms
proof (induction items arbitrary: s)
  case Nil
  then show ?case by simp
next
  case (Cons e items)
  obtain k m c where e: "e = (k, (m, c))" by (cases e) auto
  from Cons.prems(1) obtain m' where
    rest: "fit_loop fit x y items
        (s\<lparr>resources_model := AList.update k (m', c) (resources_model s)\<rparr>) = Inr s'"
    unfolding e by (auto split: sum.splits)
  from Cons.prems(3) have "1 \<le> c" and items: "list_all (\<lambda>e. 1 \<le> snd (snd e)) items"
    by (simp_all add: e)
  from capacity_ok_update [OF Cons.prems(2) \<open>1 \<le> c\<close>]
  have "capacity_ok (s\<lparr>resources_model := AList.update k (m', c) (resources_model s)\<rparr>)" .
  from Cons.IH [OF rest this items] show ?case .
qed

lemma fit_actor_loop_ok:
  assumes "fit_actor_loop fit task_to_cid monitors s = Inr s'"
    and "capacity_ok s"
  shows "capacity_ok s'"
  using assms
proof (induction monitors arbitrary: s)
  case Nil
  then show ?case by simp
next
  case (Cons a monitors)
  obtain node_id m where a: "a = (node_id, m)" by (cases a)
  from Cons.prems(1) obtain x y s1 where
    fl: "fit_loop fit x y (resources_model s) s = Inr s1"
    and rest: "fit_actor_loop fit task_to_cid monitors s1 = Inr s'"
    unfolding a by (auto split: sum.splits)
  from Cons.prems(2) have "list_all (\<lambda>e. 1 \<le> snd (snd e)) (resources_model s)"
    by (simp add: capacity_ok_def)
  from fit_loop_ok [OF fl Cons.prems(2) this] have "capacity_ok s1" .
  from Cons.IH [OF rest this] show ?case .
qed

lemma map_of_view:
  "map_of (map (\<lambda>e. (fst e, f (snd e))) al) k = map_option f (map_of al k)"
  by (induction al) auto

lemma create_model_ok:
  assumes "create_model node_id gpu_uuid s = Inr s'" and "capacity_ok s"
  shows "capacity_ok s'"
proof -
  from assms(1) obtain p where
    "s' = s\<lparr>resources_model := AList.update (node_id, gpu_uuid) (p, 1) (resources_model s)\<rparr>"
    by (auto simp: create_model_def Let_def split: if_splits)
  with capacity_ok_update [OF assms(2), of 1] show ?thesis by simp
qed

text \<open>
  C4, as amended. A model is created with capacity 1. The update of round 1 stores the
  estimate as it is computed, with no clamping; the stored capacities are at least 1
  whenever every memory sample has a positive peak for the task and the peak of all
  processes does not exceed the total memory of the GPU. The update of round 2, the
  later rounds and the scheduler leave every capacity at least 1.
\<close>

theorem capacity_invariant:
  assumes "capacity_ok s"
  shows "(create_model node_id gpu_uuid s = Inr s' \<longrightarrow>
            capacity_ok s' \<and> map_of (capacities s') (node_id, gpu_uuid) = Some 1) \<and>
         (telemetry_ok s monitors \<and> aggregate_fit fit 1 results monitors s = Inr s' \<longrightarrow>
            capacity_ok s') \<and>
         (server_round \<noteq> 1 \<and> aggregate_fit fit server_round results monitors s = Inr s' \<longrightarrow>
            capacity_ok s') \<and>
         (associate_resources params cfg units s = Inr (fit_list, makespan, s', rest) \<longrightarrow>
            capacity_ok s')"
proof (intro conjI impI)
  assume c: "create_model node_id gpu_uuid s = Inr s'"
  with assms show "capacity_ok s'" by (rule create_model_ok [rotated])
  from c obtain p where
    "s' = s\<lparr>resources_model := AList.update (node_id, gpu_uuid) (p, 1) (resources_model s)\<rparr>"
    by (auto simp: create_model_def Let_def split: if_splits)
  then show "map_of (capacities s') (node_id, gpu_uuid) = Some 1"
    by (simp add: capacities_def map_of_view update_conv')
next
  assume "telemetry_ok s monitors \<and> aggregate_fit fit 1 results monitors s = Inr s'"
  then have t: "telemetry_ok s monitors" and "capacity_actor_loop monitors s = Inr s'"
    using aggregate_fit_cases by fastforce+
  from capacity_actor_loop_ok [OF this(2) assms t] show "capacity_ok s'" .
next
  assume a: "server_round \<noteq> 1 \<and> aggregate_fit fit server_round results monitors s = Inr s'"
  with aggregate_fit_cases [of fit server_round results monitors s s']
  consider t where "fit_actor_loop fit t monitors s = Inr s'" | "s' = s" by blast
  then show "capacity_ok s'"
  proof cases
    case 1
    from fit_actor_loop_ok [OF 1 assms] show ?thesis .
  next
    case 2
    with assms show ?thesis by simp
  qed
next
  assume "associate_resources params cfg units s = Inr (fit_list, makespan, s', rest)"
  then obtain ett where "associate_loop params cfg (map fst (resources_model s)) s
      (replicate (length (resources_model s)) 0) [] (sort_reverse units) = Inr (s', ett, fit_list, rest)"
    by (auto simp: associate_resources_def Let_def split: sum.splits)
  from associate_loop_state [OF this] obtain ccm where "s' = s\<lparr>client_configs_map := ccm\<rparr>" ..
  with assms show "capacity_ok s'" by simp
qed

theorem capacity_invariant_witness:
  "capacity_ok (example_strategy one_device) \<and>
   create_model ''node1'' ''GPU-b'' (example_strategy one_device) =
     Inr (example_strategy [((''node1'', ''GPU-a''), (Polynomial_new [1, 0], 2)),
                            ((''node1'', ''GPU-b''), (Polynomial_new [1, 0], 1))]) \<and>
   capacity_ok (example_strategy [((''node1'', ''GPU-a''), (Polynomial_new [1, 0], 2)),
                                  ((''node1'', ''GPU-b''), (Polynomial_new [1, 0], 1))]) \<and>
   telemetry_ok (example_strategy one_device) [(''node1'', round1_metrics 200 400)] \<and>
   aggregate_fit two_point_fit 1 [] [(''node1'', round1_metrics 200 400)]
       (example_strategy one_device) =
     Inr (example_strategy [((''node1'', ''GPU-a''), (Polynomial_new [1, 0], 4))]) \<and>
   capacity_ok (example_strategy [((''node1'', ''GPU-a''), (Polynomial_new [1, 0], 4))]) \<and>
   capacity_ok calibrated_strategy \<and>
   aggregate_fit two_point_fit 2 round2_results [(''node1'', round2_metrics)]
       calibrated_strategy =
     Inr (calibrated_strategy\<lparr>resources_model :=
            [((''node1'', ''GPU-a''),
              (\<lparr>coef = [3 / 2, 1 / 2], pdomain = (10, 20), pwindow = (- 1, 1)\<rparr>, 2))]\<rparr>) \<and>
   capacity_ok (calibrated_strategy\<lparr>resources_model :=
            [((''node1'', ''GPU-a''),
              (\<lparr>coef = [3 / 2, 1 / 2], pdomain = (10, 20), pwindow = (- 1, 1)\<rparr>, 2))]\<rparr>)"
proof -
  let ?s = "example_strategy one_device"
  let ?sb = "example_strategy [((''node1'', ''GPU-a''), (Polynomial_new [1, 0], 2)),
                               ((''node1'', ''GPU-b''), (Polynomial_new [1, 0], 1))]"
  let ?s4 = "example_strategy [((''node1'', ''GPU-a''), (Polynomial_new [1, 0], 4))]"
  let ?sf = "calibrated_strategy\<lparr>resources_model :=
            [((''node1'', ''GPU-a''),
              (\<lparr>coef = [3 / 2, 1 / 2], pdomain = (10, 20), pwindow = (- 1, 1)\<rparr>, 2))]\<rparr>"
  have ok: "capacity_ok ?s" by code_simp
  have c: "create_model ''node1'' ''GPU-b'' ?s = Inr ?sb" by code_simp
  have t: "telemetry_ok ?s [(''node1'', round1_metrics 200 400)]" by code_simp
  have a1: "aggregate_fit two_point_fit 1 [] [(''node1'', round1_metrics 200 400)] ?s = Inr ?s4"
    by code_simp
  have ok2: "capacity_ok calibrated_strategy" by code_simp
  have a2: "aggregate_fit two_point_fit 2 round2_results [(''node1'', round2_metrics)]
       calibrated_strategy = Inr ?sf"
    by code_simp
  have ne: "(2::int) \<noteq> 1" by simp
  from capacity_invariant [OF ok, THEN conjunct1, THEN mp, OF c]
  have r1: "capacity_ok ?sb" by (rule conjunct1)
  from capacity_invariant [OF ok, THEN conjunct2, THEN conjunct1, THEN mp, OF conjI [OF t a1]]
  have r2: "capacity_ok ?s4" .
  from capacity_invariant [OF ok2, THEN conjunct2, THEN conjunct2, THEN conjunct1, THEN mp,
      OF conjI [OF ne a2]]
  have r3: "capacity_ok ?sf" .
  from ok c t a1 ok2 a2 r1 r2 r3 show ?thesis by blast
qed

text \<open>
  The claim C4 as stated, that an estimate of 0 is clamped to 1, fails: with a total of
  1000, a peak of 1100 for all processes and 200 for the task, the estimate is
  \<open>int(0.5) = 0\<close>, and 0 is what the update of round 1 stores.
\<close>

theorem capacity_clamp_counterexample:
  "capacity_ok (example_strategy one_device) \<and>
   aggregate_fit two_point_fit 1 [] [(''node1'', round1_metrics 200 1100)]
       (example_strategy one_device) =
     Inr (example_strategy [((''node1'', ''GPU-a''), (Polynomial_new [1, 0], 0))]) \<and>
   \<not> capacity_ok (example_strategy [((''node1'', ''GPU-a''), (Polynomial_new [1, 0], 0))])"
  by code_simp

subsection \<open>A sample with no memory use\<close>

lemma capacity_gpu_loop_zero:
  "(gpu_uuid, 0) \<in> set gd \<Longrightarrow> isl (capacity_gpu_loop node_id max_all gd s)"
proof (induction gd arbitrary: s)
  case Nil
  then show ?case by simp
next
  case (Cons g gd)
  obtain u this where g: "g = (u, this)" by (cases g)
  show ?case
  proof (cases "this = 0")
    case True
    then show ?thesis
      by (simp add: g max_num_clients_this_gpu_def split: sum.splits)
  next
    case False
    with Cons.prems have "(gpu_uuid, 0) \<in> set gd" by (auto simp: g)
    then have "isl (capacity_gpu_loop node_id max_all gd s1)" for s1 by (rule Cons.IH)
    then show ?thesis
      by (simp add: g split: sum.splits prod.splits)
  qed
qed

lemma capacity_task_loop_zero:
  "(task, gd) \<in> set ts \<Longrightarrow> (gpu_uuid, 0) \<in> set gd \<Longrightarrow>
   isl (capacity_task_loop node_id max_all ts s)"
proof (induction ts arbitrary: s)
  case Nil
  then show ?case by simp
next
  case (Cons t ts)
  obtain task1 gd1 where t: "t = (task1, gd1)" by (cases t)
  show ?case
  proof (cases "(task, gd) = (task1, gd1)")
    case True
    with Cons.prems(2) have "isl (capacity_gpu_loop node_id max_all gd1 s)"
      by (auto intro: capacity_gpu_loop_zero)
    then show ?thesis by (auto simp: t split: sum.splits)
  next
    case False
    with Cons.prems have "(task, gd) \<in> set ts" by (auto simp: t)
    then have "isl (capacity_task_loop node_id max_all ts s1)" for s1
      using Cons.prems(2) by (rule Cons.IH)
    then show ?thesis by (auto simp: t split: sum.splits)
  qed
qed

lemma capacity_actor_loop_zero:
  "(node_id, m) \<in> set monitors \<Longrightarrow> (task, gd) \<in> set (max_this_proc_mem_used_mb m) \<Longrightarrow>
   (gpu_uuid, 0) \<in> set gd \<Longrightarrow> isl (capacity_actor_loop monitors s)"
proof (induction monitors arbitrary: s)
  case Nil
  then show ?case by simp
next
  case (Cons a monitors)
  obtain n1 m1 where a: "a = (n1, m1)" by (cases a)
  show ?case
  proof (cases "(node_id, m) = (n1, m1)")
    case True
    with Cons.prems(2,3) have "isl (capacity_task_loop n1 (max_all_proc_mem_used_mb m1)
        (max_this_proc_mem_used_mb m1) s)"
      by (auto intro: capacity_task_loop_zero)
    then show ?thesis by (auto simp: a split: sum.splits)
  next
    case False
    with Cons.prems have "(node_id, m) \<in> set monitors" by (auto simp: a)
    then have "isl (capacity_actor_loop monitors s1)" for s1
      using Cons.prems(2,3) by (rule Cons.IH)
    then show ?thesis by (auto simp: a split: sum.splits)
  qed
qed

text \<open>
  C5, as amended. When the peak memory of the task is 0 the estimate raises
  ZeroDivisionError: the source divides by zero. There is no fallback to capacity 1: a
  sample with peak 0 anywhere in the telemetry of round 1 makes \<open>aggregate_fit\<close> raise.
\<close>

theorem zero_sample_is_fatal:
  "max_num_clients_this_gpu total_memory peak_all_other 0 = Inl ZeroDivisionError \<and>
   ((node_id, m) \<in> set monitors \<and> (task, gd) \<in> set (max_this_proc_mem_used_mb m) \<and>
    (gpu_uuid, 0) \<in> set gd \<longrightarrow>
      isl (aggregate_fit fit 1 results monitors s))"
proof (intro conjI impI)
  show "max_num_clients_this_gpu total_memory peak_all_other 0 = Inl ZeroDivisionError"
    by (simp add: max_num_clients_this_gpu_def)
next
  assume "(node_id, m) \<in> set monitors \<and> (task, gd) \<in> set (max_this_proc_mem_used_mb m) \<and>
    (gpu_uuid, 0) \<in> set gd"
  then have "isl (capacity_actor_loop monitors s)"
    by (auto intro: capacity_actor_loop_zero)
  then show "isl (aggregate_fit fit 1 results monitors s)"
    by (simp add: aggregate_fit_def split: sum.splits)
qed

theorem zero_sample_is_fatal_witness:
  "(''node1'', round1_metrics 0 400) \<in> set [(''node1'', round1_metrics 0 400)] \<and>
   (SInt 1, [(''GPU-a'', 0)]) \<in> set (max_this_proc_mem_used_mb (round1_metrics 0 400)) \<and>
   (''GPU-a'', 0) \<in> set [(''GPU-a'', 0::real)] \<and>
   isl (aggregate_fit two_point_fit 1 [] [(''node1'', round1_metrics 0 400)]
          (example_strategy one_device)) \<and>
   max_num_clients_this_gpu 1000 400 0 = Inl ZeroDivisionError"
proof -
  have h1: "(''node1'', round1_metrics 0 400) \<in> set [(''node1'', round1_metrics 0 400)]"
    by simp
  have h2: "(SInt 1, [(''GPU-a'', 0)]) \<in> set (max_this_proc_mem_used_mb (round1_metrics 0 400))"
    by (simp add: round1_metrics_def)
  have h3: "(''GPU-a'', 0) \<in> set [(''GPU-a'', 0::real)]" by simp
  from zero_sample_is_fatal [of 1000 400 "''node1''" "round1_metrics 0 400"
      "[(''node1'', round1_metrics 0 400)]" "SInt 1" "[(''GPU-a'', 0)]" "''GPU-a''"
      two_point_fit "[]" "example_strategy one_device"] h1 h2 h3
  show ?thesis by blast
qed

text \<open>
  The claim C5 as stated, a fallback to capacity 1 after which the round continues,
  fails: with a sample of peak 0 the update of round 1 ends in ZeroDivisionError and
  returns no strategy.
\<close>

theorem zero_sample_fallback_counterexample:
  "aggregate_fit two_point_fit 1 [] [(''node1'', round1_metrics 0 400)]
     (example_strategy one_device) = Inl ZeroDivisionError"
  by code_simp

subsection \<open>The calibration round\<close>

lemma warm_up_loop_probes:
  assumes "length steps \<le> length clients"
  shows "\<exists>clients' ccm' new.
     warm_up_loop params cfg node_id gpu_uuid gid steps (clients, ccm, cfl) =
       Inr (clients', ccm', cfl @ new) \<and>
     length clients' = length clients - length steps \<and>
     map probe_of new =
       map (\<lambda>size. (Some (SchedulingStrategy node_id False), Some (SInt gid), Some (SInt size)))
         steps"
  using assms
proof (induction steps arbitrary: clients ccm cfl)
  case Nil
  then show ?case by simp
next
  case (Cons st steps)
  then have ne: "clients \<noteq> []" by auto
  let ?client = "last clients"
  let ?entry = "(?client\<lparr>resources :=
               AList.update ''scheduling_strategy'' (SchedulingStrategy node_id False)
                 (resources ?client)\<rparr>,
             \<lparr>parameters = params,
              config = AList.update ''local_steps'' (SInt st)
                 (AList.update ''gpu_id'' (SInt gid)
                    (AList.update ''epochs'' (SInt 1) cfg))\<rparr>)"
  from Cons.prems have "length steps \<le> length (butlast clients)" by simp
  from Cons.IH [OF this, of "AList.update (cid ?client) (node_id, gpu_uuid, st) ccm"
      "cfl @ [?entry]"]
  obtain clients' ccm' new where
    run: "warm_up_loop params cfg node_id gpu_uuid gid steps
       (butlast clients, AList.update (cid ?client) (node_id, gpu_uuid, st) ccm, cfl @ [?entry]) =
       Inr (clients', ccm', (cfl @ [?entry]) @ new)"
    and len: "length clients' = length (butlast clients) - length steps"
    and probes: "map probe_of new =
       map (\<lambda>size. (Some (SchedulingStrategy node_id False), Some (SInt gid), Some (SInt size)))
         steps"
    by blast
  have e: "probe_of ?entry =
      (Some (SchedulingStrategy node_id False), Some (SInt gid), Some (SInt st))"
    by (simp add: probe_of_def update_conv')
  from ne run have "warm_up_loop params cfg node_id gpu_uuid gid (st # steps) (clients, ccm, cfl) =
      Inr (clients', ccm', cfl @ (?entry # new))"
    by (simp add: pop_def Let_def)
  moreover from len have "length clients' = length clients - length (st # steps)" by simp
  moreover from probes e have "map probe_of (?entry # new) =
      map (\<lambda>size. (Some (SchedulingStrategy node_id False), Some (SInt gid), Some (SInt size)))
        (st # steps)"
    by simp
  ultimately show ?case by blast
qed

lemma calibrate_loop_probes:
  assumes "list_all (\<lambda>k. gpu_lookup s (fst k) (snd k) \<noteq> None) keys"
    and "length keys * length (warm_up_steps s) \<le> length clients"
  shows "\<exists>clients' ccm' new.
     calibrate_loop params cfg s keys (clients, ccm, cfl) = Inr (clients', ccm', cfl @ new) \<and>
     length clients' = length clients - length keys * length (warm_up_steps s) \<and>
     map probe_of new =
       concat (map (\<lambda>k. map (\<lambda>size.
                 (Some (SchedulingStrategy (fst k) False),
                  Some (SInt (case gpu_lookup s (fst k) (snd k) of None \<Rightarrow> 0
                              | Some gpu \<Rightarrow> gpu_id gpu)),
                  Some (SInt size)))
               (warm_up_steps s)) keys)"
  using assms
proof (induction keys arbitrary: clients ccm cfl)
  case Nil
  then show ?case by simp
next
  case (Cons k keys)
  obtain node_id gpu_uuid where k: "k = (node_id, gpu_uuid)" by (cases k)
  from Cons.prems(1) obtain gpu where gpu: "gpu_lookup s node_id gpu_uuid = Some gpu"
    by (auto simp: k)
  then obtain gpus where gpus: "py_getitem (gpu_resources s) node_id = Inr gpus"
    "py_getitem gpus gpu_uuid = Inr gpu"
    by (auto simp: gpu_lookup_def py_getitem_def split: option.splits)
  from Cons.prems(2) have enough1: "length (warm_up_steps s) \<le> length clients" by simp
  from warm_up_loop_probes [OF enough1, of params cfg node_id gpu_uuid "gpu_id gpu" ccm cfl]
  obtain clients1 ccm1 new1 where
    run1: "warm_up_loop params cfg node_id gpu_uuid (gpu_id gpu) (warm_up_steps s)
             (clients, ccm, cfl) = Inr (clients1, ccm1, cfl @ new1)"
    and len1: "length clients1 = length clients - length (warm_up_steps s)"
    and probes1: "map probe_of new1 =
       map (\<lambda>size. (Some (SchedulingStrategy node_id False), Some (SInt (gpu_id gpu)),
                     Some (SInt size))) (warm_up_steps s)"
    by blast
  from Cons.prems(1) have known: "list_all (\<lambda>k. gpu_lookup s (fst k) (snd k) \<noteq> None) keys"
    by simp
  from Cons.prems(2) len1 have enough: "length keys * length (warm_up_steps s) \<le> length clients1"
    by simp
  from Cons.IH [OF known enough, of ccm1 "cfl @ new1"]
  obtain clients' ccm' new where
    run: "calibrate_loop params cfg s keys (clients1, ccm1, cfl @ new1) =
            Inr (clients', ccm', (cfl @ new1) @ new)"
    and len: "length clients' = length clients1 - length keys * length (warm_up_steps s)"
    and probes: "map probe_of new =
       concat (map (\<lambda>k. map (\<lambda>size.
                 (Some (SchedulingStrategy (fst k) False),
                  Some (SInt (case gpu_lookup s (fst k) (snd k) of None \<Rightarrow> 0
                              | Some gpu \<Rightarrow> gpu_id gpu)),
                  Some (SInt size)))
               (warm_up_steps s)) keys)"
    by blast
  from gpus run1 run have "calibrate_loop params cfg s (k # keys) (clients, ccm, cfl) =
      Inr (clients', ccm', cfl @ (new1 @ new))"
    by (simp add: k)
  moreover from len len1 have
    "length clients' = length clients - length (k # keys) * length (warm_up_steps s)"
    by simp
  moreover from probes1 probes gpu have "map probe_of (new1 @ new) =
       concat (map (\<lambda>k. map (\<lambda>size.
                 (Some (SchedulingStrategy (fst k) False),
                  Some (SInt (case gpu_lookup s (fst k) (snd k) of None \<Rightarrow> 0
                              | Some gpu \<Rightarrow> gpu_id gpu)),
                  Some (SInt size)))
               (warm_up_steps s)) (k # keys))"
    by (simp add: k)
  ultimately show ?case by blast
qed

lemma configure_fit_2_probes:
  assumes "devices_known s"
    and "length (resources_model s) * length (warm_up_steps s) \<le> length clients"
  shows "\<exists>fit_list s'. configure_fit_2 params cfg clients s = Inr (fit_list, s') \<and>
           map probe_of fit_list = spec_probes s"
proof -
  from assms(1) have known:
    "list_all (\<lambda>k. gpu_lookup s (fst k) (snd k) \<noteq> None) (map fst (resources_model s))"
    by (simp add: devices_known_def)
  from assms(2) have enough:
    "length (map fst (resources_model s)) * length (warm_up_steps s) \<le> length clients"
    by simp
  from calibrate_loop_probes [OF known enough, of params cfg "client_configs_map s" "[]"]
  obtain clients' ccm' new where
    "calibrate_loop params cfg s (map fst (resources_model s))
        (clients, client_configs_map s, []) = Inr (clients', ccm', [] @ new)"
    and "map probe_of new = spec_probes s"
    unfolding spec_probes_def by blast
  then show ?thesis
    by (simp add: configure_fit_2_def)
qed

lemma warm_up_pool_distinct: "distinct warm_up_pool"
  by (simp add: warm_up_pool_def distinct_map inj_on_def)

lemma choice_distinct:
  assumes "choice pool n perm = Inr steps"
    and "distinct pool" and "distinct perm" and "set perm \<subseteq> {..<length pool}"
  shows "distinct steps \<and> int (length steps) = min n (int (length perm)) \<and> set steps \<subseteq> set pool"
proof -
  from assms(1) have n: "0 \<le> n" and steps: "steps = map (\<lambda>i. pool ! i) (take (nat n) perm)"
    by (auto simp: choice_def split: if_splits)
  have sub: "set (take (nat n) perm) \<subseteq> {..<length pool}"
    using assms(4) set_take_subset by fastforce
  have "inj_on (\<lambda>i. pool ! i) (set (take (nat n) perm))"
  proof (rule inj_onI)
    fix x y
    assume "x \<in> set (take (nat n) perm)" "y \<in> set (take (nat n) perm)" "pool ! x = pool ! y"
    with sub have "x < length pool" "y < length pool" "pool ! x = pool ! y" by auto
    with assms(2) show "x = y" by (simp add: nth_eq_iff_index_eq)
  qed
  with assms(3) have "distinct steps"
    by (simp add: steps distinct_map)
  moreover from n have "int (length steps) = min n (int (length perm))"
    by (auto simp: steps min_def)
  moreover from sub have "set steps \<subseteq> set pool"
    by (auto simp: steps)
  ultimately show ?thesis by blast
qed

lemma create_model_warm_up:
  "create_model node_id gpu_uuid s = Inr s' \<Longrightarrow> warm_up_steps s' = warm_up_steps s"
  by (auto simp: create_model_def Let_def split: if_splits)

text \<open>
  C8. The constructor draws the calibration sizes once: \<open>D + 1\<close> pairwise distinct
  sizes of the pool, for every outcome of the generator. No later operation writes
  them. In the calibration round, given the \<open>(D + 1) * devices\<close> sampled clients,
  \<open>configure_fit\<close> succeeds and issues to every device exactly one probe for each of
  these sizes, the same sizes for every device.
\<close>

theorem calibration_probes:
  assumes "init poly_degree perm = Inr s0"
    and "distinct perm" and "set perm = {..<6}"
    and "warm_up_steps s = warm_up_steps s0"
    and "resource_poly_degree s = poly_degree"
    and "devices_known s"
    and "length clients = nat (resource_poly_degree s + 1) * length (resources_model s)"
  shows "length (warm_up_steps s) = nat (poly_degree + 1) \<and>
     distinct (warm_up_steps s) \<and> set (warm_up_steps s) \<subseteq> set warm_up_pool \<and>
     (\<exists>fit_list s'. configure_fit_2 params cfg clients s = Inr (fit_list, s') \<and>
         map probe_of fit_list = spec_probes s \<and> warm_up_steps s' = warm_up_steps s) \<and>
     (aggregate_fit fit server_round results monitors s = Inr s2 \<longrightarrow>
         warm_up_steps s2 = warm_up_steps s) \<and>
     (associate_resources params cfg units s = Inr (fit_list2, makespan, s2, rest) \<longrightarrow>
         warm_up_steps s2 = warm_up_steps s) \<and>
     (create_model node_id gpu_uuid s = Inr s2 \<longrightarrow> warm_up_steps s2 = warm_up_steps s)"
proof -
  from assms(1) have ch: "choice warm_up_pool (poly_degree + 1) perm = Inr (warm_up_steps s0)"
    by (auto simp: init_def split: sum.splits)
  from assms(2,3) have lp: "length perm = 6"
    by (metis card_lessThan distinct_card)
  from ch have bound: "0 \<le> poly_degree + 1" "poly_degree + 1 \<le> 6"
    by (auto simp: choice_def length_warm_up_pool split: if_splits)
  from assms(3) have "set perm \<subseteq> {..<length warm_up_pool}"
    by (simp add: length_warm_up_pool)
  from choice_distinct [OF ch warm_up_pool_distinct assms(2) this] lp bound assms(4)
  have steps: "distinct (warm_up_steps s)" "set (warm_up_steps s) \<subseteq> set warm_up_pool"
    "length (warm_up_steps s) = nat (poly_degree + 1)"
    by auto
  from assms(5,7) steps(3)
  have "length (resources_model s) * length (warm_up_steps s) \<le> length clients"
    by (simp add: mult.commute)
  from configure_fit_2_probes [OF assms(6) this, of params cfg]
  obtain fit_list s' where run: "configure_fit_2 params cfg clients s = Inr (fit_list, s')"
    and probes: "map probe_of fit_list = spec_probes s"
    by blast
  from configure_fit_2_state [OF run] have "warm_up_steps s' = warm_up_steps s" by auto
  with run probes have cf: "\<exists>fit_list s'. configure_fit_2 params cfg clients s = Inr (fit_list, s') \<and>
         map probe_of fit_list = spec_probes s \<and> warm_up_steps s' = warm_up_steps s"
    by blast
  have ag: "warm_up_steps s2 = warm_up_steps s"
    if "aggregate_fit fit server_round results monitors s = Inr s2"
  proof -
    from aggregate_fit_cases [OF that] have "only_models_changed s s2"
      using capacity_actor_loop_frame fit_actor_loop_only
      by (auto simp: only_models_changed_def)
    then show ?thesis by (simp add: only_models_changed_def)
  qed
  have sc: "warm_up_steps s2 = warm_up_steps s"
    if "associate_resources params cfg units s = Inr (fit_list2, makespan, s2, rest)"
    using associate_resources_state [OF that] by auto
  have cm: "warm_up_steps s2 = warm_up_steps s"
    if "create_model node_id gpu_uuid s = Inr s2"
    using that by (rule create_model_warm_up)
  from steps cf ag sc cm show ?thesis by blast
qed

theorem calibration_probes_witness:
  "init 1 [3, 1, 0, 5, 4, 2] =
     Inr \<lparr>current_round = 0, warm_up_steps = [20, 10], client_configs_map = [],
          resource_poly_degree = 1, gpu_resources = [], resources_model = []\<rparr> \<and>
   distinct [3, 1, 0, 5, 4, 2::nat] \<and> set [3, 1, 0, 5, 4, 2] = {..<(6::nat)} \<and>
   warm_up_steps (example_strategy ex_models) = [20, 10] \<and>
   resource_poly_degree (example_strategy ex_models) = 1 \<and>
   devices_known (example_strategy ex_models) \<and>
   length four_clients =
     nat (resource_poly_degree (example_strategy ex_models) + 1) *
       length (resources_model (example_strategy ex_models)) \<and>
   length (warm_up_steps (example_strategy ex_models)) = 2 \<and>
   distinct (warm_up_steps (example_strategy ex_models)) \<and>
   map probe_of (fst (projr (configure_fit_2 () [] four_clients (example_strategy ex_models)))) =
     [(Some (SchedulingStrategy ''node1'' False), Some (SInt 0), Some (SInt 20)),
      (Some (SchedulingStrategy ''node1'' False), Some (SInt 0), Some (SInt 10)),
      (Some (SchedulingStrategy ''node1'' False), Some (SInt 1), Some (SInt 20)),
      (Some (SchedulingStrategy ''node1'' False), Some (SInt 1), Some (SInt 10))]"
proof -
  let ?start = "\<lparr>current_round = 0, warm_up_steps = [20, 10], client_configs_map = [],
          resource_poly_degree = 1, gpu_resources = [], resources_model = []\<rparr>"
  let ?s = "example_strategy ex_models"
  have h1: "init 1 [3, 1, 0, 5, 4, 2] = Inr ?start"
    by (simp add: init_def choice_def warm_up_pool_def)
  have h2: "distinct [3, 1, 0, 5, 4, 2::nat]" by simp
  have h3: "set [3, 1, 0, 5, 4, 2] = {..<(6::nat)}" by code_simp
  have w: "warm_up_steps ?s = [20, 10]" by (simp add: example_strategy_def)
  then have h4: "warm_up_steps ?s = warm_up_steps ?start" by simp
  have h5: "resource_poly_degree ?s = 1" by (simp add: example_strategy_def)
  have h6: "devices_known ?s" by code_simp
  have h7: "length four_clients = nat (resource_poly_degree ?s + 1) * length (resources_model ?s)"
    by code_simp
  from calibration_probes [OF h1 h2 h3 h4 h5 h6 h7, of "()" "[]"]
  obtain fit_list s' where len: "length (warm_up_steps ?s) = nat (1 + 1)"
    and dist: "distinct (warm_up_steps ?s)"
    and run: "configure_fit_2 () [] four_clients ?s = Inr (fit_list, s')"
    and probes: "map probe_of fit_list = spec_probes ?s"
    by blast
  have "spec_probes ?s =
     [(Some (SchedulingStrategy ''node1'' False), Some (SInt 0), Some (SInt 20)),
      (Some (SchedulingStrategy ''node1'' False), Some (SInt 0), Some (SInt 10)),
      (Some (SchedulingStrategy ''node1'' False), Some (SInt 1), Some (SInt 20)),
      (Some (SchedulingStrategy ''node1'' False), Some (SInt 1), Some (SInt 10))]"
    by code_simp
  with run probes have "map probe_of (fst (projr (configure_fit_2 () [] four_clients ?s))) =
     [(Some (SchedulingStrategy ''node1'' False), Some (SInt 0), Some (SInt 20)),
      (Some (SchedulingStrategy ''node1'' False), Some (SInt 0), Some (SInt 10)),
      (Some (SchedulingStrategy ''node1'' False), Some (SInt 1), Some (SInt 20)),
      (Some (SchedulingStrategy ''node1'' False), Some (SInt 1), Some (SInt 10))]"
    by simp
  with h1 h2 h3 w h5 h6 h7 len dist show ?thesis by simp
qed

end
